(* ===== verification/Prelude.thy ===== *)
theory Prelude
  imports Main "HOL-Library.Word" "HOL-Library.Multiset"
begin

text \<open>
  What every theory of the development shares: Go's error values and the
  \<open>if err != nil\<close> idiom, 64-bit signed arithmetic, the row operations that
  SQL statements are built from, and the collections of rewrite rules that
  carry the component proofs.
\<close>

section \<open>Collections of rules\<close>

named_theorems go_defs \<open>definitions of the small Go helpers, unfolded together\<close>
named_theorems sql_simps \<open>rewrite rules for the row operations of the SQL statements\<close>

section \<open>Basic types\<close>

text \<open>
  Go strings and byte slices are byte lists. A \<open>time.Time\<close> and a
  \<open>time.Duration\<close> are numbers of nanoseconds.
\<close>

type_synonym bytes = string
type_synonym uuid = string
type_synonym time = int
type_synonym duration = int

abbreviation second :: duration where
  "second \<equiv> 1000000000"

abbreviation minute :: duration where
  "minute \<equiv> 60 * second"

section \<open>Error values\<close>

text \<open>
  The sentinel errors of the program are constructors. \<open>Errorf m e\<close> is
  \<open>fmt.Errorf(m + ": %w", e)\<close>, which wraps \<open>e\<close>; \<open>Opaque\<close> is an error of
  a library or of \<open>errors.New\<close> that nothing compares against. A run-time panic
  is a value too: \<open>Panic\<close> is what the recovery middleware sees.
\<close>

datatype go_error =
    ErrNotFound
  | ErrQuotaExceeded
  | ErrDocumentNotReady
  | ErrInvalidPDF
  | ErrNoRows
  | Opaque string
  | Errorf string go_error
  | Panic string

text \<open>\<open>errors.Is\<close>: the error itself or one it wraps.\<close>

fun errors_is :: "go_error \<Rightarrow> go_error \<Rightarrow> bool" where
  "errors_is (Errorf m e) target \<longleftrightarrow> Errorf m e = target \<or> errors_is e target"
| "errors_is e target \<longleftrightarrow> e = target"

text \<open>\<open>err.Error()\<close>: a wrapped error prints after its prefix.\<close>

fun err_text :: "go_error \<Rightarrow> string" where
  "err_text ErrNotFound = ''not found''"
| "err_text ErrQuotaExceeded = ''storage quota exceeded''"
| "err_text ErrDocumentNotReady = ''document is not ready yet''"
| "err_text ErrInvalidPDF = ''file is not a valid PDF''"
| "err_text ErrNoRows = ''sql: no rows in result set''"
| "err_text (Opaque m) = m"
| "err_text (Errorf m e) = m @ '': '' @ err_text e"
| "err_text (Panic m) = m"

text \<open>
  A Go function that returns \<open>(T, error)\<close> is a function into
  \<open>go_error + 'a\<close>. \<open>and_then\<close> is the call followed by
  \<open>if err != nil { return err }\<close>; \<open>wrapf\<close> is the wrapping of the error by the
  caller's message.
\<close>

definition and_then :: "'e + 'a \<Rightarrow> ('a \<Rightarrow> 'e + 'b) \<Rightarrow> 'e + 'b" where
  "and_then m f = (case m of Inl e \<Rightarrow> Inl e | Inr x \<Rightarrow> f x)"

definition wrapf :: "string \<Rightarrow> go_error + 'a \<Rightarrow> go_error + 'a" where
  "wrapf msg m = (case m of Inl e \<Rightarrow> Inl (Errorf msg e) | Inr x \<Rightarrow> Inr x)"

lemma and_then_simps [simp]:
  "and_then (Inl e) f = Inl e"
  "and_then (Inr x) f = f x"
  by (simp_all add: and_then_def)

lemma wrapf_simps [simp]:
  "wrapf msg (Inl e) = Inl (Errorf msg e)"
  "wrapf msg (Inr x) = Inr x"
  by (simp_all add: wrapf_def)

lemma and_then_eq_Inr [simp]:
  "and_then m f = Inr y \<longleftrightarrow> (\<exists>x. m = Inr x \<and> f x = Inr y)"
  by (cases m) auto

lemma and_then_eq_Inl:
  "and_then m f = Inl e \<longleftrightarrow> m = Inl e \<or> (\<exists>x. m = Inr x \<and> f x = Inl e)"
  by (cases m) auto

lemma wrapf_eq_Inr [simp]: "wrapf msg m = Inr y \<longleftrightarrow> m = Inr y"
  by (cases m) auto

lemma wrapf_eq_Inl: "wrapf msg m = Inl e \<longleftrightarrow> (\<exists>e'. m = Inl e' \<and> e = Errorf msg e')"
  by (cases m) auto

lemma not_Inl_Inr: "(\<forall>e. m \<noteq> Inl e) \<longleftrightarrow> (\<exists>x. m = Inr x)"
  by (cases m) auto

section \<open>64-bit and 32-bit integers\<close>

text \<open>
  Go's \<open>int64\<close> arithmetic wraps: \<open>int64 i\<close> reads the low 64 bits of \<open>i\<close> as
  two's complement. PostgreSQL's BIGINT and INT do not wrap: a statement whose
  result does not fit fails, which \<open>int8_ok\<close> and \<open>int4_ok\<close> test.
\<close>

definition int64 :: "int \<Rightarrow> int" where
  "int64 i = sint (word_of_int i :: 64 word)"

definition int8_ok :: "int \<Rightarrow> bool" where
  "int8_ok i \<longleftrightarrow> - (2 ^ 63) \<le> i \<and> i < 2 ^ 63"

definition int4_ok :: "int \<Rightarrow> bool" where
  "int4_ok i \<longleftrightarrow> - (2 ^ 31) \<le> i \<and> i < 2 ^ 31"

lemma int64_id [simp]: "int8_ok i \<Longrightarrow> int64 i = i"
  by (simp add: int64_def int8_ok_def signed_take_bit_int_eq_self sint_sbintrunc')

lemma int8_ok_int64 [simp]: "int8_ok (int64 i)"
  using sint_range_size[of "word_of_int i :: 64 word"]
  by (simp add: int64_def int8_ok_def word_size)

section \<open>Row operations\<close>

text \<open>
  A table is the list of its rows in the order of the heap. \<open>UPDATE ... SET f
  WHERE P\<close> and \<open>DELETE ... WHERE P\<close> act on every matching row; a query
  filters.
\<close>

definition sql_update :: "('r \<Rightarrow> bool) \<Rightarrow> ('r \<Rightarrow> 'r) \<Rightarrow> 'r list \<Rightarrow> 'r list" where
  "sql_update P f rs = map (\<lambda>r. if P r then f r else r) rs"

definition sql_delete :: "('r \<Rightarrow> bool) \<Rightarrow> 'r list \<Rightarrow> 'r list" where
  "sql_delete P rs = filter (\<lambda>r. \<not> P r) rs"

text \<open>
  \<open>LIMIT 1\<close> without \<open>ORDER BY\<close> returns any one of the matching rows, and which
  one is not specified: the plan and the physical order of the row versions
  decide. \<open>limit1 n\<close> takes the choice as a number, and every choice among the
  matching rows is some \<open>n\<close> (\<open>limit1_any\<close>).
\<close>

definition limit1 :: "nat \<Rightarrow> 'r list \<Rightarrow> 'r option" where
  "limit1 n rs = (if rs = [] then None else Some (rs ! (n mod length rs)))"

text \<open>\<open>ORDER BY key DESC\<close>; rows with equal keys stay in heap order.\<close>

definition order_desc :: "('r \<Rightarrow> int) \<Rightarrow> 'r list \<Rightarrow> 'r list" where
  "order_desc key rs = sort_key (\<lambda>r. - key r) rs"

definition order_asc :: "('r \<Rightarrow> int) \<Rightarrow> 'r list \<Rightarrow> 'r list" where
  "order_asc key rs = sort_key key rs"

lemma limit1_in: "limit1 n rs = Some r \<Longrightarrow> r \<in> set rs"
  by (auto simp: limit1_def split: if_splits)

lemma limit1_None [simp]: "limit1 n rs = None \<longleftrightarrow> rs = []"
  by (simp add: limit1_def)

lemma limit1_Nil [simp]: "limit1 n [] = None"
  by (simp add: limit1_def)

lemma limit1_single [simp]: "limit1 n [r] = Some r"
  by (simp add: limit1_def)

lemma limit1_any: "r \<in> set rs \<Longrightarrow> \<exists>n. limit1 n rs = Some r"
  by (metis in_set_conv_nth length_pos_if_in_set less_numeral_extra(3) limit1_def
      list.size(3) mod_less)

lemma limit1_0: "rs \<noteq> [] \<Longrightarrow> limit1 0 rs = Some (hd rs)"
  by (simp add: limit1_def hd_conv_nth)

lemma set_order_desc [simp]: "set (order_desc key rs) = set rs"
  by (simp add: order_desc_def)

lemma set_order_asc [simp]: "set (order_asc key rs) = set rs"
  by (simp add: order_asc_def)

lemma length_sql_update [simp]: "length (sql_update P f rs) = length rs"
  by (simp add: sql_update_def)

lemma sql_update_Nil [simp]: "sql_update P f [] = []"
  by (simp add: sql_update_def)

lemma sql_update_Cons [simp]:
  "sql_update P f (r # rs) = (if P r then f r else r) # sql_update P f rs"
  by (simp add: sql_update_def)

lemma sql_update_append [sql_simps]:
  "sql_update P f (rs @ rs') = sql_update P f rs @ sql_update P f rs'"
  by (simp add: sql_update_def)

lemma sql_update_id [sql_simps]: "(\<And>r. r \<in> set rs \<Longrightarrow> \<not> P r) \<Longrightarrow> sql_update P f rs = rs"
  by (simp add: sql_update_def map_idI)

lemma in_set_sql_update:
  "r \<in> set (sql_update P f rs) \<longleftrightarrow> (\<exists>r0 \<in> set rs. r = (if P r0 then f r0 else r0))"
  by (auto simp: sql_update_def)

lemma bex_sql_update:
  "(\<And>r. Q (f r) = Q r) \<Longrightarrow> (\<exists>r \<in> set (sql_update P f rs). Q r) \<longleftrightarrow> (\<exists>r \<in> set rs. Q r)"
  by (induction rs) auto

lemma map_sql_update [sql_simps]:
  "(\<And>r. g (f r) = g r) \<Longrightarrow> map g (sql_update P f rs) = map g rs"
  by (simp add: sql_update_def)

lemma filter_sql_update [sql_simps]:
  "(\<And>r. Q (f r) = Q r) \<Longrightarrow> filter Q (sql_update P f rs) = sql_update P f (filter Q rs)"
  by (induction rs) auto

lemma sql_delete_Nil [simp]: "sql_delete P [] = []"
  by (simp add: sql_delete_def)

lemma sql_delete_append [sql_simps]: "sql_delete P (rs @ rs') = sql_delete P rs @ sql_delete P rs'"
  by (simp add: sql_delete_def)

lemma set_sql_delete [simp]: "set (sql_delete P rs) = {r \<in> set rs. \<not> P r}"
  by (auto simp: sql_delete_def)

lemma sql_delete_id [sql_simps]: "(\<And>r. r \<in> set rs \<Longrightarrow> \<not> P r) \<Longrightarrow> sql_delete P rs = rs"
  by (simp add: sql_delete_def filter_id_conv)

lemma distinct_map_sql_delete [sql_simps]:
  "distinct (map g rs) \<Longrightarrow> distinct (map g (sql_delete P rs))"
  by (simp add: sql_delete_def distinct_map_filter)

text \<open>Sums over the rows of a table.\<close>

lemma sum_list_delete_key:
  fixes v :: "'r \<Rightarrow> int"
  assumes "distinct (map k rs)" and "r \<in> set rs"
  shows "(\<Sum>x\<leftarrow>sql_delete (\<lambda>x. k x = k r) rs. v x) = (\<Sum>x\<leftarrow>rs. v x) - v r"
  using assms
proof (induction rs)
  case Nil
  then show ?case by simp
next
  case (Cons a rs)
  show ?case
  proof (cases "a = r")
    case True
    with Cons.prems(1) have "\<And>x. x \<in> set rs \<Longrightarrow> k x \<noteq> k r" by (metis distinct.simps(2) imageI list.simps(9) set_map)
    then have "filter (\<lambda>x. k x \<noteq> k r) rs = rs" by (simp add: filter_id_conv)
    with True show ?thesis by (simp add: sql_delete_def)
  next
    case False
    with Cons.prems have "r \<in> set rs" and "k a \<noteq> k r" by auto
    with Cons show ?thesis by (simp add: sql_delete_def)
  qed
qed

lemma filter_hdD: "filter P xs = y # ys \<Longrightarrow> y \<in> set xs \<and> P y"
  by (auto simp: filter_eq_Cons_iff)

lemma unique_row:
  "distinct (map k rs) \<Longrightarrow> r \<in> set rs \<Longrightarrow> r' \<in> set rs \<Longrightarrow> k r = k r' \<Longrightarrow> r = r'"
  by (metis (no_types, lifting) distinct_map inj_on_def)

text \<open>A separator that neither part holds splits a string in one way.\<close>

lemma append_sep_eq:
  "c \<notin> set u \<Longrightarrow> c \<notin> set v \<Longrightarrow> u @ c # x = v @ c # y \<longleftrightarrow> u = v \<and> x = y"
  by (auto simp: append_eq_append_conv2 append_eq_Cons_conv Cons_eq_append_conv)

end
