(* ===== verification/Schema.thy ===== *)
theory Schema
  imports Prelude
begin

text \<open>
  The persistent data of the program: the Go structs of \<open>storage/types.go\<close>,
  \<open>storage/document_types.go\<close> and \<open>storage/apikey_store.go\<close> (each is one row of
  its table), the PostgreSQL database they live in (\<open>db/migrations\<close>), and the
  parameters that stand for the database server.
\<close>

section \<open>Rows\<close>

record user =
  user_ID :: uuid
  Email :: string
  PasswordHash :: string
  StorageBytesUsed :: int
  StorageQuotaBytes :: int
  user_CreatedAt :: time

record file_meta =
  file_ID :: uuid
  file_UserID :: uuid
  ObjectKey :: string
  SHA256 :: string
  Size :: int
  ContentType :: string
  RefCount :: int
  OriginalName :: string
  file_CreatedAt :: time
  DeletedAt :: "time option"

datatype document_status = StatusProcessing | StatusReady | StatusFailed

record document =
  doc_ID :: uuid
  doc_UserID :: uuid
  Filename :: string
  OriginalMinioPath :: string
  doc_SHA256 :: string
  Status :: document_status
  TotalPages :: "int option"
  ErrorMessage :: "string option"
  doc_SizeBytes :: int
  doc_CreatedAt :: time
  UpdatedAt :: time

record document_page =
  page_ID :: uuid
  page_DocumentID :: uuid
  PageNumber :: int
  MinioPath :: string
  page_SizeBytes :: int

record webhook_subscription =
  hook_ID :: uuid
  hook_UserID :: uuid
  hook_DocumentID :: uuid
  hook_URL :: string
  hook_Secret :: string
  hook_CreatedAt :: time

record api_key =
  key_ID :: uuid
  key_UserID :: uuid
  key_Name :: string
  KeyHash :: string
  key_Prefix :: string
  LastUsedAt :: "time option"
  key_CreatedAt :: time
  ExpiresAt :: "time option"

section \<open>The database\<close>

record database =
  users :: "user list"
  files :: "file_meta list"
  documents :: "document list"
  document_pages :: "document_page list"
  webhook_subscriptions :: "webhook_subscription list"
  api_keys :: "api_key list"

definition empty_db :: database where
  "empty_db = \<lparr>users = [], files = [], documents = [], document_pages = [],
               webhook_subscriptions = [], api_keys = []\<rparr>"

text \<open>The constraints of the schema: primary keys, the unique columns and the
  foreign keys.\<close>

definition db_constraints :: "database \<Rightarrow> bool" where
  "db_constraints db \<longleftrightarrow>
     distinct (map user_ID (users db)) \<and> distinct (map Email (users db)) \<and>
     distinct (map file_ID (files db)) \<and>
     distinct (map doc_ID (documents db)) \<and>
     distinct (map page_ID (document_pages db)) \<and>
     distinct (map (\<lambda>p. (page_DocumentID p, PageNumber p)) (document_pages db)) \<and>
     distinct (map hook_ID (webhook_subscriptions db)) \<and>
     distinct (map key_ID (api_keys db)) \<and> distinct (map KeyHash (api_keys db)) \<and>
     (\<forall>f \<in> set (files db). file_UserID f \<in> user_ID ` set (users db)) \<and>
     (\<forall>d \<in> set (documents db). doc_UserID d \<in> user_ID ` set (users db)) \<and>
     (\<forall>p \<in> set (document_pages db). page_DocumentID p \<in> doc_ID ` set (documents db)) \<and>
     (\<forall>h \<in> set (webhook_subscriptions db).
        hook_UserID h \<in> user_ID ` set (users db) \<and> hook_DocumentID h \<in> doc_ID ` set (documents db)) \<and>
     (\<forall>k \<in> set (api_keys db). key_UserID k \<in> user_ID ` set (users db))"

section \<open>The database server as parameters\<close>

text \<open>
  One value per statement of the program. A statement can fail for reasons the
  program does not control (a lost connection, a cancelled query, a value the
  server cannot store), which \<open>fault\<close> says, per statement.
\<close>

datatype stmt =
    S_CreateUser | S_GetUserByEmail | S_GetUserByID
  | S_GetByHash | S_GetByID | S_ListByUser
  | S_SaveBegin | S_SaveLockUser | S_SaveFindCanonical | S_SaveIncrRef | S_SaveInsertDup
  | S_SaveInsertNew | S_SaveUpdateUsage | S_SaveCommit
  | S_DelBegin | S_DelFetch | S_DelFindCanon | S_DelHard | S_DelSoft | S_DelDecrRef
  | S_DelUpdateUsage | S_DelCommit
  | S_DocBegin | S_DocInsert | S_DocUpdateUsage | S_DocCommit
  | S_GetDocument | S_GetDocumentByID | S_ListDocuments | S_MarkReady | S_MarkFailed
  | S_SavePage | S_GetPage | S_GetPageRange | S_ListPages
  | S_CreateWebhook | S_GetWebhooks | S_UpdatePath | S_DeleteDocument | S_FailStuck
  | S_KeyCreate | S_KeyGetByHash | S_KeyList | S_KeyDelete | S_KeyTouch

text \<open>Why the server itself rejects a statement.\<close>

datatype pg_cause = UniqueViolation | ForeignKeyViolation | InvalidUuid | OutOfRange | ServerFault

text \<open>
  \<open>uuid_in\<close> is the server's UUID input function: the canonical text of a UUID or
  nothing for a malformed one; ids are compared after it. \<open>gen_uuid s\<close> and
  \<open>now\<close> are what \<open>gen_random_uuid()\<close> and \<open>NOW()\<close> give to the statement,
  \<open>clock\<close> what the Go process reads from \<open>time.Now()\<close>, \<open>scan s\<close> the choice of a
  \<open>LIMIT 1\<close>, and \<open>pg_text\<close> the driver's error messages.
\<close>

record pg =
  uuid_in :: "string \<Rightarrow> uuid option"
  gen_uuid :: uuid
  now :: time
  clock :: time
  fault :: "stmt \<Rightarrow> bool"
  scan :: "stmt \<Rightarrow> nat"
  pg_text :: "pg_cause \<Rightarrow> string"

definition pg_error :: "pg \<Rightarrow> pg_cause \<Rightarrow> go_error" where
  "pg_error p c = Opaque (pg_text p c)"

definition exec :: "pg \<Rightarrow> stmt \<Rightarrow> go_error + 'a \<Rightarrow> go_error + 'a" where
  "exec p s r = (if fault p s then Inl (pg_error p ServerFault) else r)"

text \<open>A UUID parameter of a statement.\<close>

definition uuid_arg :: "pg \<Rightarrow> string \<Rightarrow> (uuid \<Rightarrow> go_error + 'a) \<Rightarrow> go_error + 'a" where
  "uuid_arg p s f = (case uuid_in p s of None \<Rightarrow> Inl (pg_error p InvalidUuid) | Some u \<Rightarrow> f u)"

text \<open>\<open>QueryRow\<close>: the first row of the result or \<open>sql.ErrNoRows\<close>.\<close>

definition query_row :: "'r list \<Rightarrow> go_error + 'r" where
  "query_row rs = (case rs of [] \<Rightarrow> Inl ErrNoRows | r # _ \<Rightarrow> Inr r)"

text \<open>
  The transaction idiom \<open>Beginx; defer Rollback; ...; Commit\<close>: the body works on
  its own version of the database, which becomes the database at a successful
  commit only.
\<close>

definition in_tx ::
  "pg \<Rightarrow> stmt \<Rightarrow> stmt \<Rightarrow> string \<Rightarrow> (database \<Rightarrow> go_error + 'a \<times> database) \<Rightarrow>
     database \<Rightarrow> (go_error + 'a) \<times> database" where
  "in_tx p s_begin s_commit commit_msg body db =
     (case wrapf ''begin tx'' (exec p s_begin (Inr ())) of
        Inl e \<Rightarrow> (Inl e, db)
      | Inr _ \<Rightarrow>
          (case body db of
             Inl e \<Rightarrow> (Inl e, db)
           | Inr (x, db') \<Rightarrow>
               (case wrapf commit_msg (exec p s_commit (Inr ())) of
                  Inl e \<Rightarrow> (Inl e, db)
                | Inr _ \<Rightarrow> (Inr x, db'))))"

text \<open>A statement outside a transaction is its own transaction.\<close>

definition auto_commit ::
  "(database \<Rightarrow> go_error + 'a \<times> database) \<Rightarrow> database \<Rightarrow> (go_error + 'a) \<times> database" where
  "auto_commit body db = (case body db of Inl e \<Rightarrow> (Inl e, db) | Inr (x, db') \<Rightarrow> (Inr x, db'))"

section \<open>Lemmas\<close>

lemma exec_Inr [simp]: "exec p s r = Inr x \<longleftrightarrow> \<not> fault p s \<and> r = Inr x"
  by (simp add: exec_def)

lemma exec_no_fault: "\<not> fault p s \<Longrightarrow> exec p s r = r"
  by (simp add: exec_def)

lemma uuid_arg_Inr [simp]:
  "uuid_arg p s f = Inr x \<longleftrightarrow> (\<exists>u. uuid_in p s = Some u \<and> f u = Inr x)"
  by (simp add: uuid_arg_def split: option.splits)

lemma uuid_arg_Some: "uuid_in p s = Some u \<Longrightarrow> uuid_arg p s f = f u"
  by (simp add: uuid_arg_def)

lemma query_row_Inr [simp]: "query_row rs = Inr r \<longleftrightarrow> (\<exists>rs'. rs = r # rs')"
  by (simp add: query_row_def split: list.splits)

lemma query_row_simps [simp]:
  "query_row [] = Inl ErrNoRows"
  "query_row (r # rs) = Inr r"
  by (simp_all add: query_row_def)

lemma in_tx_error: "in_tx p b c m body db = (Inl e, db') \<Longrightarrow> db' = db"
  by (auto simp: in_tx_def split: sum.splits)

lemma in_tx_success:
  "in_tx p b c m body db = (Inr x, db') \<longleftrightarrow> \<not> fault p b \<and> \<not> fault p c \<and> body db = Inr (x, db')"
  by (auto simp: in_tx_def exec_def split: sum.splits)

lemma auto_commit_error: "auto_commit body db = (Inl e, db') \<Longrightarrow> db' = db"
  by (auto simp: auto_commit_def split: sum.splits)

lemma auto_commit_success: "auto_commit body db = (Inr x, db') \<longleftrightarrow> body db = Inr (x, db')"
  by (auto simp: auto_commit_def split: sum.splits)

lemma filter_key_single:
  "distinct (map k rs) \<Longrightarrow> r \<in> set rs \<Longrightarrow> filter (\<lambda>x. k x = k r) rs = [r]"
proof (induction rs)
  case Nil
  then show ?case by simp
next
  case (Cons a rs)
  then show ?case by (auto simp: filter_empty_conv image_iff)
qed

end
