(* ===== verification/MetadataStore.thy ===== *)
theory MetadataStore
  imports Schema
begin

text \<open>
  The PostgreSQL repository of users and files, \<open>storage/metadata.go\<close>: every
  statement of every method, with the transactions of \<open>Save\<close> and \<open>Delete\<close>.
\<close>

section \<open>User operations\<close>

definition CreateUser ::
  "pg \<Rightarrow> string \<Rightarrow> string \<Rightarrow> int \<Rightarrow> database \<Rightarrow> (go_error + user) \<times> database" where
  "CreateUser p email passwordHash quotaBytes db =
     auto_commit (\<lambda>db. wrapf ''create user'' (exec p S_CreateUser
       (if gen_uuid p \<in> set (map user_ID (users db)) \<or> email \<in> set (map Email (users db))
        then Inl (pg_error p UniqueViolation)
        else let u = \<lparr>user_ID = gen_uuid p, Email = email, PasswordHash = passwordHash,
                      StorageBytesUsed = 0, StorageQuotaBytes = quotaBytes, user_CreatedAt = now p\<rparr>
             in Inr (u, db\<lparr>users := users db @ [u]\<rparr>)))) db"

text \<open>The translation of \<open>sql.ErrNoRows\<close> that the getters share.\<close>

definition no_rows_not_found :: "string \<Rightarrow> go_error + 'a \<Rightarrow> go_error + 'a" where
  "no_rows_not_found msg r =
     (case r of
        Inl e \<Rightarrow> if errors_is e ErrNoRows then Inl ErrNotFound else Inl (Errorf msg e)
      | Inr x \<Rightarrow> Inr x)"

definition GetUserByEmail :: "pg \<Rightarrow> string \<Rightarrow> database \<Rightarrow> go_error + user" where
  "GetUserByEmail p email db =
     no_rows_not_found ''get user by email'' (exec p S_GetUserByEmail
       (query_row (filter (\<lambda>u. Email u = email) (users db))))"

definition GetUserByID :: "pg \<Rightarrow> string \<Rightarrow> database \<Rightarrow> go_error + user" where
  "GetUserByID p i db =
     no_rows_not_found ''get user by id'' (exec p S_GetUserByID
       (uuid_arg p i (\<lambda>i. query_row (filter (\<lambda>u. user_ID u = i) (users db)))))"

section \<open>File queries\<close>

definition active :: "file_meta \<Rightarrow> bool" where
  "active f \<longleftrightarrow> DeletedAt f = None"

text \<open>The rows \<open>WHERE sha256 = $1 AND deleted_at IS NULL\<close>, in heap order.\<close>

definition live :: "database \<Rightarrow> string \<Rightarrow> file_meta list" where
  "live db h = filter (\<lambda>f. SHA256 f = h \<and> active f) (files db)"

definition query_limit1 :: "nat \<Rightarrow> 'r list \<Rightarrow> go_error + 'r" where
  "query_limit1 n rs = (case limit1 n rs of None \<Rightarrow> Inl ErrNoRows | Some r \<Rightarrow> Inr r)"

definition GetByHash :: "pg \<Rightarrow> string \<Rightarrow> database \<Rightarrow> go_error + file_meta" where
  "GetByHash p hash db =
     no_rows_not_found ''get by hash'' (exec p S_GetByHash
       (query_limit1 (scan p S_GetByHash) (live db hash)))"

definition GetByID :: "pg \<Rightarrow> string \<Rightarrow> string \<Rightarrow> database \<Rightarrow> go_error + file_meta" where
  "GetByID p i userID db =
     no_rows_not_found ''get by id'' (exec p S_GetByID
       (uuid_arg p i (\<lambda>i. uuid_arg p userID (\<lambda>u.
          query_row (filter (\<lambda>f. file_ID f = i \<and> file_UserID f = u \<and> active f) (files db))))))"

definition ListByUser :: "pg \<Rightarrow> string \<Rightarrow> database \<Rightarrow> go_error + file_meta list" where
  "ListByUser p userID db =
     wrapf ''list by user'' (exec p S_ListByUser
       (uuid_arg p userID (\<lambda>u.
          Inr (order_desc file_CreatedAt (filter (\<lambda>f. file_UserID f = u \<and> active f) (files db))))))"

section \<open>Save\<close>

record save_result =
  File :: file_meta
  Duplicate :: bool

text \<open>Step 1: \<open>SELECT ... FROM users WHERE id = $1 FOR UPDATE\<close>.\<close>

definition lock_user :: "pg \<Rightarrow> string \<Rightarrow> database \<Rightarrow> go_error + int \<times> int" where
  "lock_user p userID db =
     exec p S_SaveLockUser (uuid_arg p userID (\<lambda>u.
       and_then (query_row (filter (\<lambda>x. user_ID x = u) (users db))) (\<lambda>x.
         Inr (StorageBytesUsed x, StorageQuotaBytes x))))"

text \<open>Step 3: no row is not an error here.\<close>

definition find_canonical :: "pg \<Rightarrow> string \<Rightarrow> database \<Rightarrow> go_error + file_meta option" where
  "find_canonical p sha256Hash db =
     (case exec p S_SaveFindCanonical
             (query_limit1 (scan p S_SaveFindCanonical) (live db sha256Hash)) of
        Inl e \<Rightarrow> if errors_is e ErrNoRows then Inr None else Inl e
      | Inr canon \<Rightarrow> Inr (Some canon))"

definition add_ref :: "int \<Rightarrow> file_meta \<Rightarrow> file_meta" where
  "add_ref d f = f\<lparr>RefCount := RefCount f + d\<rparr>"

text \<open>\<open>UPDATE files SET ref_count = ref_count + d WHERE id = $1\<close> on an INT column.\<close>

definition update_ref :: "pg \<Rightarrow> stmt \<Rightarrow> int \<Rightarrow> uuid \<Rightarrow> database \<Rightarrow> go_error + database" where
  "update_ref p s d i db =
     exec p s
       (if list_all (\<lambda>f. file_ID f = i \<longrightarrow> int4_ok (RefCount f + d)) (files db)
        then Inr (db\<lparr>files := sql_update (\<lambda>f. file_ID f = i) (add_ref d) (files db)\<rparr>)
        else Inl (pg_error p OutOfRange))"

text \<open>\<open>INSERT INTO files ... RETURNING\<close>, with the primary key and the foreign key
  of the schema.\<close>

definition insert_file ::
  "pg \<Rightarrow> stmt \<Rightarrow> string \<Rightarrow> string \<Rightarrow> string \<Rightarrow> int \<Rightarrow> string \<Rightarrow> string \<Rightarrow> database \<Rightarrow>
     go_error + file_meta \<times> database" where
  "insert_file p s userID objectKey sha256Hash sz contentType originalName db =
     exec p s (uuid_arg p userID (\<lambda>u.
       if gen_uuid p \<in> set (map file_ID (files db)) then Inl (pg_error p UniqueViolation)
       else if u \<notin> set (map user_ID (users db)) then Inl (pg_error p ForeignKeyViolation)
       else let f = \<lparr>file_ID = gen_uuid p, file_UserID = u, ObjectKey = objectKey,
                     SHA256 = sha256Hash, Size = sz, ContentType = contentType, RefCount = 1,
                     OriginalName = originalName, file_CreatedAt = now p, DeletedAt = None\<rparr>
            in Inr (f, db\<lparr>files := files db @ [f]\<rparr>)))"

text \<open>\<open>UPDATE users SET storage_bytes_used = clip(storage_bytes_used + d) WHERE
  id = $2\<close> on a BIGINT column.\<close>

definition update_usage ::
  "pg \<Rightarrow> stmt \<Rightarrow> int \<Rightarrow> (int \<Rightarrow> int) \<Rightarrow> string \<Rightarrow> database \<Rightarrow> go_error + database" where
  "update_usage p s d clip userID db =
     exec p s (uuid_arg p userID (\<lambda>u.
       if list_all (\<lambda>x. user_ID x = u \<longrightarrow> int8_ok (StorageBytesUsed x + d)) (users db)
       then Inr (db\<lparr>users := sql_update (\<lambda>x. user_ID x = u)
                     (\<lambda>x. x\<lparr>StorageBytesUsed := clip (StorageBytesUsed x + d)\<rparr>) (users db)\<rparr>)
       else Inl (pg_error p OutOfRange)))"

text \<open>The body of the transaction. The quota test is Go's 64-bit addition.\<close>

definition save_tx ::
  "pg \<Rightarrow> string \<Rightarrow> string \<Rightarrow> string \<Rightarrow> string \<Rightarrow> string \<Rightarrow> int \<Rightarrow> database \<Rightarrow>
     go_error + save_result \<times> database" where
  "save_tx p userID objectKey sha256Hash contentType originalName sz tx =
     and_then (wrapf ''lock user'' (lock_user p userID tx)) (\<lambda>(bytesUsed, quota).
     if quota < int64 (bytesUsed + sz) then Inl ErrQuotaExceeded
     else
       and_then (wrapf ''find canonical'' (find_canonical p sha256Hash tx)) (\<lambda>existing.
       and_then
         (case existing of
            Some canon \<Rightarrow>
              and_then (wrapf ''increment ref_count'' (update_ref p S_SaveIncrRef 1 (file_ID canon) tx)) (\<lambda>tx.
                wrapf ''insert dedup row''
                  (insert_file p S_SaveInsertDup userID (ObjectKey canon) sha256Hash sz contentType originalName tx))
          | None \<Rightarrow>
              wrapf ''insert new file''
                (insert_file p S_SaveInsertNew userID objectKey sha256Hash sz contentType originalName tx))
         (\<lambda>(newFile, tx).
       and_then (wrapf ''update storage usage'' (update_usage p S_SaveUpdateUsage sz (\<lambda>n. n) userID tx)) (\<lambda>tx.
         Inr (\<lparr>File = newFile, Duplicate = (existing \<noteq> None)\<rparr>, tx)))))"

definition Save ::
  "pg \<Rightarrow> string \<Rightarrow> string \<Rightarrow> string \<Rightarrow> string \<Rightarrow> string \<Rightarrow> int \<Rightarrow> database \<Rightarrow>
     (go_error + save_result) \<times> database" where
  "Save p userID objectKey sha256Hash contentType originalName sz db =
     in_tx p S_SaveBegin S_SaveCommit ''commit''
       (save_tx p userID objectKey sha256Hash contentType originalName sz) db"

section \<open>Delete\<close>

record delete_result =
  res_ObjectKey :: string
  ShouldDeleteObject :: bool

definition fetch_file :: "pg \<Rightarrow> string \<Rightarrow> string \<Rightarrow> database \<Rightarrow> go_error + file_meta" where
  "fetch_file p fileID userID db =
     exec p S_DelFetch (uuid_arg p fileID (\<lambda>i. uuid_arg p userID (\<lambda>u.
       query_row (filter (\<lambda>f. file_ID f = i \<and> file_UserID f = u \<and> active f) (files db)))))"

definition find_canon :: "pg \<Rightarrow> string \<Rightarrow> database \<Rightarrow> go_error + uuid \<times> int" where
  "find_canon p h db =
     exec p S_DelFindCanon
       (and_then (query_limit1 (scan p S_DelFindCanon) (live db h)) (\<lambda>c. Inr (file_ID c, RefCount c)))"

definition hard_delete :: "pg \<Rightarrow> uuid \<Rightarrow> database \<Rightarrow> go_error + database" where
  "hard_delete p i db =
     exec p S_DelHard (Inr (db\<lparr>files := sql_delete (\<lambda>f. file_ID f = i) (files db)\<rparr>))"

definition soft_delete :: "pg \<Rightarrow> uuid \<Rightarrow> database \<Rightarrow> go_error + database" where
  "soft_delete p i db =
     exec p S_DelSoft (Inr (db\<lparr>files :=
       sql_update (\<lambda>f. file_ID f = i) (\<lambda>f. f\<lparr>DeletedAt := Some (clock p)\<rparr>) (files db)\<rparr>))"

definition delete_tx ::
  "pg \<Rightarrow> string \<Rightarrow> string \<Rightarrow> database \<Rightarrow> go_error + delete_result \<times> database" where
  "delete_tx p fileID userID tx =
     and_then (no_rows_not_found ''fetch file for delete'' (fetch_file p fileID userID tx)) (\<lambda>f.
     and_then (wrapf ''find canonical for delete'' (find_canon p (SHA256 f) tx)) (\<lambda>(canonID, refCount).
     and_then
       (if refCount \<le> 1
        then
          and_then (wrapf ''hard delete file'' (hard_delete p (file_ID f) tx)) (\<lambda>tx.
            Inr (True, tx))
        else
          and_then (wrapf ''soft delete file'' (soft_delete p (file_ID f) tx)) (\<lambda>tx.
          and_then (wrapf ''decrement ref_count'' (update_ref p S_DelDecrRef (- 1) canonID tx)) (\<lambda>tx.
            Inr (False, tx))))
       (\<lambda>(shouldDelete, tx).
     and_then (wrapf ''update storage usage on delete''
                 (update_usage p S_DelUpdateUsage (- Size f) (max 0) userID tx)) (\<lambda>tx.
       Inr (\<lparr>res_ObjectKey = ObjectKey f, ShouldDeleteObject = shouldDelete\<rparr>, tx)))))"

definition Delete ::
  "pg \<Rightarrow> string \<Rightarrow> string \<Rightarrow> database \<Rightarrow> (go_error + delete_result) \<times> database" where
  "Delete p fileID userID db =
     in_tx p S_DelBegin S_DelCommit ''commit delete'' (delete_tx p fileID userID) db"

end
