(* ===== verification/MetadataEffects.thy ===== *)
theory MetadataEffects
  imports MetadataStore
begin

text \<open>
  What the methods of the metadata store do to the database, as functions from
  database to database, and the lemmas that the methods refine them: every
  property of the store rests on these effects instead of on the statements.
\<close>

section \<open>Abstract effects\<close>

text \<open>Bump or lower the reference count of one row.\<close>

definition ref_row :: "uuid \<Rightarrow> int \<Rightarrow> file_meta list \<Rightarrow> file_meta list" where
  "ref_row i d fs = sql_update (\<lambda>f. file_ID f = i) (add_ref d) fs"

text \<open>Charge a user's quota usage.\<close>

definition charge :: "uuid \<Rightarrow> int \<Rightarrow> user list \<Rightarrow> user list" where
  "charge u d us = sql_update (\<lambda>x. user_ID x = u)
     (\<lambda>x. x\<lparr>StorageBytesUsed := StorageBytesUsed x + d\<rparr>) us"

definition refund :: "uuid \<Rightarrow> int \<Rightarrow> user list \<Rightarrow> user list" where
  "refund u d us = sql_update (\<lambda>x. user_ID x = u)
     (\<lambda>x. x\<lparr>StorageBytesUsed := max 0 (StorageBytesUsed x - d)\<rparr>) us"

definition new_row ::
  "pg \<Rightarrow> uuid \<Rightarrow> string \<Rightarrow> string \<Rightarrow> string \<Rightarrow> string \<Rightarrow> int \<Rightarrow> file_meta" where
  "new_row p u key h ct nm sz =
     \<lparr>file_ID = gen_uuid p, file_UserID = u, ObjectKey = key, SHA256 = h, Size = sz,
      ContentType = ct, RefCount = 1, OriginalName = nm, file_CreatedAt = now p, DeletedAt = None\<rparr>"

text \<open>Saving appends a row; a dedup hit \<open>Some c\<close> also bumps the count of the row
  \<open>c\<close> that was found.\<close>

definition after_save :: "file_meta option \<Rightarrow> file_meta \<Rightarrow> database \<Rightarrow> database" where
  "after_save found f db =
     db\<lparr>users := charge (file_UserID f) (Size f) (users db),
        files := (case found of None \<Rightarrow> files db | Some c \<Rightarrow> ref_row (file_ID c) 1 (files db)) @ [f]\<rparr>"

definition mark_deleted :: "uuid \<Rightarrow> time \<Rightarrow> file_meta list \<Rightarrow> file_meta list" where
  "mark_deleted i t fs = sql_update (\<lambda>f. file_ID f = i) (\<lambda>f. f\<lparr>DeletedAt := Some t\<rparr>) fs"

text \<open>Deleting \<open>f\<close> when the row found for its content is \<open>c\<close>.\<close>

definition after_delete :: "time \<Rightarrow> file_meta \<Rightarrow> file_meta \<Rightarrow> database \<Rightarrow> database" where
  "after_delete t f c db =
     db\<lparr>users := refund (file_UserID f) (Size f) (users db),
        files := (if RefCount c \<le> 1 then sql_delete (\<lambda>x. file_ID x = file_ID f) (files db)
                  else ref_row (file_ID c) (- 1) (mark_deleted (file_ID f) t (files db)))\<rparr>"

lemma add_ref_sel [simp]:
  "file_ID (add_ref d f) = file_ID f" "file_UserID (add_ref d f) = file_UserID f"
  "ObjectKey (add_ref d f) = ObjectKey f" "SHA256 (add_ref d f) = SHA256 f"
  "Size (add_ref d f) = Size f" "active (add_ref d f) = active f"
  "RefCount (add_ref d f) = RefCount f + d"
  by (simp_all add: add_ref_def active_def)

lemma map_ref_row [simp]:
  "(\<And>f. g (add_ref d f) = g f) \<Longrightarrow> map g (ref_row i d fs) = map g fs"
  by (simp add: ref_row_def map_sql_update)

lemma file_ids_ref_row [simp]: "file_ID ` set (ref_row i d fs) = file_ID ` set fs"
  using map_ref_row[of file_ID d i fs] by (metis add_ref_sel(1) set_map)

section \<open>The methods refine the effects\<close>

lemma query_limit1_Inr [simp]: "query_limit1 n rs = Inr r \<longleftrightarrow> limit1 n rs = Some r"
  by (simp add: query_limit1_def split: option.splits)

lemma no_rows_not_found_Inr [simp]: "no_rows_not_found m r = Inr x \<longleftrightarrow> r = Inr x"
  by (cases r) (simp_all add: no_rows_not_found_def)

lemma find_canonical_Inr:
  "find_canonical p h db = Inr found \<Longrightarrow>
     limit1 (scan p S_SaveFindCanonical) (live db h) = found"
  by (cases "limit1 (scan p S_SaveFindCanonical) (live db h)")
     (auto simp: find_canonical_def exec_def query_limit1_def pg_error_def split: if_splits)

lemma lock_user_Inr:
  "lock_user p userID db = Inr (b, q) \<longleftrightarrow>
     \<not> fault p S_SaveLockUser \<and>
     (\<exists>u x xs. uuid_in p userID = Some u \<and> filter (\<lambda>x. user_ID x = u) (users db) = x # xs \<and>
        b = StorageBytesUsed x \<and> q = StorageQuotaBytes x)"
  by (auto simp: lock_user_def)

lemma update_ref_Inr:
  "update_ref p s d i db = Inr db' \<Longrightarrow> db' = db\<lparr>files := ref_row i d (files db)\<rparr>"
  by (auto simp: update_ref_def ref_row_def split: if_splits)

lemma insert_file_Inr:
  "insert_file p s userID key h sz ct nm db = Inr (f, db') \<Longrightarrow>
     \<exists>u. uuid_in p userID = Some u \<and> gen_uuid p \<notin> file_ID ` set (files db) \<and>
         u \<in> user_ID ` set (users db) \<and> f = new_row p u key h ct nm sz \<and>
         db' = db\<lparr>files := files db @ [f]\<rparr>"
  by (auto simp: insert_file_def new_row_def Let_def split: if_splits)

lemma update_usage_Inr:
  "update_usage p s d clip userID db = Inr db' \<longleftrightarrow>
     \<not> fault p s \<and>
     (\<exists>u. uuid_in p userID = Some u \<and>
        (\<forall>x \<in> set (users db). user_ID x = u \<longrightarrow> int8_ok (StorageBytesUsed x + d)) \<and>
        db' = db\<lparr>users := sql_update (\<lambda>x. user_ID x = u)
                  (\<lambda>x. x\<lparr>StorageBytesUsed := clip (StorageBytesUsed x + d)\<rparr>) (users db)\<rparr>)"
  by (auto simp: update_usage_def list_all_iff split: if_splits)

text \<open>A successful \<open>Save\<close>.\<close>

lemma save_tx_Inr:
  assumes "save_tx p userID key h ct nm sz db = Inr (r, db')"
  obtains u x where "uuid_in p userID = Some u" and "x \<in> set (users db)" and "user_ID x = u"
    and "int64 (StorageBytesUsed x + sz) \<le> StorageQuotaBytes x"
    and "\<And>y. y \<in> set (users db) \<Longrightarrow> user_ID y = u \<Longrightarrow> int8_ok (StorageBytesUsed y + sz)"
    and "gen_uuid p \<notin> file_ID ` set (files db)"
    and "Duplicate r \<longleftrightarrow> live db h \<noteq> []"
    and "File r = new_row p u
           (case limit1 (scan p S_SaveFindCanonical) (live db h) of None \<Rightarrow> key | Some c \<Rightarrow> ObjectKey c)
           h ct nm sz"
    and "db' = after_save (limit1 (scan p S_SaveFindCanonical) (live db h)) (File r) db"
proof -
  define found where "found = limit1 (scan p S_SaveFindCanonical) (live db h)"
  from assms obtain b q existing f tx tx2 where
    lock: "lock_user p userID db = Inr (b, q)" and quota: "\<not> q < int64 (b + sz)"
    and canon: "find_canonical p h db = Inr existing"
    and ins: "(case existing of
            Some canon \<Rightarrow>
              and_then (wrapf ''increment ref_count'' (update_ref p S_SaveIncrRef 1 (file_ID canon) db)) (\<lambda>tx.
                wrapf ''insert dedup row''
                  (insert_file p S_SaveInsertDup userID (ObjectKey canon) h sz ct nm tx))
          | None \<Rightarrow> wrapf ''insert new file''
                (insert_file p S_SaveInsertNew userID key h sz ct nm db)) = Inr (f, tx)"
    and usage: "update_usage p S_SaveUpdateUsage sz (\<lambda>n. n) userID tx = Inr tx2"
    and res: "r = \<lparr>File = f, Duplicate = (existing \<noteq> None)\<rparr>" "db' = tx2"
    by (auto simp: save_tx_def split: if_splits)
  have existing: "existing = found"
    using find_canonical_Inr[OF canon] by (simp add: found_def)
  from lock obtain u x xs where u: "uuid_in p userID = Some u"
    and x: "filter (\<lambda>x. user_ID x = u) (users db) = x # xs"
    and bq: "b = StorageBytesUsed x" "q = StorageQuotaBytes x"
    by (auto simp: lock_user_Inr)
  from x have xin: "x \<in> set (users db)" "user_ID x = u"
    by (auto dest: filter_hdD)
  have tx: "users tx = users db"
    "tx = db\<lparr>files := (case found of None \<Rightarrow> files db | Some c \<Rightarrow> ref_row (file_ID c) 1 (files db)) @ [f]\<rparr>"
    "f = new_row p u (case found of None \<Rightarrow> key | Some c \<Rightarrow> ObjectKey c) h ct nm sz"
    "gen_uuid p \<notin> file_ID ` set (files db)"
    using ins u unfolding existing
    by (auto split: option.splits dest!: insert_file_Inr update_ref_Inr)
  from usage u tx(1) have usage: "\<And>y. y \<in> set (users db) \<Longrightarrow> user_ID y = u \<Longrightarrow> int8_ok (StorageBytesUsed y + sz)"
    and tx2: "tx2 = tx\<lparr>users := charge u sz (users db)\<rparr>"
    by (auto simp: update_usage_Inr charge_def)
  show thesis
  proof (rule that[OF u xin])
    show "int64 (StorageBytesUsed x + sz) \<le> StorageQuotaBytes x" using quota bq by simp
    show "Duplicate r \<longleftrightarrow> live db h \<noteq> []" using res existing by (simp add: found_def)
    show "File r = new_row p u
        (case limit1 (scan p S_SaveFindCanonical) (live db h) of None \<Rightarrow> key | Some c \<Rightarrow> ObjectKey c) h ct nm sz"
      using res tx(3) by (simp add: found_def)
    show "db' = after_save (limit1 (scan p S_SaveFindCanonical) (live db h)) (File r) db"
      unfolding found_def[symmetric] using res tx2 tx(2,3) by (simp add: after_save_def new_row_def)
  qed (use usage tx(4) in auto)
qed

lemma Save_tx:
  "Save p userID key h ct nm sz db = (Inr r, db') \<Longrightarrow> save_tx p userID key h ct nm sz db = Inr (r, db')"
  by (simp add: Save_def in_tx_success)

lemmas Save_Inr = save_tx_Inr[OF Save_tx]

text \<open>A successful \<open>Delete\<close>.\<close>

lemma fetch_file_Inr:
  "fetch_file p fileID userID db = Inr f \<Longrightarrow>
     uuid_in p fileID = Some (file_ID f) \<and> uuid_in p userID = Some (file_UserID f) \<and>
     f \<in> set (files db) \<and> active f"
  by (auto simp: fetch_file_def dest!: filter_hdD)

lemma delete_tx_Inr:
  assumes "delete_tx p fileID userID db = Inr (r, db')"
  obtains f c where "uuid_in p fileID = Some (file_ID f)" and "uuid_in p userID = Some (file_UserID f)"
    and "f \<in> set (files db)" and "active f"
    and "limit1 (scan p S_DelFindCanon) (live db (SHA256 f)) = Some c"
    and "res_ObjectKey r = ObjectKey f" and "ShouldDeleteObject r \<longleftrightarrow> RefCount c \<le> 1"
    and "db' = after_delete (clock p) f c db"
proof -
  from assms obtain f i n del tx tx2 where
    f: "fetch_file p fileID userID db = Inr f"
    and c: "find_canon p (SHA256 f) db = Inr (i, n)"
    and body: "(if n \<le> 1
        then and_then (wrapf ''hard delete file'' (hard_delete p (file_ID f) db)) (\<lambda>tx. Inr (True, tx))
        else and_then (wrapf ''soft delete file'' (soft_delete p (file_ID f) db)) (\<lambda>tx.
             and_then (wrapf ''decrement ref_count'' (update_ref p S_DelDecrRef (- 1) i tx)) (\<lambda>tx.
               Inr (False, tx)))) = Inr (del, tx)"
    and usage: "update_usage p S_DelUpdateUsage (- Size f) (max 0) userID tx = Inr tx2"
    and res: "r = \<lparr>res_ObjectKey = ObjectKey f, ShouldDeleteObject = del\<rparr>" "db' = tx2"
    by (auto simp: delete_tx_def)
  from c obtain cf where cf: "limit1 (scan p S_DelFindCanon) (live db (SHA256 f)) = Some cf"
    "i = file_ID cf" "n = RefCount cf"
    by (auto simp: find_canon_def)
  note ff = fetch_file_Inr[OF f]
  have tx: "del \<longleftrightarrow> RefCount cf \<le> 1" "users tx = users db"
    "tx = db\<lparr>files := (if RefCount cf \<le> 1 then sql_delete (\<lambda>x. file_ID x = file_ID f) (files db)
                  else ref_row (file_ID cf) (- 1) (mark_deleted (file_ID f) (clock p) (files db)))\<rparr>"
    using body cf(2,3)
    by (auto simp: hard_delete_def soft_delete_def mark_deleted_def
          split: if_splits dest!: update_ref_Inr)
  have "tx2 = tx\<lparr>users := refund (file_UserID f) (Size f) (users db)\<rparr>"
    using usage ff tx(2) by (auto simp: update_usage_Inr refund_def)
  then have "db' = after_delete (clock p) f cf db"
    using res tx(3) by (simp add: after_delete_def)
  then show thesis using that ff cf(1) res(1) tx(1) by simp
qed

lemma Delete_tx:
  "Delete p fileID userID db = (Inr r, db') \<Longrightarrow> delete_tx p fileID userID db = Inr (r, db')"
  by (simp add: Delete_def in_tx_success)

lemmas Delete_Inr = delete_tx_Inr[OF Delete_tx]

text \<open>A failed operation leaves no trace.\<close>

lemma Save_error: "Save p userID key h ct nm sz db = (Inl e, db') \<Longrightarrow> db' = db"
  unfolding Save_def by (rule in_tx_error)

lemma Delete_error: "Delete p fileID userID db = (Inl e, db') \<Longrightarrow> db' = db"
  unfolding Delete_def by (rule in_tx_error)

lemma CreateUser_error: "CreateUser p email pw q db = (Inl e, db') \<Longrightarrow> db' = db"
  unfolding CreateUser_def by (rule auto_commit_error)

lemma CreateUser_Inr:
  "CreateUser p email pw q db = (Inr u, db') \<longleftrightarrow>
     \<not> fault p S_CreateUser \<and> gen_uuid p \<notin> user_ID ` set (users db) \<and>
     email \<notin> Email ` set (users db) \<and>
     u = \<lparr>user_ID = gen_uuid p, Email = email, PasswordHash = pw, StorageBytesUsed = 0,
          StorageQuotaBytes = q, user_CreatedAt = now p\<rparr> \<and>
     db' = db\<lparr>users := users db @ [u]\<rparr>"
  by (auto simp: CreateUser_def auto_commit_success Let_def split: if_splits)

end
