(* ===== verification/MetadataProps.thy ===== *)
theory MetadataProps
  imports MetadataEffects
begin

text \<open>
  The invariants of the metadata store: the schema's constraints, quota
  accounting, deduplication and reference counting, and the properties of
  \<open>Save\<close> and \<open>Delete\<close> that follow.
\<close>

section \<open>Invariants\<close>

text \<open>The bytes of a user's active files, and of the documents.\<close>

definition live_bytes :: "database \<Rightarrow> uuid \<Rightarrow> int" where
  "live_bytes db u = (\<Sum>f\<leftarrow>files db. if file_UserID f = u \<and> active f then Size f else 0)"

definition doc_bytes :: "database \<Rightarrow> uuid \<Rightarrow> int" where
  "doc_bytes db u = (\<Sum>d\<leftarrow>documents db. if doc_UserID d = u then doc_SizeBytes d else 0)"

definition sizes_ok :: "database \<Rightarrow> bool" where
  "sizes_ok db \<longleftrightarrow> (\<forall>f \<in> set (files db). 0 \<le> Size f) \<and> (\<forall>d \<in> set (documents db). 0 \<le> doc_SizeBytes d)"

text \<open>The recorded usage of every user is exactly what the user stores.\<close>

definition usage_exact :: "database \<Rightarrow> bool" where
  "usage_exact db \<longleftrightarrow>
     (\<forall>x \<in> set (users db). StorageBytesUsed x = live_bytes db (user_ID x) + doc_bytes db (user_ID x))"

definition quota_ok :: "database \<Rightarrow> bool" where
  "quota_ok db \<longleftrightarrow> (\<forall>x \<in> set (users db). StorageBytesUsed x \<le> StorageQuotaBytes x)"

text \<open>All active rows of one content share one object.\<close>

definition one_object :: "database \<Rightarrow> bool" where
  "one_object db \<longleftrightarrow>
     (\<forall>h. \<exists>k. ObjectKey ` set (live db h) \<subseteq> {k})"

text \<open>The reference counting discipline the code means to keep: for every content,
  the canonical row (the first active one) counts the active rows, the others
  count themselves.\<close>

definition ref_list :: "int list \<Rightarrow> bool" where
  "ref_list ns \<longleftrightarrow> ns = [] \<or> (hd ns = int (length ns) \<and> set (tl ns) \<subseteq> {1})"

definition refs_ok :: "database \<Rightarrow> bool" where
  "refs_ok db \<longleftrightarrow> (\<forall>h. ref_list (map RefCount (live db h)))"

definition meta_inv :: "database \<Rightarrow> bool" where
  "meta_inv db \<longleftrightarrow> db_constraints db \<and> sizes_ok db \<and> usage_exact db"

section \<open>Helper lemmas\<close>

lemma sum_list_update_key:
  fixes v :: "'r \<Rightarrow> int"
  assumes "distinct (map k rs)" and "r \<in> set rs"
  shows "(\<Sum>x\<leftarrow>sql_update (\<lambda>x. k x = k r) g rs. v x) = (\<Sum>x\<leftarrow>rs. v x) - v r + v (g r)"
  using assms
proof (induction rs)
  case Nil
  then show ?case by simp
next
  case (Cons a rs)
  show ?case
  proof (cases "a = r")
    case True
    with Cons.prems(1) have "\<And>x. x \<in> set rs \<Longrightarrow> k x \<noteq> k r"
      by (metis distinct.simps(2) imageI list.simps(9) set_map)
    with True show ?thesis by (simp add: sql_update_id)
  next
    case False
    with Cons.prems have "r \<in> set rs" and "k a \<noteq> k r" by auto
    with Cons show ?thesis by simp
  qed
qed

lemma live_in: "f \<in> set (live db h) \<longleftrightarrow> f \<in> set (files db) \<and> SHA256 f = h \<and> active f"
  by (auto simp: live_def)

lemma distinct_live: "distinct (map file_ID (files db)) \<Longrightarrow> distinct (map file_ID (live db h))"
  by (simp add: live_def distinct_map_filter)

lemma ref_row_other: "i \<notin> file_ID ` set fs \<Longrightarrow> ref_row i d fs = fs"
  by (auto simp: ref_row_def intro!: sql_update_id)

lemma live_ref_row:
  "filter (\<lambda>f. SHA256 f = h \<and> active f) (ref_row i d fs)
     = ref_row i d (filter (\<lambda>f. SHA256 f = h \<and> active f) fs)"
  by (simp add: ref_row_def filter_sql_update)

lemma active_deleted [simp]: "\<not> active (f\<lparr>DeletedAt := Some t\<rparr>)"
  by (simp add: active_def)

lemma effect_frames [simp]:
  "users (after_save found f db) = charge (file_UserID f) (Size f) (users db)"
  "documents (after_save found f db) = documents db"
  "users (after_delete t f c db) = refund (file_UserID f) (Size f) (users db)"
  "documents (after_delete t f c db) = documents db"
  by (simp_all add: after_save_def after_delete_def)

lemma live_mark_deleted:
  "filter (\<lambda>f. SHA256 f = h \<and> active f) (mark_deleted i t fs)
     = sql_delete (\<lambda>f. file_ID f = i) (filter (\<lambda>f. SHA256 f = h \<and> active f) fs)"
  by (induction fs) (auto simp: mark_deleted_def sql_delete_def active_def)

lemma live_sql_delete:
  "filter (\<lambda>f. SHA256 f = h \<and> active f) (sql_delete (\<lambda>f. file_ID f = i) fs)
     = sql_delete (\<lambda>f. file_ID f = i) (filter (\<lambda>f. SHA256 f = h \<and> active f) fs)"
  by (induction fs) (auto simp: sql_delete_def)

lemma map_mark_deleted [simp]:
  "(\<And>f. g (f\<lparr>DeletedAt := Some t\<rparr>) = g f) \<Longrightarrow> map g (mark_deleted i t fs) = map g fs"
  by (simp add: mark_deleted_def map_sql_update)

lemma map_charge [simp]:
  "(\<And>x n. g (x\<lparr>StorageBytesUsed := n\<rparr>) = g x) \<Longrightarrow> map g (charge u d us) = map g us"
  "(\<And>x n. g (x\<lparr>StorageBytesUsed := n\<rparr>) = g x) \<Longrightarrow> map g (refund u d us) = map g us"
  by (simp_all add: charge_def refund_def map_sql_update)

lemma user_ids_charge [simp]:
  "user_ID ` set (charge u d us) = user_ID ` set us"
  "user_ID ` set (refund u d us) = user_ID ` set us"
  by (metis map_charge(1) set_map user.ext_inject user.surjective user.update_convs(4))
     (metis map_charge(2) set_map user.ext_inject user.surjective user.update_convs(4))

lemma live_after_save:
  "live (after_save found f db) h =
     (case found of None \<Rightarrow> live db h | Some c \<Rightarrow> ref_row (file_ID c) 1 (live db h))
     @ (if SHA256 f = h \<and> active f then [f] else [])"
  by (simp add: live_def after_save_def live_ref_row split: option.splits)

lemma live_after_delete:
  "live (after_delete t f c db) h =
     (if RefCount c \<le> 1 then sql_delete (\<lambda>x. file_ID x = file_ID f) (live db h)
      else ref_row (file_ID c) (- 1) (sql_delete (\<lambda>x. file_ID x = file_ID f) (live db h)))"
  by (simp add: live_def after_delete_def live_ref_row live_mark_deleted live_sql_delete)

section \<open>Accounting\<close>

lemma live_bytes_ref_row [simp]:
  "(\<Sum>f\<leftarrow>ref_row i d fs. if file_UserID f = u \<and> active f then Size f else 0)
     = (\<Sum>f\<leftarrow>fs. if file_UserID f = u \<and> active f then Size f else 0)"
  by (rule arg_cong[where f = sum_list], rule map_ref_row) simp

lemma live_bytes_after_save:
  "active f \<Longrightarrow> live_bytes (after_save found f db) u
     = live_bytes db u + (if file_UserID f = u then Size f else 0)"
  by (simp add: live_bytes_def after_save_def split: option.splits)

lemma live_bytes_after_delete:
  assumes "distinct (map file_ID (files db))" and "f \<in> set (files db)" and "active f"
  shows "live_bytes (after_delete t f c db) u
     = live_bytes db u - (if file_UserID f = u then Size f else 0)"
  using sum_list_delete_key[OF assms(1,2),
      of "\<lambda>f. if file_UserID f = u \<and> active f then Size f else 0"]
    sum_list_update_key[OF assms(1,2),
      of "\<lambda>f. if file_UserID f = u \<and> active f then Size f else 0" "\<lambda>f. f\<lparr>DeletedAt := Some t\<rparr>"]
    assms(3)
  by (auto simp: live_bytes_def after_delete_def mark_deleted_def)

lemma doc_bytes_frame [simp]:
  "doc_bytes (after_save found f db) u = doc_bytes db u"
  "doc_bytes (after_delete t f c db) u = doc_bytes db u"
  by (simp_all add: doc_bytes_def)

lemma live_bytes_nonneg: "sizes_ok db \<Longrightarrow> 0 \<le> live_bytes db u"
  by (auto simp: live_bytes_def sizes_ok_def intro!: sum_list_nonneg)

lemma doc_bytes_nonneg: "sizes_ok db \<Longrightarrow> 0 \<le> doc_bytes db u"
  by (auto simp: doc_bytes_def sizes_ok_def intro!: sum_list_nonneg)

lemma live_bytes_ge_size:
  assumes "sizes_ok db" and "f \<in> set (files db)" and "active f"
  shows "Size f \<le> live_bytes db (file_UserID f)"
proof -
  define v where "v = (\<lambda>g. if file_UserID g = file_UserID f \<and> active g then Size g else 0)"
  have "v f \<in> set (map v (files db))" unfolding set_map using assms(2) by (rule imageI)
  moreover have "\<And>n. n \<in> set (map v (files db)) \<Longrightarrow> 0 \<le> n"
    using assms(1) by (auto simp: sizes_ok_def v_def)
  ultimately have "v f \<le> sum_list (map v (files db))" by (rule member_le_sum_list)
  with assms(3) show ?thesis by (simp add: live_bytes_def v_def)
qed

lemma usage_exact_after_save:
  assumes "usage_exact db" and "active f"
  shows "usage_exact (after_save found f db)"
proof -
  have "StorageBytesUsed y = live_bytes (after_save found f db) (user_ID y) + doc_bytes db (user_ID y)"
    if "y \<in> set (charge (file_UserID f) (Size f) (users db))" for y
  proof -
    from that obtain x where x: "x \<in> set (users db)"
      "y = (if user_ID x = file_UserID f
            then x\<lparr>StorageBytesUsed := StorageBytesUsed x + Size f\<rparr> else x)"
      by (auto simp: charge_def in_set_sql_update)
    with assms show ?thesis by (auto simp: usage_exact_def live_bytes_after_save)
  qed
  then show ?thesis by (simp add: usage_exact_def)
qed

lemma usage_exact_after_delete:
  assumes "usage_exact db" and "sizes_ok db" and "distinct (map file_ID (files db))"
    and "f \<in> set (files db)" and "active f"
  shows "usage_exact (after_delete t f c db)"
proof -
  have "StorageBytesUsed y = live_bytes (after_delete t f c db) (user_ID y) + doc_bytes db (user_ID y)"
    if "y \<in> set (refund (file_UserID f) (Size f) (users db))" for y
  proof -
    from that obtain x where x: "x \<in> set (users db)"
      "y = (if user_ID x = file_UserID f
            then x\<lparr>StorageBytesUsed := max 0 (StorageBytesUsed x - Size f)\<rparr> else x)"
      by (auto simp: refund_def in_set_sql_update)
    with assms live_bytes_ge_size[OF assms(2,4,5)] doc_bytes_nonneg[OF assms(2), of "file_UserID f"] show ?thesis
      by (auto simp: usage_exact_def live_bytes_after_delete[OF assms(3-5)])
  qed
  then show ?thesis by (simp add: usage_exact_def)
qed

section \<open>The schema's constraints\<close>

lemma constraints_users_files:
  assumes "db_constraints db" and "map user_ID us = map user_ID (users db)"
    and "map Email us = map Email (users db)" and "distinct (map file_ID fs)"
    and "file_UserID ` set fs \<subseteq> user_ID ` set (users db)"
  shows "db_constraints (db\<lparr>users := us, files := fs\<rparr>)"
proof -
  have "user_ID ` set us = user_ID ` set (users db)" using assms(2) by (metis set_map)
  with assms show ?thesis by (simp add: db_constraints_def image_subset_iff)
qed

lemma constraints_owners: "db_constraints db \<Longrightarrow> file_UserID ` set (files db) \<subseteq> user_ID ` set (users db)"
  by (auto simp: db_constraints_def)

lemma constraints_fk:
  assumes "db_constraints db"
  shows "f \<in> set (files db) \<Longrightarrow> file_UserID f \<in> user_ID ` set (users db)"
    and "d \<in> set (documents db) \<Longrightarrow> doc_UserID d \<in> user_ID ` set (users db)"
  using assms by (simp_all add: db_constraints_def)

lemma constraints_file_ids: "db_constraints db \<Longrightarrow> distinct (map file_ID (files db))"
  by (simp add: db_constraints_def)

lemma constraints_user_ids: "db_constraints db \<Longrightarrow> distinct (map user_ID (users db))"
  by (simp add: db_constraints_def)

lemma owners_ref_row [simp]: "file_UserID ` set (ref_row i d fs) = file_UserID ` set fs"
  using map_ref_row[of file_UserID d i fs] by (metis add_ref_sel(2) set_map)

lemma owners_mark_deleted [simp]: "file_UserID ` set (mark_deleted i t fs) = file_UserID ` set fs"
  by (metis (no_types, lifting) file_meta.ext_inject file_meta.surjective
      file_meta.update_convs(10) map_mark_deleted set_map)

lemma constraints_after_save:
  assumes "db_constraints db" and "file_ID f \<notin> file_ID ` set (files db)"
    and "file_UserID f \<in> user_ID ` set (users db)"
  shows "db_constraints (after_save found f db)"
  unfolding after_save_def
proof (rule constraints_users_files[OF assms(1)])
  show "distinct (map file_ID ((case found of None \<Rightarrow> files db | Some c \<Rightarrow> ref_row (file_ID c) 1 (files db)) @ [f]))"
    using assms(2) constraints_file_ids[OF assms(1)] by (auto split: option.splits)
  show "file_UserID ` set ((case found of None \<Rightarrow> files db | Some c \<Rightarrow> ref_row (file_ID c) 1 (files db)) @ [f])
      \<subseteq> user_ID ` set (users db)"
    using assms(3) constraints_owners[OF assms(1)] by (cases found) simp_all
qed simp_all

lemma constraints_after_delete:
  assumes "db_constraints db"
  shows "db_constraints (after_delete t f c db)"
  unfolding after_delete_def
proof (rule constraints_users_files[OF assms])
  show "distinct (map file_ID (if RefCount c \<le> 1 then sql_delete (\<lambda>x. file_ID x = file_ID f) (files db)
                  else ref_row (file_ID c) (- 1) (mark_deleted (file_ID f) t (files db))))"
    using constraints_file_ids[OF assms] by (simp add: distinct_map_sql_delete)
  show "file_UserID ` set (if RefCount c \<le> 1 then sql_delete (\<lambda>x. file_ID x = file_ID f) (files db)
                  else ref_row (file_ID c) (- 1) (mark_deleted (file_ID f) t (files db)))
      \<subseteq> user_ID ` set (users db)"
    using constraints_owners[OF assms] by auto
qed simp_all

lemma sizes_after_save: "sizes_ok db \<Longrightarrow> 0 \<le> Size f \<Longrightarrow> sizes_ok (after_save found f db)"
  by (auto simp: sizes_ok_def after_save_def ref_row_def in_set_sql_update split: option.splits)

lemma sizes_after_delete: "sizes_ok db \<Longrightarrow> sizes_ok (after_delete t f c db)"
  by (auto simp: sizes_ok_def after_delete_def ref_row_def mark_deleted_def in_set_sql_update)

text \<open>Constraints, sizes, exact usage and quotas together, and the two changes that matter.\<close>

definition accounts_ok :: "database \<Rightarrow> bool" where
  "accounts_ok db \<longleftrightarrow> meta_inv db \<and> quota_ok db"

text \<open>The same, but for the quotas of some users.\<close>

definition accounts_but :: "uuid set \<Rightarrow> database \<Rightarrow> bool" where
  "accounts_but us db \<longleftrightarrow> meta_inv db \<and>
     (\<forall>x \<in> set (users db). user_ID x \<in> us \<or> StorageBytesUsed x \<le> StorageQuotaBytes x)"

lemma accounts_but_none: "accounts_but {} db \<longleftrightarrow> accounts_ok db"
  by (simp add: accounts_but_def accounts_ok_def quota_ok_def)

lemma accounts_but_after_save:
  assumes "accounts_but us db" and "x \<in> set (users db)" and "user_ID x = file_UserID f"
    and "StorageBytesUsed x + Size f \<le> StorageQuotaBytes x"
    and "file_ID f \<notin> file_ID ` set (files db)" and "active f" and "0 \<le> Size f"
  shows "accounts_but us (after_save found f db)"
proof -
  have m: "db_constraints db" "sizes_ok db" "usage_exact db"
      "\<forall>x \<in> set (users db). user_ID x \<in> us \<or> StorageBytesUsed x \<le> StorageQuotaBytes x"
    using assms(1) by (simp_all add: accounts_but_def meta_inv_def)
  have "y = x" if "y \<in> set (users db)" "user_ID y = file_UserID f" for y
    using unique_row[OF constraints_user_ids[OF m(1)] that(1) assms(2)] that(2) assms(3) by simp
  with m(4) assms(4) have "\<forall>x \<in> set (users (after_save found f db)). user_ID x \<in> us \<or> StorageBytesUsed x \<le> StorageQuotaBytes x"
    by (fastforce simp: charge_def in_set_sql_update)
  moreover have "file_UserID f \<in> user_ID ` set (users db)" using assms(2,3) by (metis image_eqI)
  ultimately show ?thesis
    using assms m by (simp add: accounts_but_def meta_inv_def constraints_after_save sizes_after_save usage_exact_after_save)
qed

lemma accounts_but_after_delete:
  assumes "accounts_but us db" and "f \<in> set (files db)" and "active f"
  shows "accounts_but us (after_delete t f c db)"
proof -
  have m: "db_constraints db" "sizes_ok db" "usage_exact db"
      "\<forall>x \<in> set (users db). user_ID x \<in> us \<or> StorageBytesUsed x \<le> StorageQuotaBytes x"
    using assms(1) by (simp_all add: accounts_but_def meta_inv_def)
  have "0 \<le> Size f" using m(2) assms(2) by (simp add: sizes_ok_def)
  moreover have "0 \<le> StorageBytesUsed x" if "x \<in> set (users db)" for x
    using m(3) that live_bytes_nonneg[OF m(2), of "user_ID x"] doc_bytes_nonneg[OF m(2), of "user_ID x"]
    by (simp add: usage_exact_def)
  ultimately have "\<forall>x \<in> set (users (after_delete t f c db)). user_ID x \<in> us \<or> StorageBytesUsed x \<le> StorageQuotaBytes x"
    using m(4) by (force simp: refund_def in_set_sql_update)
  with m show ?thesis
    using usage_exact_after_delete[OF m(3,2) constraints_file_ids[OF m(1)] assms(2,3)]
    by (simp add: accounts_but_def meta_inv_def constraints_after_delete sizes_after_delete)
qed

lemmas accounts_after_save = accounts_but_after_save[where us = "{}", unfolded accounts_but_none]
lemmas accounts_after_delete = accounts_but_after_delete[where us = "{}", unfolded accounts_but_none]

section \<open>Deduplication\<close>

lemma keys_ref_row [simp]: "ObjectKey ` set (ref_row i d fs) = ObjectKey ` set fs"
  using map_ref_row[of ObjectKey d i fs] by (metis add_ref_sel(3) set_map)

lemma key_ref_row: "x \<in> set (ref_row i d fs) \<Longrightarrow> ObjectKey x \<in> ObjectKey ` set fs"
  by (metis imageI keys_ref_row)

lemma one_object_after_save:
  assumes "one_object db" and "found = limit1 n (live db (SHA256 f))"
    and "\<And>c. found = Some c \<Longrightarrow> ObjectKey f = ObjectKey c"
  shows "one_object (after_save found f db)"
proof -
  have "\<exists>k. ObjectKey ` set (live (after_save found f db) h) \<subseteq> {k}" for h
  proof (cases found)
    case None
    then have "live db (SHA256 f) = []" using assms(2) limit1_None by metis
    with assms(1) None show ?thesis
      by (cases "h = SHA256 f")
         (auto simp: live_after_save one_object_def intro: exI[of _ "ObjectKey f"])
  next
    case (Some c)
    then have c: "c \<in> set (live db (SHA256 f))" using assms(2) limit1_in by metis
    have "ObjectKey ` set (live (after_save found f db) h) \<subseteq> ObjectKey ` set (live db h)"
      using c assms(3)[OF Some] Some by (auto simp: live_after_save dest: key_ref_row)
    with assms(1) show ?thesis unfolding one_object_def by (meson order_trans)
  qed
  then show ?thesis by (simp add: one_object_def)
qed

lemma one_object_after_delete:
  assumes "one_object db"
  shows "one_object (after_delete t f c db)"
proof -
  have "ObjectKey ` set (live (after_delete t f c db) h) \<subseteq> ObjectKey ` set (live db h)" for h
    by (auto simp: live_after_delete)
  with assms show ?thesis unfolding one_object_def by (meson order_trans)
qed

section \<open>Reference counts\<close>

lemma length_sql_delete_key:
  assumes "distinct (map k rs)" and "r \<in> set rs"
  shows "length (sql_delete (\<lambda>x. k x = k r) rs) = length rs - 1"
  using sum_list_delete_key[OF assms, of "\<lambda>_. 1"] length_pos_if_in_set[OF assms(2)]
  by (simp add: sum_list_triv)

lemma ref_list_Cons: "ref_list (n # ns) \<longleftrightarrow> n = 1 + int (length ns) \<and> set ns \<subseteq> {1}"
  by (auto simp: ref_list_def)

lemma ref_list_Nil [simp]: "ref_list []"
  by (simp add: ref_list_def)

lemma ref_row_hd:
  "distinct (map file_ID (c # cs)) \<Longrightarrow> ref_row (file_ID c) d (c # cs) = add_ref d c # cs"
  by (simp add: ref_row_def) (metis image_eqI ref_row_def ref_row_other)

lemma distinct_map_Cons_ne:
  "distinct (map k (c # cs)) \<Longrightarrow> x \<in> set cs \<Longrightarrow> k x \<noteq> k c"
  by (metis distinct.simps(2) imageI list.simps(9) set_map)

lemma sql_delete_hd:
  "distinct (map file_ID (c # cs)) \<Longrightarrow> sql_delete (\<lambda>x. file_ID x = file_ID c) (c # cs) = cs"
  using distinct_map_Cons_ne[of file_ID c cs] by (simp add: sql_delete_def filter_id_conv)

lemma sql_delete_not_hd:
  "file_ID c \<noteq> file_ID f \<Longrightarrow>
     sql_delete (\<lambda>x. file_ID x = file_ID f) (c # cs) = c # sql_delete (\<lambda>x. file_ID x = file_ID f) cs"
  by (simp add: sql_delete_def)

lemma ref_list_save:
  assumes "ref_list (map RefCount L)" and "distinct (map file_ID L)" and "RefCount f = 1"
  shows "ref_list (map RefCount ((case limit1 0 L of None \<Rightarrow> L | Some c \<Rightarrow> ref_row (file_ID c) 1 L) @ [f]))"
proof (cases L)
  case Nil
  with assms(3) show ?thesis by (simp add: ref_list_Cons)
next
  case (Cons c cs)
  with assms show ?thesis by (simp add: limit1_0 ref_row_hd[simplified] ref_list_Cons)
qed

text \<open>Deleting \<open>f\<close> keeps the discipline of its content's rows, except that the
  first of three or more rows may not go.\<close>

lemma ref_list_delete:
  assumes "ref_list (map RefCount L)" and "distinct (map file_ID L)" and "f \<in> set L"
    and "f = hd L \<Longrightarrow> length L \<le> 2"
  shows "ref_list (map RefCount
     (if RefCount (hd L) \<le> 1 then sql_delete (\<lambda>x. file_ID x = file_ID f) L
      else ref_row (file_ID (hd L)) (- 1) (sql_delete (\<lambda>x. file_ID x = file_ID f) L)))"
proof (cases L)
  case Nil
  with assms(3) show ?thesis by simp
next
  case (Cons c cs)
  with assms(1) have cnt: "RefCount c = 1 + int (length cs)" and ones: "RefCount ` set cs \<subseteq> {1}"
    by (simp_all add: ref_list_Cons)
  show ?thesis
  proof (cases "f = c")
    case True
    with assms(4) Cons have "length cs \<le> 1" by simp
    with True Cons assms(2) ones show ?thesis
      by (cases cs) (auto simp: sql_delete_hd[simplified] ref_row_other ref_list_Cons)
  next
    case False
    with assms(3) Cons have fin: "f \<in> set cs" by simp
    with False assms(2) Cons have ne: "file_ID c \<noteq> file_ID f" by (auto simp: image_iff)
    define ds where "ds = sql_delete (\<lambda>x. file_ID x = file_ID f) cs"
    have len: "length ds = length cs - 1" and pos: "0 < length cs"
      using length_sql_delete_key[of file_ID cs f] assms(2) fin Cons by (auto simp: ds_def)
    have "distinct (map file_ID (c # ds))"
      using assms(2) Cons by (auto simp: ds_def distinct_map_sql_delete)
    then have "ref_row (file_ID c) (- 1) (c # ds) = add_ref (- 1) c # ds" by (rule ref_row_hd)
    moreover have "RefCount ` set ds \<subseteq> {1}" using ones by (auto simp: ds_def)
    moreover have "int (length ds) = int (length cs) - 1" using len pos by (cases cs) simp_all
    ultimately show ?thesis
      using Cons cnt pos ne by (simp add: sql_delete_not_hd ds_def[symmetric] ref_list_Cons)
  qed
qed

lemma ref_row_other_content:
  assumes "db_constraints db" and "c \<in> set (live db h)" and "h' \<noteq> h"
  shows "ref_row (file_ID c) d (live db h') = live db h'"
proof (rule ref_row_other, rule notI)
  assume "file_ID c \<in> file_ID ` set (live db h')"
  then obtain g where g: "g \<in> set (live db h')" "file_ID c = file_ID g" by blast
  have "c = g"
    using unique_row[OF constraints_file_ids[OF assms(1)] _ _ g(2)] g(1) assms(2)
    by (simp add: live_in)
  with g(1) assms(2,3) show False by (simp add: live_in)
qed

lemma refs_ok_after_save:
  assumes "refs_ok db" and "db_constraints db" and "RefCount f = 1" and "active f"
  shows "refs_ok (after_save (limit1 0 (live db (SHA256 f))) f db)"
proof -
  have "ref_list (map RefCount (live (after_save (limit1 0 (live db (SHA256 f))) f db) h))" for h
  proof (cases "h = SHA256 f")
    case True
    have "ref_list (map RefCount ((case limit1 0 (live db h) of None \<Rightarrow> live db h
            | Some c \<Rightarrow> ref_row (file_ID c) 1 (live db h)) @ [f]))"
      using assms(1) distinct_live[OF constraints_file_ids[OF assms(2)]] assms(3)
      by (intro ref_list_save) (simp_all add: refs_ok_def)
    with True assms(4) show ?thesis by (simp only: live_after_save) simp
  next
    case False
    then show ?thesis
      using ref_row_other_content[OF assms(2) limit1_in False] assms(1)
      by (auto simp: live_after_save refs_ok_def split: option.splits)
  qed
  then show ?thesis by (simp add: refs_ok_def)
qed

lemma refs_ok_after_delete:
  assumes "refs_ok db" and "db_constraints db" and "f \<in> set (files db)" and "active f"
    and "f = hd (live db (SHA256 f)) \<Longrightarrow> length (live db (SHA256 f)) \<le> 2"
  shows "refs_ok (after_delete t f (hd (live db (SHA256 f))) db)"
proof -
  define L where "L = live db (SHA256 f)"
  have fL: "f \<in> set L" using assms(3,4) by (simp add: L_def live_in)
  then have cL: "hd L \<in> set L" by (cases L) auto
  have "ref_list (map RefCount (live (after_delete t f (hd L) db) h))" for h
  proof (cases "h = SHA256 f")
    case True
    have "live db h = L" using True by (simp add: L_def)
    moreover have "f = hd L \<Longrightarrow> length L \<le> 2" using assms(5) by (simp add: L_def)
    moreover have "ref_list (map RefCount L)" using assms(1) by (simp add: refs_ok_def L_def)
    moreover have "distinct (map file_ID L)"
      using distinct_live[OF constraints_file_ids[OF assms(2)]] by (simp add: L_def)
    ultimately show ?thesis
      using ref_list_delete[of L f] fL by (auto simp: live_after_delete split: if_splits)
  next
    case False
    have same: "sql_delete (\<lambda>x. file_ID x = file_ID f) (live db h) = live db h"
    proof (intro sql_delete_id notI)
      fix g assume g: "g \<in> set (live db h)" "file_ID g = file_ID f"
      have "g = f"
        using unique_row[OF constraints_file_ids[OF assms(2)] _ assms(3) g(2)] g(1)
        by (simp add: live_in)
      with g(1) False show "False" by (simp add: live_in)
    qed
    with False show ?thesis
      using ref_row_other_content[OF assms(2) cL[unfolded L_def] False] assms(1)
      by (simp add: live_after_delete refs_ok_def L_def)
  qed
  then show ?thesis by (simp add: refs_ok_def L_def)
qed

end
