(* ===== verification/MetadataClaims.thy ===== *)
theory MetadataClaims
  imports MetadataProps
begin

text \<open>
  The properties of the metadata store: the invariant of every reachable
  database, quotas, deduplication, the reference counts and where they go
  wrong, atomicity, and the separation of tenants.
\<close>

section \<open>A server for the examples\<close>

text \<open>A server that accepts every text as a UUID, never fails, and scans from the
  first row; \<open>i\<close> is the id it generates and \<open>t\<close> the time.\<close>

definition demo_pg :: "uuid \<Rightarrow> time \<Rightarrow> pg" where
  "demo_pg i t = \<lparr>uuid_in = Some, gen_uuid = i, now = t, clock = t, fault = (\<lambda>_. False),
     scan = (\<lambda>_. 0), pg_text = (\<lambda>_. ''pq: error'')\<rparr>"

lemma demo_pg_sel [simp]:
  "uuid_in (demo_pg i t) = Some" "gen_uuid (demo_pg i t) = i" "now (demo_pg i t) = t"
  "clock (demo_pg i t) = t" "fault (demo_pg i t) s = False" "scan (demo_pg i t) s = 0"
  by (simp_all add: demo_pg_def)

definition demo_user :: "uuid \<Rightarrow> int \<Rightarrow> int \<Rightarrow> user" where
  "demo_user i used quota = \<lparr>user_ID = i, Email = i @ ''@example.com'', PasswordHash = ''h'',
     StorageBytesUsed = used, StorageQuotaBytes = quota, user_CreatedAt = 0\<rparr>"

definition demo_file :: "uuid \<Rightarrow> uuid \<Rightarrow> int \<Rightarrow> file_meta" where
  "demo_file i u n = \<lparr>file_ID = i, file_UserID = u, ObjectKey = ''k'', SHA256 = ''aa'', Size = 5,
     ContentType = ''text/plain'', RefCount = n, OriginalName = ''a.txt'', file_CreatedAt = 0,
     DeletedAt = None\<rparr>"

text \<open>Three users share one content of five bytes.\<close>

definition demo_db :: database where
  "demo_db = empty_db\<lparr>users := [demo_user ''u1'' 5 100, demo_user ''u2'' 5 100, demo_user ''u3'' 5 100],
     files := [demo_file ''f1'' ''u1'' 3, demo_file ''f2'' ''u2'' 1, demo_file ''f3'' ''u3'' 1]\<rparr>"

lemmas demo_defs = demo_db_def empty_db_def demo_user_def demo_file_def

lemmas Save_defs = Save_def save_tx_def in_tx_def exec_def lock_user_def find_canonical_def
  update_ref_def insert_file_def update_usage_def uuid_arg_def query_limit1_def live_def active_def

lemmas Delete_defs = Delete_def delete_tx_def in_tx_def exec_def fetch_file_def find_canon_def
  hard_delete_def soft_delete_def update_ref_def update_usage_def uuid_arg_def query_limit1_def
  live_def active_def no_rows_not_found_def

section \<open>The invariant\<close>

text \<open>Any sequence of registrations, uploads and deletions, on any servers, with any
  failures.\<close>

inductive meta_step :: "database \<Rightarrow> database \<Rightarrow> bool" where
  create: "0 \<le> q \<Longrightarrow> CreateUser p email pw q db = (r, db') \<Longrightarrow> meta_step db db'"
| save: "0 \<le> sz \<Longrightarrow> Save p userID key h ct nm sz db = (r, db') \<Longrightarrow> meta_step db db'"
| delete: "Delete p fileID userID db = (r, db') \<Longrightarrow> meta_step db db'"

inductive meta_reachable :: "database \<Rightarrow> bool" where
  start: "meta_reachable empty_db"
| step: "meta_reachable db \<Longrightarrow> meta_step db db' \<Longrightarrow> meta_reachable db'"

definition full_inv :: "database \<Rightarrow> bool" where
  "full_inv db \<longleftrightarrow> meta_inv db \<and> quota_ok db \<and> one_object db"

lemma full_inv_empty: "full_inv empty_db"
  by (simp add: full_inv_def meta_inv_def db_constraints_def sizes_ok_def usage_exact_def
      quota_ok_def one_object_def empty_db_def live_def)

lemma full_inv_create:
  assumes inv: "full_inv db" and q: "0 \<le> q" and run: "CreateUser p email pw q db = (r, db')"
  shows "full_inv db'"
proof (cases r)
  case (Inl e)
  with run inv show ?thesis using CreateUser_error by blast
next
  case (Inr u)
  with run have fresh: "gen_uuid p \<notin> user_ID ` set (users db)" "email \<notin> Email ` set (users db)"
    and u: "u = \<lparr>user_ID = gen_uuid p, Email = email, PasswordHash = pw, StorageBytesUsed = 0,
          StorageQuotaBytes = q, user_CreatedAt = now p\<rparr>"
    and db': "db' = db\<lparr>users := users db @ [u]\<rparr>"
    by (simp_all add: CreateUser_Inr)
  have c: "db_constraints db" using inv by (simp add: full_inv_def meta_inv_def)
  have "\<forall>f \<in> set (files db). file_UserID f \<noteq> gen_uuid p"
    and "\<forall>d \<in> set (documents db). doc_UserID d \<noteq> gen_uuid p"
    using constraints_fk[OF c] fresh(1) by metis+
  then have "live_bytes db (gen_uuid p) = 0" and "doc_bytes db (gen_uuid p) = 0"
    by (simp_all add: live_bytes_def doc_bytes_def sum_list_0 cong: map_cong)
  then have "usage_exact db'"
    using inv u by (auto simp: full_inv_def meta_inv_def usage_exact_def db' live_bytes_def doc_bytes_def)
  moreover have "db_constraints db'"
    using c fresh u by (auto simp: db_constraints_def db')
  ultimately show ?thesis
    using inv q u
    by (auto simp: full_inv_def meta_inv_def sizes_ok_def quota_ok_def one_object_def live_def db')
qed

lemma full_inv_save:
  assumes inv: "full_inv db" and sz: "0 \<le> sz" and run: "Save p userID key h ct nm sz db = (r, db')"
  shows "full_inv db'"
proof (cases r)
  case (Inl e)
  with run inv show ?thesis using Save_error by blast
next
  case (Inr res)
  with run have "Save p userID key h ct nm sz db = (Inr res, db')" by simp
  then obtain u x where u: "x \<in> set (users db)" "user_ID x = u"
    and quota: "int64 (StorageBytesUsed x + sz) \<le> StorageQuotaBytes x"
    and range: "\<And>y. y \<in> set (users db) \<Longrightarrow> user_ID y = u \<Longrightarrow> int8_ok (StorageBytesUsed y + sz)"
    and fresh: "gen_uuid p \<notin> file_ID ` set (files db)"
    and f: "File res = new_row p u
           (case limit1 (scan p S_SaveFindCanonical) (live db h) of None \<Rightarrow> key | Some c \<Rightarrow> ObjectKey c)
           h ct nm sz"
    and db': "db' = after_save (limit1 (scan p S_SaveFindCanonical) (live db h)) (File res) db"
    by (rule Save_Inr) blast
  have sel: "file_ID (File res) = gen_uuid p" "file_UserID (File res) = u" "Size (File res) = sz"
    "active (File res)" "SHA256 (File res) = h"
    by (simp_all add: f new_row_def active_def)
  have "accounts_ok db" and o: "one_object db" using inv by (simp_all add: full_inv_def accounts_ok_def)
  moreover have "StorageBytesUsed x + sz \<le> StorageQuotaBytes x" using quota range[OF u] by simp
  ultimately have "accounts_ok db'"
    unfolding db' using u sz fresh sel by (intro accounts_after_save) auto
  moreover have "one_object db'"
    unfolding db' using o sel by (rule_tac n = "scan p S_SaveFindCanonical" in one_object_after_save)
      (simp_all add: f new_row_def)
  ultimately show ?thesis by (simp add: full_inv_def accounts_ok_def)
qed

lemma full_inv_delete:
  assumes inv: "full_inv db" and run: "Delete p fileID userID db = (r, db')"
  shows "full_inv db'"
proof (cases r)
  case (Inl e)
  with run inv show ?thesis using Delete_error by blast
next
  case (Inr res)
  with run have "Delete p fileID userID db = (Inr res, db')" by simp
  then obtain f c where f: "f \<in> set (files db)" "active f"
    and db': "db' = after_delete (clock p) f c db"
    by (rule Delete_Inr) blast
  have "accounts_ok db" and "one_object db" using inv by (simp_all add: full_inv_def accounts_ok_def)
  with f show ?thesis
    using accounts_after_delete one_object_after_delete by (simp add: full_inv_def accounts_ok_def db')
qed

lemma full_inv_step: "meta_step db db' \<Longrightarrow> full_inv db \<Longrightarrow> full_inv db'"
  by (induction rule: meta_step.induct) (blast intro: full_inv_create full_inv_save full_inv_delete)+

lemma meta_reachable_inv: "meta_reachable db \<Longrightarrow> full_inv db"
  by (induction rule: meta_reachable.induct) (blast intro: full_inv_empty full_inv_step)+

text \<open>C18: In every database that registrations, uploads of files and deletions of files can reach
  that run one after another, whatever fails on the way, with quotas of new users that are
  not negative: the schema's constraints hold, the
  recorded usage of each user is exactly the bytes of the user's active files, no user is
  over quota, and all active rows of one content share one object. (Uploads of documents
  ignore quotas, and uploads that overlap can give one content two objects.)\<close>

theorem metadata_invariant:
  assumes "meta_reachable db"
  shows "db_constraints db \<and> usage_exact db \<and> quota_ok db \<and> one_object db"
  using meta_reachable_inv[OF assms] by (simp add: full_inv_def meta_inv_def)

definition demo_run :: database where
  "demo_run =
     snd (Delete (demo_pg ''x'' 4) ''f1'' ''u1''
     (snd (Save (demo_pg ''f2'' 3) ''u1'' ''k2'' ''aa'' ''ct'' ''b'' 5
     (snd (Save (demo_pg ''f1'' 2) ''u1'' ''k1'' ''aa'' ''ct'' ''a'' 5
     (snd (CreateUser (demo_pg ''u1'' 1) ''a@b.c'' ''h'' 12 empty_db)))))))"

lemma demo_run_reachable: "meta_reachable demo_run"
  unfolding demo_run_def
  by (intro meta_reachable.step[OF _ meta_step.delete[OF surjective_pairing]]
      meta_reachable.step[OF _ meta_step.save[OF _ surjective_pairing]]
      meta_reachable.step[OF _ meta_step.create[OF _ surjective_pairing]] meta_reachable.start)
     simp_all

theorem metadata_invariant_witness:
  "length (files demo_run) = 2 \<and> map StorageBytesUsed (users demo_run) = [5] \<and>
   db_constraints demo_run \<and> usage_exact demo_run \<and> quota_ok demo_run \<and> one_object demo_run"
proof -
  have "length (files demo_run) = 2" and "map StorageBytesUsed (users demo_run) = [5]"
    by code_simp+
  then show ?thesis using metadata_invariant[OF demo_run_reachable] by simp
qed

section \<open>Quotas\<close>

text \<open>A successful upload fits the quota: the user's usage grows by exactly the
  file's size, without overflow of the 64-bit columns, and does not pass the
  quota, even where Go's 64-bit test itself would wrap around.\<close>

theorem Save_within_quota:
  assumes "db_constraints db" and "Save p userID key h ct nm sz db = (Inr r, db')"
  shows "\<exists>x \<in> set (users db). uuid_in p userID = Some (user_ID x) \<and>
     int8_ok (StorageBytesUsed x + sz) \<and> StorageBytesUsed x + sz \<le> StorageQuotaBytes x \<and>
     users db' = map (\<lambda>y. if y = x then x\<lparr>StorageBytesUsed := StorageBytesUsed x + sz\<rparr> else y) (users db)"
proof -
  from assms(2) obtain u x where u: "uuid_in p userID = Some u" and x: "x \<in> set (users db)" "user_ID x = u"
    and quota: "int64 (StorageBytesUsed x + sz) \<le> StorageQuotaBytes x"
    and range: "\<And>y. y \<in> set (users db) \<Longrightarrow> user_ID y = u \<Longrightarrow> int8_ok (StorageBytesUsed y + sz)"
    and f: "File r = new_row p u
           (case limit1 (scan p S_SaveFindCanonical) (live db h) of None \<Rightarrow> key | Some c \<Rightarrow> ObjectKey c)
           h ct nm sz"
    and db': "db' = after_save (limit1 (scan p S_SaveFindCanonical) (live db h)) (File r) db"
    by (rule Save_Inr) blast
  have "user_ID y = u \<longleftrightarrow> y = x" if "y \<in> set (users db)" for y
    using unique_row[OF constraints_user_ids[OF assms(1)] that x(1)] x(2) by auto
  then have "users db' = map (\<lambda>y. if y = x then x\<lparr>StorageBytesUsed := StorageBytesUsed x + sz\<rparr> else y) (users db)"
    by (simp add: db' charge_def sql_update_def f new_row_def)
  then show ?thesis using u x quota range[OF x] by (intro bexI[of _ x]) simp_all
qed

lemma demo_db_constraints: "db_constraints demo_db"
  by (simp add: db_constraints_def demo_defs)

theorem Save_within_quota_witness:
  "fst (Save (demo_pg ''f9'' 7) ''u1'' ''k9'' ''bb'' ''ct'' ''n'' 95 demo_db) \<noteq> Inl ErrQuotaExceeded \<and>
   map StorageBytesUsed (users (snd (Save (demo_pg ''f9'' 7) ''u1'' ''k9'' ''bb'' ''ct'' ''n'' 95 demo_db))) = [100, 5, 5] \<and>
   (\<exists>x \<in> set (users demo_db). StorageBytesUsed x + 95 \<le> StorageQuotaBytes x)"
proof -
  have ok: "Save (demo_pg ''f9'' 7) ''u1'' ''k9'' ''bb'' ''ct'' ''n'' 95 demo_db
      = (Inr \<lparr>File = \<lparr>file_ID = ''f9'', file_UserID = ''u1'', ObjectKey = ''k9'', SHA256 = ''bb'', Size = 95,
     ContentType = ''ct'', RefCount = 1, OriginalName = ''n'', file_CreatedAt = 7,
     DeletedAt = None\<rparr>, Duplicate = False\<rparr>, snd (Save (demo_pg ''f9'' 7) ''u1'' ''k9'' ''bb'' ''ct'' ''n'' 95 demo_db))"
    by code_simp
  have "map StorageBytesUsed (users (snd (Save (demo_pg ''f9'' 7) ''u1'' ''k9'' ''bb'' ''ct'' ''n'' 95 demo_db))) = [100, 5, 5]"
    by code_simp
  with Save_within_quota[OF demo_db_constraints ok] ok show ?thesis by (auto dest: arg_cong[where f = fst])
qed

text \<open>An upload that would pass the quota is refused with the quota error and
  changes nothing, and the refusal does not depend on the content.\<close>

theorem Save_over_quota:
  assumes "db_constraints db" and "x \<in> set (users db)" and "uuid_in p userID = Some (user_ID x)"
    and "\<not> fault p S_SaveBegin" and "\<not> fault p S_SaveLockUser"
    and "int8_ok (StorageBytesUsed x + sz)" and "StorageQuotaBytes x < StorageBytesUsed x + sz"
  shows "Save p userID key h ct nm sz db = (Inl ErrQuotaExceeded, db)"
proof -
  have "filter (\<lambda>y. user_ID y = user_ID x) (users db) = [x]"
    using filter_key_single[OF constraints_user_ids[OF assms(1)] assms(2)] .
  with assms show ?thesis
    by (simp add: Save_def in_tx_def exec_no_fault save_tx_def lock_user_def uuid_arg_Some)
qed

theorem Save_over_quota_witness:
  "Save (demo_pg ''f9'' 7) ''u1'' ''k9'' ''bb'' ''ct'' ''n'' 96 demo_db = (Inl ErrQuotaExceeded, demo_db)"
  by (rule Save_over_quota[OF demo_db_constraints, of "demo_user ''u1'' 5 100"])
     (simp_all add: demo_defs int8_ok_def)

lemma error_state:
  "(\<And>s'. r = (Inl e, s') \<Longrightarrow> s' = s) \<Longrightarrow> fst r = Inl e \<Longrightarrow> snd r = s"
  by (cases r) simp

text \<open>Transactions are atomic: a registration, an upload or a deletion that
  returns an error, at whatever statement, leaves the database as it was.\<close>

theorem metadata_atomic:
  "(fst (CreateUser p email pw q db) = Inl e1 \<longrightarrow> snd (CreateUser p email pw q db) = db) \<and>
   (fst (Save p userID key h ct nm sz db) = Inl e2 \<longrightarrow> snd (Save p userID key h ct nm sz db) = db) \<and>
   (fst (Delete p fileID userID db) = Inl e3 \<longrightarrow> snd (Delete p fileID userID db) = db)"
proof (intro conjI impI)
  assume "fst (CreateUser p email pw q db) = Inl e1"
  then show "snd (CreateUser p email pw q db) = db"
    by (rule error_state[OF CreateUser_error, rotated])
next
  assume "fst (Save p userID key h ct nm sz db) = Inl e2"
  then show "snd (Save p userID key h ct nm sz db) = db"
    by (rule error_state[OF Save_error, rotated])
next
  assume "fst (Delete p fileID userID db) = Inl e3"
  then show "snd (Delete p fileID userID db) = db"
    by (rule error_state[OF Delete_error, rotated])
qed

text \<open>Here the failing statement is the last update before the commit.\<close>

theorem metadata_atomic_witness:
  "snd (Delete ((demo_pg ''x'' 4)\<lparr>fault := (\<lambda>s. s = S_DelUpdateUsage)\<rparr>) ''f2'' ''u2'' demo_db) = demo_db"
proof -
  have "fst (Delete ((demo_pg ''x'' 4)\<lparr>fault := (\<lambda>s. s = S_DelUpdateUsage)\<rparr>) ''f2'' ''u2'' demo_db)
      = Inl (Errorf ''update storage usage on delete'' (Opaque ''pq: error''))"
    by code_simp
  with metadata_atomic show ?thesis by blast
qed

section \<open>Reference counts\<close>

lemma live_after_Delete:
  assumes "refs_ok db" and "db_constraints db" and "f \<in> set (files db)" and "active f"
  shows "live (after_delete t f (hd (live db (SHA256 f))) db) (SHA256 f) = []
           \<longleftrightarrow> RefCount (hd (live db (SHA256 f))) \<le> 1"
proof -
  define L where "L = live db (SHA256 f)"
  have fL: "f \<in> set L" using assms(3,4) by (simp add: L_def live_in)
  have dist: "distinct (map file_ID L)"
    using distinct_live[OF constraints_file_ids[OF assms(2)]] by (simp add: L_def)
  have "RefCount (hd L) = int (length L)"
    using assms(1) fL by (cases L) (auto simp: refs_ok_def ref_list_Cons L_def dest!: spec[of _ "SHA256 f"])
  moreover have "length (sql_delete (\<lambda>x. file_ID x = file_ID f) L) = length L - 1"
    by (rule length_sql_delete_key[OF dist fL])
  moreover have "0 < length L" using fL by (rule length_pos_if_in_set)
  ultimately have "length (sql_delete (\<lambda>x. file_ID x = file_ID f) L) = 0 \<longleftrightarrow> RefCount (hd L) \<le> 1"
    by linarith
  then have "sql_delete (\<lambda>x. file_ID x = file_ID f) L = [] \<longleftrightarrow> RefCount (hd L) \<le> 1" by simp
  then show ?thesis by (simp add: live_after_delete L_def[symmetric] ref_row_def sql_update_def)
qed

text \<open>While the reference counts are right and the canonical row is the first
  one, deleting a file asks for the removal of the stored object exactly when no
  active row of that content is left, whoever owns it.\<close>

theorem Delete_object_iff_last:
  assumes "refs_ok db" and "db_constraints db" and "scan p S_DelFindCanon = 0"
    and "Delete p fileID userID db = (Inr r, db')"
  shows "\<exists>f \<in> set (files db). uuid_in p fileID = Some (file_ID f) \<and>
     uuid_in p userID = Some (file_UserID f) \<and> active f \<and> res_ObjectKey r = ObjectKey f \<and>
     (ShouldDeleteObject r \<longleftrightarrow> live db' (SHA256 f) = [])"
proof -
  from assms(4) obtain f c where f: "uuid_in p fileID = Some (file_ID f)"
      "uuid_in p userID = Some (file_UserID f)" "f \<in> set (files db)" "active f"
    and c: "limit1 (scan p S_DelFindCanon) (live db (SHA256 f)) = Some c"
    and r: "res_ObjectKey r = ObjectKey f" "ShouldDeleteObject r \<longleftrightarrow> RefCount c \<le> 1"
    and db': "db' = after_delete (clock p) f c db"
    by (rule Delete_Inr) blast
  have "live db (SHA256 f) \<noteq> []" using c by auto
  then have "c = hd (live db (SHA256 f))" using c assms(3) by (simp add: limit1_0)
  then show ?thesis
    using live_after_Delete[OF assms(1,2) f(3,4)] f r db' by (intro bexI[of _ f]) simp_all
qed

lemma demo_live: "live demo_db h = (if h = ''aa'' then files demo_db else [])"
  by (simp add: live_def active_def demo_defs)

lemma demo_refs: "refs_ok demo_db"
  by (simp add: refs_ok_def demo_live) (simp add: demo_defs ref_list_Cons)

theorem Delete_object_iff_last_witness:
  "ShouldDeleteObject \<lparr>res_ObjectKey = ''k'', ShouldDeleteObject = False\<rparr>
     = (live (snd (Delete (demo_pg ''x'' 4) ''f3'' ''u3'' demo_db)) ''aa'' = [])"
proof -
  have run: "Delete (demo_pg ''x'' 4) ''f3'' ''u3'' demo_db
      = (Inr \<lparr>res_ObjectKey = ''k'', ShouldDeleteObject = False\<rparr>,
         snd (Delete (demo_pg ''x'' 4) ''f3'' ''u3'' demo_db))"
    by code_simp
  have "SHA256 f = ''aa''" if "f \<in> set (files demo_db)" for f
    using that by (auto simp: demo_defs)
  with Delete_object_iff_last[OF demo_refs demo_db_constraints _ run] show ?thesis by auto
qed

text \<open>The reference counts stay right under uploads.\<close>

theorem refs_ok_after_Save:
  assumes "refs_ok db" and "db_constraints db" and "scan p S_SaveFindCanonical = 0"
  shows "refs_ok (snd (Save p userID key h ct nm sz db))"
proof (cases "Save p userID key h ct nm sz db")
  case (Pair r db')
  show ?thesis
  proof (cases r)
    case (Inl e)
    with Pair assms(1) show ?thesis using Save_error[of p userID key h ct nm sz db e db'] by simp
  next
    case (Inr res)
    with Pair have "Save p userID key h ct nm sz db = (Inr res, db')" by simp
    then obtain u where f: "File res = new_row p u
           (case limit1 (scan p S_SaveFindCanonical) (live db h) of None \<Rightarrow> key | Some c \<Rightarrow> ObjectKey c)
           h ct nm sz"
      and db': "db' = after_save (limit1 (scan p S_SaveFindCanonical) (live db h)) (File res) db"
      by (rule Save_Inr) blast
    have "SHA256 (File res) = h" "RefCount (File res) = 1" "active (File res)"
      by (simp_all add: f new_row_def active_def)
    then show ?thesis
      using refs_ok_after_save[OF assms(1,2), of "File res"] Pair assms(3) by (simp add: db')
  qed
qed

theorem refs_ok_after_Save_witness:
  "refs_ok (snd (Save (demo_pg ''f9'' 7) ''u1'' ''k9'' ''aa'' ''ct'' ''n'' 5 demo_db)) \<and>
   map RefCount (files (snd (Save (demo_pg ''f9'' 7) ''u1'' ''k9'' ''aa'' ''ct'' ''n'' 5 demo_db))) = [4, 1, 1, 1]"
proof -
  have "map RefCount (files (snd (Save (demo_pg ''f9'' 7) ''u1'' ''k9'' ''aa'' ''ct'' ''n'' 5 demo_db))) = [4, 1, 1, 1]"
    by code_simp
  with refs_ok_after_Save[OF demo_refs demo_db_constraints] show ?thesis by simp
qed

text \<open>The reference counts stay right under every deletion but that of the
  canonical row of three or more active rows.\<close>

theorem refs_ok_after_Delete:
  assumes "refs_ok db" and "db_constraints db" and "scan p S_DelFindCanon = 0"
    and "\<And>f. f \<in> set (files db) \<Longrightarrow> uuid_in p fileID = Some (file_ID f) \<Longrightarrow>
         f = hd (live db (SHA256 f)) \<Longrightarrow> length (live db (SHA256 f)) \<le> 2"
  shows "refs_ok (snd (Delete p fileID userID db))"
proof (cases "Delete p fileID userID db")
  case (Pair r db')
  show ?thesis
  proof (cases r)
    case (Inl e)
    with Pair assms(1) show ?thesis using Delete_error[of p fileID userID db e db'] by simp
  next
    case (Inr res)
    with Pair have "Delete p fileID userID db = (Inr res, db')" by simp
    then obtain f c where f: "uuid_in p fileID = Some (file_ID f)" "f \<in> set (files db)" "active f"
      and c: "limit1 (scan p S_DelFindCanon) (live db (SHA256 f)) = Some c"
      and db': "db' = after_delete (clock p) f c db"
      by (rule Delete_Inr) blast
    have "live db (SHA256 f) \<noteq> []" using c by auto
    then have "c = hd (live db (SHA256 f))" using c assms(3) by (simp add: limit1_0)
    then show ?thesis
      using refs_ok_after_delete[OF assms(1,2) f(2,3)] assms(4)[OF f(2,1)] Pair db' by simp
  qed
qed

theorem refs_ok_after_Delete_witness:
  "refs_ok (snd (Delete (demo_pg ''x'' 4) ''f2'' ''u2'' demo_db)) \<and>
   map RefCount (files (snd (Delete (demo_pg ''x'' 4) ''f2'' ''u2'' demo_db))) = [2, 1, 1]"
proof -
  have "map RefCount (files (snd (Delete (demo_pg ''x'' 4) ''f2'' ''u2'' demo_db))) = [2, 1, 1]"
    by code_simp
  moreover have "f \<noteq> hd (live demo_db (SHA256 f))" if "f \<in> set (files demo_db)" "''f2'' = file_ID f" for f
  proof -
    have "file_ID (hd (live demo_db h)) = ''f1''" if "h = ''aa''" for h
      using that by (simp only: demo_live) (simp add: demo_defs)
    moreover have "SHA256 f = ''aa''" using that(1) by (auto simp: demo_defs)
    ultimately show ?thesis using that(2) by auto
  qed
  ultimately show ?thesis
    using refs_ok_after_Delete[OF demo_refs demo_db_constraints, of "demo_pg ''x'' 4" "''f2''" "''u2''"] by simp
qed

text \<open>C29: Deleting the canonical row of three or more active rows loses their count:
  its count is lowered on the row that goes, the next row still says one, and the
  next deletion of a file of that content asks for the removal of the object that
  the remaining rows still name.\<close>

theorem Delete_canonical_loses_object:
  assumes "refs_ok db" and "db_constraints db" and "live db h = c # f2 # f3 # rest"
    and "Delete p1 id1 u1 db = (Inr r1, db1)" and "uuid_in p1 id1 = Some (file_ID c)"
    and "scan p1 S_DelFindCanon = 0"
    and "Delete p2 id2 u2 db1 = (Inr r2, db2)" and "uuid_in p2 id2 = Some (file_ID f2)"
    and "scan p2 S_DelFindCanon = 0"
  shows "ShouldDeleteObject r2 \<and> res_ObjectKey r2 = ObjectKey f2 \<and> f3 \<in> set (live db2 h)"
proof -
  have dist: "distinct (map file_ID (c # f2 # f3 # rest))"
    using distinct_live[OF constraints_file_ids[OF assms(2)], of h] assms(3) by simp
  have cnt: "RefCount c = 3 + int (length rest)" "RefCount f2 = 1"
    using assms(1,3) by (auto simp: refs_ok_def ref_list_Cons dest!: spec[of _ h])
  have inL: "c \<in> set (live db h)" "f2 \<in> set (live db h)" using assms(3) by simp_all
  from assms(4) obtain g cg where g: "uuid_in p1 id1 = Some (file_ID g)" "g \<in> set (files db)"
    and cg: "limit1 (scan p1 S_DelFindCanon) (live db (SHA256 g)) = Some cg"
    and db1: "db1 = after_delete (clock p1) g cg db"
    by (rule Delete_Inr) blast
  have gc: "g = c"
    using unique_row[OF constraints_file_ids[OF assms(2)] g(2)] inL(1) g(1) assms(5) by (simp add: live_in)
  have h: "SHA256 c = h" using inL(1) by (simp add: live_in)
  have "cg = c" using cg assms(3,6) by (simp add: gc h limit1_0)
  then have db1: "db1 = after_delete (clock p1) c c db" using db1 gc by simp
  have L1: "live db1 h = f2 # f3 # rest"
    using dist cnt by (simp add: db1 live_after_delete assms(3) sql_delete_hd[simplified] ref_row_other)
  have C1: "db_constraints db1" unfolding db1 by (rule constraints_after_delete[OF assms(2)])
  from assms(7) obtain k ck where k: "uuid_in p2 id2 = Some (file_ID k)" "k \<in> set (files db1)"
    and ck: "limit1 (scan p2 S_DelFindCanon) (live db1 (SHA256 k)) = Some ck"
    and r2: "res_ObjectKey r2 = ObjectKey k" "ShouldDeleteObject r2 \<longleftrightarrow> RefCount ck \<le> 1"
    and db2: "db2 = after_delete (clock p2) k ck db1"
    by (rule Delete_Inr) blast
  have f2: "f2 \<in> set (files db1)" "SHA256 f2 = h"
    using L1 live_in[of f2 db1 h] by simp_all
  have kf: "k = f2"
    using unique_row[OF constraints_file_ids[OF C1] k(2) f2(1)] k(1) assms(8) by simp
  have "ck = f2" using ck assms(9) L1 by (simp add: kf f2 limit1_0)
  moreover have "live db2 h = f3 # rest"
    using dist cnt(2) by (simp add: db2 kf \<open>ck = f2\<close> live_after_delete L1 sql_delete_hd[simplified])
  ultimately show ?thesis using r2 kf cnt(2) by simp
qed

theorem Delete_canonical_loses_object_witness:
  "\<exists>r. fst (Delete (demo_pg ''x'' 5) ''f2'' ''u2'' (snd (Delete (demo_pg ''x'' 4) ''f1'' ''u1'' demo_db))) = Inr r \<and>
     ShouldDeleteObject r \<and> res_ObjectKey r = ''k'' \<and>
     map file_ID (live (snd (Delete (demo_pg ''x'' 5) ''f2'' ''u2''
       (snd (Delete (demo_pg ''x'' 4) ''f1'' ''u1'' demo_db)))) ''aa'') = [''f3'']"
proof -
  let ?one = "Delete (demo_pg ''x'' 4) ''f1'' ''u1'' demo_db"
  let ?two = "Delete (demo_pg ''x'' 5) ''f2'' ''u2'' (snd ?one)"
  have one: "?one = (Inr \<lparr>res_ObjectKey = ''k'', ShouldDeleteObject = False\<rparr>, snd ?one)"
    by code_simp
  have two: "?two = (Inr \<lparr>res_ObjectKey = ''k'', ShouldDeleteObject = True\<rparr>, snd ?two)"
    by code_simp
  have L: "live demo_db ''aa'' = [demo_file ''f1'' ''u1'' 3, demo_file ''f2'' ''u2'' 1, demo_file ''f3'' ''u3'' 1]"
    by (simp add: demo_live) (simp add: demo_defs)
  have ids: "file_ID (demo_file i u n) = i" for i u n by (simp add: demo_file_def)
  have rest: "map file_ID (live (snd ?two) ''aa'') = [''f3'']" by code_simp
  from Delete_canonical_loses_object[OF demo_refs demo_db_constraints L one _ _ two] show ?thesis
    using two rest by (intro exI[of _ "\<lparr>res_ObjectKey = ''k'', ShouldDeleteObject = True\<rparr>"])
      (simp add: ids, metis fst_conv)
qed

section \<open>Upload, then delete\<close>

lemma charge_refund:
  assumes "\<And>x. x \<in> set us \<Longrightarrow> 0 \<le> StorageBytesUsed x"
  shows "refund u n (charge u n us) = us"
  using assms by (induction us) (auto simp: refund_def charge_def)

lemma ref_row_undo: "ref_row i (- 1) (ref_row i 1 fs) = fs"
  by (induction fs) (auto simp: ref_row_def add_ref_def)

lemma sql_delete_snoc:
  "file_ID f \<notin> file_ID ` set L \<Longrightarrow> sql_delete (\<lambda>x. file_ID x = file_ID f) (L @ [f]) = L"
  by (auto simp: sql_delete_def filter_id_conv image_iff)

lemma live_save_delete:
  assumes "refs_ok db" and "db_constraints db" and "file_ID f \<notin> file_ID ` set (files db)"
    and "active f" and "RefCount f = 1"
    and c: "c = hd (live db1 (SHA256 f))"
    and db1: "db1 = after_save (limit1 0 (live db (SHA256 f))) f db"
  shows "live (after_delete t f c db1) h = live db h \<and> (RefCount c \<le> 1 \<longleftrightarrow> live db (SHA256 f) = [])"
proof -
  have fresh: "file_ID f \<notin> file_ID ` set (live db h)" for h using assms(3) by (auto simp: live_in)
  have dist: "distinct (map file_ID (live db (SHA256 f)))"
    by (rule distinct_live[OF constraints_file_ids[OF assms(2)]])
  show ?thesis
  proof (cases "live db (SHA256 f)")
    case Nil
    then have "live db1 (SHA256 f) = [f]" using assms(4) by (simp add: db1 live_after_save)
    then have "c = f" using c by simp
    with Nil assms(4,5) fresh[of h] show ?thesis
      by (auto simp: live_after_delete db1 live_after_save sql_delete_snoc image_iff intro!: sql_delete_id)
  next
    case (Cons a as)
    have found: "limit1 0 (live db (SHA256 f)) = Some a" using Cons by (simp add: limit1_0)
    have n: "RefCount a = 1 + int (length as)"
      using assms(1) Cons by (auto simp: refs_ok_def ref_list_Cons dest!: spec[of _ "SHA256 f"])
    have "live db1 (SHA256 f) = add_ref 1 a # as @ [f]"
      using assms(4) ref_row_hd[OF dist[unfolded Cons]] Cons
      by (simp add: db1 live_after_save limit1_0)
    then have ca: "c = add_ref 1 a" using c by simp
    have "sql_delete (\<lambda>x. file_ID x = file_ID f) (ref_row (file_ID a) 1 (live db h)) = ref_row (file_ID a) 1 (live db h)"
    proof (intro sql_delete_id notI)
      fix r assume "r \<in> set (ref_row (file_ID a) 1 (live db h))" "file_ID r = file_ID f"
      then have "file_ID f \<in> file_ID ` set (ref_row (file_ID a) 1 (live db h))" by (metis imageI)
      with fresh[of h] show False by simp
    qed
    then have "live (after_delete t f c db1) h = live db h"
      using n assms(4) fresh[of h]
      by (auto simp: live_after_delete ca db1 live_after_save found ref_row_undo sql_simps)
         (simp_all add: sql_delete_def ref_row_undo)
    then show ?thesis using n Cons by (simp add: ca)
  qed
qed

text \<open>An upload followed by the deletion of the new file brings every content's
  active rows, with their counts, and every user's usage back to what they were,
  and asks for the removal of the object exactly when the upload was no duplicate.\<close>

theorem Save_Delete_roundtrip:
  assumes "refs_ok db" and "db_constraints db" and "\<And>x. x \<in> set (users db) \<Longrightarrow> 0 \<le> StorageBytesUsed x"
    and "Save p userID key h ct nm sz db = (Inr r, db1)" and "scan p S_SaveFindCanonical = 0"
    and "Delete p2 fileID userID2 db1 = (Inr d, db2)" and "scan p2 S_DelFindCanon = 0"
    and "uuid_in p2 fileID = Some (file_ID (File r))"
  shows "users db2 = users db \<and> (\<forall>h'. live db2 h' = live db h') \<and>
     res_ObjectKey d = ObjectKey (File r) \<and> (ShouldDeleteObject d \<longleftrightarrow> \<not> Duplicate r)"
proof -
  from assms(4) obtain u x where u: "x \<in> set (users db)" "user_ID x = u"
    and fresh: "gen_uuid p \<notin> file_ID ` set (files db)"
    and dup: "Duplicate r \<longleftrightarrow> live db h \<noteq> []"
    and f: "File r = new_row p u
           (case limit1 (scan p S_SaveFindCanonical) (live db h) of None \<Rightarrow> key | Some c \<Rightarrow> ObjectKey c)
           h ct nm sz"
    and db1: "db1 = after_save (limit1 (scan p S_SaveFindCanonical) (live db h)) (File r) db"
    by (rule Save_Inr) blast
  have sel: "file_ID (File r) = gen_uuid p" "file_UserID (File r) = u" "SHA256 (File r) = h"
    "active (File r)" "RefCount (File r) = 1"
    by (simp_all add: f new_row_def active_def)
  from assms(6) obtain g c where g: "uuid_in p2 fileID = Some (file_ID g)" "g \<in> set (files db1)"
    and c: "limit1 (scan p2 S_DelFindCanon) (live db1 (SHA256 g)) = Some c"
    and d: "res_ObjectKey d = ObjectKey g" "ShouldDeleteObject d \<longleftrightarrow> RefCount c \<le> 1"
    and db2: "db2 = after_delete (clock p2) g c db1"
    by (rule Delete_Inr) blast
  have "db_constraints db1"
    unfolding db1 using assms(2) fresh u sel by (intro constraints_after_save) auto
  moreover have "File r \<in> set (files db1)" by (simp add: db1 after_save_def split: option.splits)
  ultimately have gf: "g = File r"
    using unique_row[OF constraints_file_ids g(2)] g(1) assms(8) by simp
  have "live db1 (SHA256 g) \<noteq> []" using c by auto
  then have ch: "c = hd (live db1 (SHA256 (File r)))" using c assms(7) by (simp add: limit1_0 gf)
  have db1': "db1 = after_save (limit1 0 (live db (SHA256 (File r)))) (File r) db"
    using db1 assms(5) sel by simp
  note restored = live_save_delete[OF assms(1,2) _ sel(4,5) ch db1', of "clock p2"]
  have "users db2 = users db"
    using assms(3) by (simp add: db2 db1 gf charge_refund)
  then show ?thesis using restored fresh sel d dup by (simp add: db2 gf)
qed

theorem Save_Delete_roundtrip_witness:
  "let (r, db1) = Save (demo_pg ''f9'' 7) ''u1'' ''k9'' ''aa'' ''ct'' ''n'' 5 demo_db;
       (d, db2) = Delete (demo_pg ''x'' 8) ''f9'' ''u1'' db1
   in users db2 = users demo_db \<and> (\<forall>h. live db2 h = live demo_db h) \<and> length (files db2) = 4"
proof -
  let ?s = "Save (demo_pg ''f9'' 7) ''u1'' ''k9'' ''aa'' ''ct'' ''n'' 5 demo_db"
  let ?d = "Delete (demo_pg ''x'' 8) ''f9'' ''u1'' (snd ?s)"
  have s: "?s = (Inr \<lparr>File = \<lparr>file_ID = ''f9'', file_UserID = ''u1'', ObjectKey = ''k'', SHA256 = ''aa'',
      Size = 5, ContentType = ''ct'', RefCount = 1, OriginalName = ''n'', file_CreatedAt = 7,
      DeletedAt = None\<rparr>, Duplicate = True\<rparr>, snd ?s)"
    by code_simp
  have d: "?d = (Inr \<lparr>res_ObjectKey = ''k'', ShouldDeleteObject = False\<rparr>, snd ?d)"
    by code_simp
  have n: "length (files (snd ?d)) = 4" by code_simp
  have nn: "\<And>x. x \<in> set (users demo_db) \<Longrightarrow> 0 \<le> StorageBytesUsed x" by (auto simp: demo_defs)
  show ?thesis
    using Save_Delete_roundtrip[OF demo_refs demo_db_constraints nn s _ d] n
    by (simp add: case_prod_beta)
qed

section \<open>Tenants\<close>

text \<open>A file of another user, a deleted file and a missing file look the same: the
  lookup and the deletion answer not found, and nothing changes.\<close>

theorem foreign_file_not_found:
  assumes "uuid_in p fileID = Some i" and "uuid_in p userID = Some u"
    and "\<And>f. f \<in> set (files db) \<Longrightarrow> file_ID f = i \<Longrightarrow> file_UserID f \<noteq> u \<or> \<not> active f"
    and "\<not> fault p S_GetByID" and "\<not> fault p S_DelBegin" and "\<not> fault p S_DelFetch"
  shows "GetByID p fileID userID db = Inl ErrNotFound \<and>
     Delete p fileID userID db = (Inl ErrNotFound, db)"
proof -
  have "filter (\<lambda>f. file_ID f = i \<and> file_UserID f = u \<and> active f) (files db) = []"
    using assms(3) by (auto simp: filter_empty_conv)
  with assms show ?thesis
    by (simp add: GetByID_def Delete_def in_tx_def delete_tx_def fetch_file_def exec_no_fault
        uuid_arg_Some no_rows_not_found_def)
qed

theorem foreign_file_not_found_witness:
  "GetByID (demo_pg ''x'' 4) ''f1'' ''u2'' demo_db = Inl ErrNotFound \<and>
   Delete (demo_pg ''x'' 4) ''f1'' ''u2'' demo_db = (Inl ErrNotFound, demo_db)"
  by (rule foreign_file_not_found[of _ _ "''f1''" _ "''u2''"]) (auto simp: demo_defs)

text \<open>What a user can see of the files table: the own rows but for the reference
  count, which no response shows.\<close>

definition view :: "uuid \<Rightarrow> database \<Rightarrow> file_meta list" where
  "view u db = map (\<lambda>f. f\<lparr>RefCount := 0\<rparr>) (filter (\<lambda>f. file_UserID f = u) (files db))"

lemma view_ref_row:
  "map (\<lambda>f. f\<lparr>RefCount := 0\<rparr>) (filter (\<lambda>f. file_UserID f = u) (ref_row i d fs))
     = map (\<lambda>f. f\<lparr>RefCount := 0\<rparr>) (filter (\<lambda>f. file_UserID f = u) fs)"
  by (induction fs) (auto simp: ref_row_def add_ref_def)

lemma view_after_save: "file_UserID f \<noteq> u \<Longrightarrow> view u (after_save found f db) = view u db"
  by (cases found) (simp_all add: view_def after_save_def view_ref_row)

lemma filter_map_untouched:
  "(\<And>x. x \<in> set xs \<Longrightarrow> P x \<Longrightarrow> \<not> Q x) \<Longrightarrow> (\<And>x. P (g x) = P x) \<Longrightarrow>
     filter P (sql_update Q g xs) = filter P xs \<and> filter P (sql_delete Q xs) = filter P xs"
  by (induction xs) (auto simp: sql_delete_def)

lemma view_after_delete:
  assumes "distinct (map file_ID (files db))" and "f \<in> set (files db)" and "file_UserID f \<noteq> u"
  shows "view u (after_delete t f c db) = view u db"
proof -
  have "file_ID x \<noteq> file_ID f" if "x \<in> set (files db)" "file_UserID x = u" for x
    using unique_row[OF assms(1) that(1) assms(2)] that(2) assms(3) by auto
  then show ?thesis
    using filter_map_untouched[of "files db" "\<lambda>x. file_UserID x = u" "\<lambda>x. file_ID x = file_ID f"
        "\<lambda>f. f\<lparr>DeletedAt := Some t\<rparr>"]
    by (auto simp: view_def after_delete_def view_ref_row mark_deleted_def)
qed

lemma other_users:
  "v \<noteq> u \<Longrightarrow> filter (\<lambda>x. user_ID x = u) (charge v n us) = filter (\<lambda>x. user_ID x = u) us"
  "v \<noteq> u \<Longrightarrow> filter (\<lambda>x. user_ID x = u) (refund v n us) = filter (\<lambda>x. user_ID x = u) us"
  unfolding charge_def refund_def by (rule conjunct1[OF filter_map_untouched], auto)+

lemma isolated_Save:
  assumes "Save p userID key h ct nm sz db = (Inr r, db')" and "uuid_in p userID \<noteq> Some u"
  shows "view u db' = view u db \<and> filter (\<lambda>x. user_ID x = u) (users db') = filter (\<lambda>x. user_ID x = u) (users db)"
proof -
  from assms(1) obtain v where v: "uuid_in p userID = Some v"
    and f: "File r = new_row p v
         (case limit1 (scan p S_SaveFindCanonical) (live db h) of None \<Rightarrow> key | Some c \<Rightarrow> ObjectKey c)
         h ct nm sz"
    and db': "db' = after_save (limit1 (scan p S_SaveFindCanonical) (live db h)) (File r) db"
    by (rule Save_Inr) blast
  have "file_UserID (File r) \<noteq> u" using v assms(2) by (simp add: f new_row_def)
  then show ?thesis by (simp add: db' view_after_save other_users)
qed

lemma isolated_Delete:
  assumes "Delete p fileID userID db = (Inr r, db')" and "uuid_in p userID \<noteq> Some u" and "db_constraints db"
  shows "view u db' = view u db \<and> filter (\<lambda>x. user_ID x = u) (users db') = filter (\<lambda>x. user_ID x = u) (users db)"
proof -
  from assms(1) obtain f c where f: "uuid_in p userID = Some (file_UserID f)" "f \<in> set (files db)"
    and db': "db' = after_delete (clock p) f c db"
    by (rule Delete_Inr) blast
  then have "file_UserID f \<noteq> u" using assms(2) by simp
  then show ?thesis
    using view_after_delete[OF constraints_file_ids[OF assms(3)] f(2)] by (simp add: db' other_users)
qed

text \<open>Tenants are separated: an upload or a deletion by one user leaves every other
  user's files (but for the hidden reference counts), account and usage as they
  were, even when both share a stored object.\<close>

theorem tenants_isolated:
  assumes "db_constraints db" and "uuid_in p userID \<noteq> Some u"
    and "db' = snd (Save p userID key h ct nm sz db) \<or> db' = snd (Delete p fileID userID db)"
  shows "view u db' = view u db \<and>
     filter (\<lambda>x. user_ID x = u) (users db') = filter (\<lambda>x. user_ID x = u) (users db)"
proof -
  consider r where "Save p userID key h ct nm sz db = (Inr r, db')"
    | r where "Delete p fileID userID db = (Inr r, db')" | "db' = db"
    using assms(3) Save_error Delete_error by (metis prod.collapse sum.exhaust)
  then show ?thesis
    by cases (use isolated_Save[OF _ assms(2)] isolated_Delete[OF _ assms(2,1)] in simp_all)
qed

theorem tenants_isolated_witness:
  "view ''u2'' (snd (Save (demo_pg ''f9'' 7) ''u1'' ''k9'' ''aa'' ''ct'' ''n'' 5 demo_db)) = view ''u2'' demo_db \<and>
   length (view ''u2'' demo_db) = 1"
  using tenants_isolated[OF demo_db_constraints, of "demo_pg ''f9'' 7" "''u1''" "''u2''",
      OF _ disjI1[OF refl]] by (auto simp: view_def demo_defs)

text \<open>Listing returns exactly the user's active files, each once, newest first.\<close>

theorem ListByUser_newest_first:
  assumes "ListByUser p userID db = Inr fs" and "uuid_in p userID = Some u"
  shows "mset fs = mset (filter (\<lambda>f. file_UserID f = u \<and> active f) (files db)) \<and>
     sorted (map (\<lambda>f. - file_CreatedAt f) fs)"
  using assms sorted_sort_key[of "\<lambda>f. - file_CreatedAt f"]
  by (auto simp: ListByUser_def order_desc_def)

theorem ListByUser_newest_first_witness:
  "\<exists>fs. ListByUser (demo_pg ''x'' 9) ''u1'' demo_run = Inr fs \<and> map file_ID fs = [''f2''] \<and>
     sorted (map (\<lambda>f. - file_CreatedAt f) fs)"
proof -
  have run: "ListByUser (demo_pg ''x'' 9) ''u1'' demo_run = Inr [\<lparr>file_ID = ''f2'', file_UserID = ''u1'',
      ObjectKey = ''k1'', SHA256 = ''aa'', Size = 5, ContentType = ''ct'', RefCount = 1,
      OriginalName = ''b'', file_CreatedAt = 3, DeletedAt = None\<rparr>]"
    by code_simp
  show ?thesis
    using ListByUser_newest_first[OF run] run by simp
qed

end
