(* ===== verification/GoLib.thy ===== *)
theory GoLib
  imports Prelude
begin

text \<open>
  The functions of Go's standard library that the program calls on strings:
  \<open>strings\<close>, \<open>strconv\<close>, \<open>path/filepath\<close> and \<open>encoding/hex\<close>. Strings are
  byte lists.
\<close>

section \<open>strings\<close>

text \<open>
  \<open>strings.ToLower\<close>. ASCII capitals become small letters; of the other code
  points exactly two have an ASCII lower case, U+0130 (bytes C4 B0, small i) and
  U+212A (bytes E2 84 AA, small k). The other bytes above 127 are kept: the
  program compares the result with ASCII literals only, and no further code
  point can make such a comparison true.
\<close>

definition lower_ascii :: "char \<Rightarrow> char" where
  "lower_ascii c = (if of_char c \<in> {65..90::nat} then char_of (of_char c + 32 :: nat) else c)"

fun to_lower :: "string \<Rightarrow> string" where
  "to_lower [] = []"
| "to_lower (c # cs) =
     (case cs of
        d # ds \<Rightarrow>
          if of_char c = (196::nat) \<and> of_char d = (176::nat) then CHR ''i'' # to_lower ds
          else (case ds of
                  e # es \<Rightarrow>
                    if of_char c = (226::nat) \<and> of_char d = (132::nat) \<and> of_char e = (170::nat)
                    then CHR ''k'' # to_lower es
                    else lower_ascii c # to_lower cs
                | [] \<Rightarrow> lower_ascii c # to_lower cs)
      | [] \<Rightarrow> [lower_ascii c])"

definition has_prefix :: "string \<Rightarrow> string \<Rightarrow> bool" where
  "has_prefix s p \<longleftrightarrow> take (length p) s = p"

text \<open>\<open>strings.SplitN(s, " ", 2)\<close>: one part when there is no space, otherwise the
  part before the first space and everything after it.\<close>

fun split_space :: "string \<Rightarrow> string list" where
  "split_space [] = [[]]"
| "split_space (c # cs) =
     (if c = CHR '' '' then [[], cs]
      else (case split_space cs of
              p # ps \<Rightarrow> (c # p) # ps
            | [] \<Rightarrow> [[c]]))"

text \<open>\<open>strings.EqualFold\<close> against an ASCII word: simple folding relates a non-ASCII
  code point only to the letters k and s, which the program's word \<open>Bearer\<close> does
  not have.\<close>

definition equal_fold :: "string \<Rightarrow> string \<Rightarrow> bool" where
  "equal_fold s t \<longleftrightarrow> map lower_ascii s = map lower_ascii t"

text \<open>The length of the UTF-8 sequence at the front of a string, or \<open>None\<close> when it does
  not start with a valid one (the table of \<open>unicode/utf8\<close>).\<close>

definition cont_byte :: "nat \<Rightarrow> nat \<Rightarrow> string \<Rightarrow> bool" where
  "cont_byte lo hi s \<longleftrightarrow> (case s of [] \<Rightarrow> False | c # _ \<Rightarrow> lo \<le> of_char c \<and> of_char c \<le> hi)"

definition rune_length :: "string \<Rightarrow> nat option" where
  "rune_length s =
     (case s of
        [] \<Rightarrow> None
      | c # t \<Rightarrow>
          (let b = of_char c :: nat;
               lo = (if b = 0xE0 then 0xA0 else if b = 0xF0 then 0x90 else 0x80);
               hi = (if b = 0xED then 0x9F else if b = 0xF4 then 0x8F else 0xBF);
               c2 = cont_byte lo hi t; c3 = cont_byte 0x80 0xBF (drop 1 t); c4 = cont_byte 0x80 0xBF (drop 2 t)
           in if b < 0x80 then Some 1
              else if 0xC2 \<le> b \<and> b \<le> 0xDF \<and> c2 then Some 2
              else if 0xE0 \<le> b \<and> b \<le> 0xEF \<and> c2 \<and> c3 then Some 3
              else if 0xF0 \<le> b \<and> b \<le> 0xF4 \<and> c2 \<and> c3 \<and> c4 then Some 4
              else None))"

text \<open>\<open>strings.Map\<close> with a function that only changes ASCII: bytes outside a valid
  sequence become U+FFFD (EF BF BD).\<close>

function strings_Map :: "(char \<Rightarrow> char) \<Rightarrow> string \<Rightarrow> string" where
  "strings_Map f s =
     (case s of
        [] \<Rightarrow> []
      | c # t \<Rightarrow>
          (case rune_length s of
             None \<Rightarrow> map char_of [0xEF, 0xBF, 0xBD :: nat] @ strings_Map f t
           | Some n \<Rightarrow> if n = 1 then f c # strings_Map f t else take n s @ strings_Map f (drop n s)))"
  by pat_completeness auto
termination
  by (relation "measure (\<lambda>(f, s). length s)")
     (auto simp: rune_length_def Let_def split: list.splits if_splits)

declare strings_Map.simps [simp del]

section \<open>strconv\<close>

fun nat_digits :: "nat \<Rightarrow> string" where
  "nat_digits n =
     (if n < 10 then [char_of (48 + n)] else nat_digits (n div 10) @ [char_of (48 + n mod 10)])"

declare nat_digits.simps [simp del]

text \<open>\<open>strconv.Itoa\<close> and the \<open>%d\<close> verb.\<close>

definition itoa :: "int \<Rightarrow> string" where
  "itoa i = (if i < 0 then CHR ''-'' # nat_digits (nat (- i)) else nat_digits (nat i))"

definition digit_val :: "char \<Rightarrow> nat option" where
  "digit_val c = (if of_char c \<in> {48..57::nat} then Some (of_char c - 48) else None)"

fun parse_digits :: "nat \<Rightarrow> string \<Rightarrow> nat option" where
  "parse_digits acc [] = Some acc"
| "parse_digits acc (c # cs) =
     (case digit_val c of None \<Rightarrow> None | Some d \<Rightarrow> parse_digits (10 * acc + d) cs)"

definition parse_uint :: "string \<Rightarrow> nat option" where
  "parse_uint s = (if s = [] then None else parse_digits 0 s)"

text \<open>
  \<open>strconv.Atoi(s)\<close> and \<open>strconv.ParseInt(s, 10, 64)\<close>: an optional sign, at
  least one decimal digit and nothing else, and the value fits 64 bits. Anything
  else is an error (\<open>None\<close>; the callers only test for it).
\<close>

definition parse_int64 :: "string \<Rightarrow> int option" where
  "parse_int64 s =
     (let r = (case s of
                 c # cs \<Rightarrow> if c = CHR ''-'' then map_option (\<lambda>n. - int n) (parse_uint cs)
                           else if c = CHR ''+'' then map_option int (parse_uint cs)
                           else map_option int (parse_uint s)
               | [] \<Rightarrow> None)
      in case r of None \<Rightarrow> None | Some i \<Rightarrow> if int8_ok i then Some i else None)"

definition parse_bool :: "string \<Rightarrow> bool option" where
  "parse_bool s =
     (if s \<in> {''1'', ''t'', ''T'', ''true'', ''TRUE'', ''True''} then Some True
      else if s \<in> {''0'', ''f'', ''F'', ''false'', ''FALSE'', ''False''} then Some False
      else None)"

section \<open>path/filepath\<close>

definition slash :: char where "slash = CHR ''/''"

text \<open>\<open>filepath.Base\<close>: without trailing slashes, the part after the last slash;
  \<open>.\<close> for the empty path and \<open>/\<close> for a path of slashes only.\<close>

definition path_base :: "string \<Rightarrow> string" where
  "path_base path =
     (if path = [] then ''.''
      else let p = rev (dropWhile (\<lambda>c. c = slash) (rev path))
           in if p = [] then ''/'' else rev (takeWhile (\<lambda>c. c \<noteq> slash) (rev p)))"

text \<open>\<open>filepath.Ext\<close>: from the last dot of the last element to the end, or empty.\<close>

definition path_ext :: "string \<Rightarrow> string" where
  "path_ext path =
     (let last = takeWhile (\<lambda>c. c \<noteq> slash) (rev path)
      in if CHR ''.'' \<in> set last
         then CHR ''.'' # rev (takeWhile (\<lambda>c. c \<noteq> CHR ''.'') last)
         else [])"

section \<open>encoding/hex\<close>

definition hex_digit :: "nat \<Rightarrow> char" where
  "hex_digit n = (if n < 10 then char_of (48 + n) else char_of (87 + n))"

text \<open>\<open>hex.EncodeToString\<close>: two small hexadecimal digits per byte.\<close>

definition hex_encode :: "bytes \<Rightarrow> string" where
  "hex_encode bs = concat (map (\<lambda>b. [hex_digit (of_char b div 16), hex_digit (of_char b mod 16)]) bs)"

section \<open>Lemmas\<close>

lemma length_hex_encode [simp]: "length (hex_encode bs) = 2 * length bs"
  by (induction bs) (simp_all add: hex_encode_def)

lemma split_space_nonempty [simp]: "split_space s \<noteq> []"
  by (induction s) (auto split: list.splits)

lemma split_space_no_space: "CHR '' '' \<notin> set s \<Longrightarrow> split_space s = [s]"
  by (induction s) auto

lemma split_space_append:
  "CHR '' '' \<notin> set p \<Longrightarrow> split_space (p @ CHR '' '' # t) = [p, t]"
  by (induction p) auto

lemma split_space_two:
  "split_space s = [p, t] \<longleftrightarrow> s = p @ CHR '' '' # t \<and> CHR '' '' \<notin> set p"
proof
  assume two: "split_space s = [p, t]"
  then have "CHR '' '' \<in> set s" using split_space_no_space[of s] by auto
  then obtain q r where s: "s = q @ CHR '' '' # r" and q: "CHR '' '' \<notin> set q"
    by (blast dest: split_list_first)
  from two show "s = p @ CHR '' '' # t \<and> CHR '' '' \<notin> set p"
    using split_space_append[OF q, of r] s q by simp
next
  assume "s = p @ CHR '' '' # t \<and> CHR '' '' \<notin> set p"
  then show "split_space s = [p, t]" by (simp add: split_space_append)
qed

lemma split_space_cases:
  "split_space s = [s] \<or> (\<exists>p t. split_space s = [p, t])"
  using split_space_no_space[of s] split_space_append split_list_first[of "CHR '' ''" s] by metis

lemma char_of_48: "n < 10 \<Longrightarrow> digit_val (char_of (48 + n)) = Some n"
  by (simp add: digit_val_def)

lemma parse_digits_append:
  "parse_digits a (s @ t) = (case parse_digits a s of None \<Rightarrow> None | Some b \<Rightarrow> parse_digits b t)"
  by (induction s arbitrary: a) (auto split: option.splits)

lemma parse_nat_digits: "parse_digits 0 (nat_digits n) = Some n"
proof (induction n rule: nat_digits.induct)
  case (1 n)
  show ?case
  proof (cases "n < 10")
    case True
    then show ?thesis by (subst nat_digits.simps) (simp add: char_of_48)
  next
    case False
    with 1 show ?thesis
      by (subst nat_digits.simps) (simp add: parse_digits_append char_of_48)
  qed
qed

lemma nat_digits_nonempty [simp]: "nat_digits n \<noteq> []"
  by (subst nat_digits.simps) simp

lemma nat_digits_hd: "nat_digits n = c # cs \<Longrightarrow> \<exists>d<10. c = char_of (48 + d :: nat)"
proof (induction n arbitrary: cs rule: nat_digits.induct)
  case (1 n)
  show ?case
  proof (cases "n < 10")
    case True
    with "1.prems" show ?thesis by (subst (asm) nat_digits.simps) auto
  next
    case False
    with "1.prems" have "nat_digits (n div 10) @ [char_of (48 + n mod 10)] = c # cs"
      by (subst (asm) nat_digits.simps) simp
    then obtain cs' where "nat_digits (n div 10) = c # cs'"
      by (cases "nat_digits (n div 10)") auto
    with "1.IH" False show ?thesis by blast
  qed
qed

lemma nat_digits_not_sign:
  assumes "nat_digits n = c # cs"
  shows "c \<noteq> CHR ''-''" and "c \<noteq> CHR ''+''"
proof -
  obtain d where d: "d < 10" "c = char_of (48 + d :: nat)"
    using nat_digits_hd[OF assms] by blast
  then have "of_char c = (48 + d :: nat)" by simp
  moreover have "of_char (CHR ''-'') = (45::nat)" "of_char (CHR ''+'') = (43::nat)" by simp_all
  ultimately show "c \<noteq> CHR ''-''" and "c \<noteq> CHR ''+''" by auto
qed

lemma parse_itoa: "int8_ok i \<Longrightarrow> parse_int64 (itoa i) = Some i"
proof (cases "i < 0")
  case True
  assume "int8_ok i"
  with True show ?thesis
    by (simp add: parse_int64_def itoa_def parse_uint_def parse_nat_digits)
next
  case False
  assume ok: "int8_ok i"
  obtain c cs where d: "nat_digits (nat i) = c # cs"
    by (cases "nat_digits (nat i)") auto
  with nat_digits_not_sign[OF d] ok False parse_nat_digits[of "nat i"] show ?thesis
    by (simp add: parse_int64_def itoa_def parse_uint_def)
qed

lemma parse_int64_ok: "parse_int64 s = Some i \<Longrightarrow> int8_ok i"
  by (auto simp: parse_int64_def Let_def split: option.splits if_splits)

lemma path_base_no_slash:
  assumes "path_base p \<noteq> ''/''"
  shows "slash \<notin> set (path_base p)"
  using assms set_takeWhileD[of slash "\<lambda>c. c \<noteq> slash"]
  by (auto simp: path_base_def Let_def slash_def split: if_splits)

lemma path_base_nonempty: "path_base p \<noteq> []"
proof -
  define q where "q = dropWhile (\<lambda>c. c = slash) (rev p)"
  have "takeWhile (\<lambda>c. c \<noteq> slash) q \<noteq> []" if "q \<noteq> []"
    using that hd_dropWhile[of "\<lambda>c. c = slash" "rev p"] by (cases q) (auto simp: q_def)
  then show ?thesis by (auto simp: path_base_def Let_def q_def[symmetric])
qed

end
