(* ===== verification/Json.thy ===== *)
theory Json
  imports Schema GoLib
begin

text \<open>
  \<open>encoding/json\<close> as the program uses it: values as a datatype, and the encoders
  that the struct tags of \<open>storage/types.go\<close>, \<open>storage/document_types.go\<close> and
  \<open>storage/apikey_store.go\<close> define. A field tagged \<open>"-"\<close> is never encoded, a
  nil pointer tagged \<open>omitempty\<close> is left out, any other nil pointer and a nil
  slice are \<open>null\<close>.
\<close>

datatype json =
    JNull
  | JBool bool
  | JInt int
  | JStr string
  | JTime time
  | JArr "json list"
  | JObj "(string \<times> json) list"

text \<open>The value of a field of an object.\<close>

fun json_field :: "string \<Rightarrow> json \<Rightarrow> json option" where
  "json_field k (JObj fs) = map_of fs k"
| "json_field k _ = None"

text \<open>All field names of a value, at any depth.\<close>

fun json_names :: "json \<Rightarrow> string set" where
  "json_names (JObj fs) = fst ` set fs \<union> (\<Union>f \<in> set fs. json_names (snd f))"
| "json_names (JArr xs) = (\<Union>x \<in> set xs. json_names x)"
| "json_names _ = {}"

section \<open>Encoders\<close>

text \<open>A slice that a query filled stays nil when there is no row.\<close>

definition json_slice :: "('a \<Rightarrow> json) \<Rightarrow> 'a list \<Rightarrow> json" where
  "json_slice enc xs = (if xs = [] then JNull else JArr (map enc xs))"

definition omitempty :: "string \<Rightarrow> ('a \<Rightarrow> json) \<Rightarrow> 'a option \<Rightarrow> (string \<times> json) list" where
  "omitempty k enc v = (case v of None \<Rightarrow> [] | Some x \<Rightarrow> [(k, enc x)])"

definition json_file :: "file_meta \<Rightarrow> json" where
  "json_file f = JObj ([
     (''id'', JStr (file_ID f)), (''user_id'', JStr (file_UserID f)), (''sha256'', JStr (SHA256 f)),
     (''size'', JInt (Size f)), (''content_type'', JStr (ContentType f)),
     (''original_name'', JStr (OriginalName f)), (''created_at'', JTime (file_CreatedAt f))]
     @ omitempty ''deleted_at'' JTime (DeletedAt f))"

fun status_text :: "document_status \<Rightarrow> string" where
  "status_text StatusProcessing = ''processing''"
| "status_text StatusReady = ''ready''"
| "status_text StatusFailed = ''failed''"

definition json_document_fields :: "document \<Rightarrow> (string \<times> json) list" where
  "json_document_fields d = [
     (''id'', JStr (doc_ID d)), (''user_id'', JStr (doc_UserID d)), (''filename'', JStr (Filename d)),
     (''sha256'', JStr (doc_SHA256 d)), (''status'', JStr (status_text (Status d))),
     (''total_pages'', case TotalPages d of None \<Rightarrow> JNull | Some n \<Rightarrow> JInt n)]
     @ omitempty ''error_message'' JStr (ErrorMessage d)
     @ [(''size_bytes'', JInt (doc_SizeBytes d)), (''created_at'', JTime (doc_CreatedAt d)),
        (''updated_at'', JTime (UpdatedAt d))]"

definition json_document :: "document \<Rightarrow> json" where
  "json_document d = JObj (json_document_fields d)"

definition json_page :: "document_page \<Rightarrow> json" where
  "json_page p = JObj [
     (''id'', JStr (page_ID p)), (''document_id'', JStr (page_DocumentID p)),
     (''page_number'', JInt (PageNumber p)), (''size_bytes'', JInt (page_SizeBytes p))]"

definition json_webhook :: "webhook_subscription \<Rightarrow> json" where
  "json_webhook w = JObj [
     (''id'', JStr (hook_ID w)), (''user_id'', JStr (hook_UserID w)),
     (''document_id'', JStr (hook_DocumentID w)), (''url'', JStr (hook_URL w)),
     (''created_at'', JTime (hook_CreatedAt w))]"

definition json_api_key_fields :: "api_key \<Rightarrow> (string \<times> json) list" where
  "json_api_key_fields k = [
     (''id'', JStr (key_ID k)), (''user_id'', JStr (key_UserID k)), (''name'', JStr (key_Name k)),
     (''prefix'', JStr (key_Prefix k))]
     @ omitempty ''last_used_at'' JTime (LastUsedAt k)
     @ [(''created_at'', JTime (key_CreatedAt k))]
     @ omitempty ''expires_at'' JTime (ExpiresAt k)"

definition json_api_key :: "api_key \<Rightarrow> json" where
  "json_api_key k = JObj (json_api_key_fields k)"

section \<open>What the encoders never show\<close>

lemma json_names_slice: "json_names (json_slice enc xs) = (\<Union>x \<in> set xs. json_names (enc x))"
  by (auto simp: json_slice_def)

lemma names_omitempty:
  "fst ` set (omitempty k enc v) \<subseteq> {k}"
  "(\<And>x. json_names (enc x) = {}) \<Longrightarrow> (\<Union>f \<in> set (omitempty k enc v). json_names (snd f)) = {}"
  by (auto simp: omitempty_def split: option.splits)

lemma json_file_names:
  "json_names (json_file f) \<subseteq> {''id'', ''user_id'', ''sha256'', ''size'', ''content_type'',
     ''original_name'', ''created_at'', ''deleted_at''}"
  by (auto simp: json_file_def omitempty_def split: option.splits)

lemma json_document_names:
  "json_names (json_document d) \<subseteq> {''id'', ''user_id'', ''filename'', ''sha256'', ''status'',
     ''total_pages'', ''error_message'', ''size_bytes'', ''created_at'', ''updated_at''}"
  by (auto simp: json_document_def json_document_fields_def omitempty_def split: option.splits)

lemma json_page_names:
  "json_names (json_page p) = {''id'', ''document_id'', ''page_number'', ''size_bytes''}"
  by (auto simp: json_page_def)

lemma json_api_key_names:
  "json_names (json_api_key k) \<subseteq> {''id'', ''user_id'', ''name'', ''prefix'', ''last_used_at'',
     ''created_at'', ''expires_at''}"
  by (auto simp: json_api_key_def json_api_key_fields_def omitempty_def split: option.splits)

end
