(* ===== verification/Gin.thy ===== *)
theory Gin
  imports Json
begin

text \<open>
  The part of the Gin web framework that the handlers and the middleware use: a
  request context, a response, and a chain of middleware in front of a handler.
\<close>

text \<open>What a response carries: nothing, a JSON value, or a ZIP attachment of the given file
  name: the entries of the archive, if one was begun, and a JSON value written after it
  when a late error was reported into the same body.\<close>

datatype payload =
    NoPayload
  | JSON json
  | Zip string "(string \<times> bytes) list option" "json option"

record response =
  resp_status :: int
  resp_payload :: payload

text \<open>\<open>c.JSON(status, v)\<close> and the ubiquitous \<open>gin.H{"error": ...}\<close>.\<close>

definition json_response :: "int \<Rightarrow> json \<Rightarrow> response" where
  "json_response status v = \<lparr>resp_status = status, resp_payload = JSON v\<rparr>"

definition error_response :: "int \<Rightarrow> string \<Rightarrow> response" where
  "error_response status msg = json_response status (JObj [(''error'', JStr msg)])"

text \<open>A handler that writes nothing: net/http then sends 200 with no body.\<close>

definition silent_response :: response where
  "silent_response = \<lparr>resp_status = 200, resp_payload = NoPayload\<rparr>"

text \<open>\<open>c.GetHeader\<close>, \<open>c.Param\<close>, the query parameters that are present, the body, and the
  values that \<open>c.Set\<close> stores; all values that the program stores are strings.\<close>

record gin_context =
  header :: "string \<Rightarrow> string"
  param :: "string \<Rightarrow> string"
  query :: "string \<Rightarrow> string option"
  req_body :: bytes
  keys :: "string \<Rightarrow> string option"

definition Query :: "gin_context \<Rightarrow> string \<Rightarrow> string" where
  "Query c k = (case query c k of None \<Rightarrow> [] | Some v \<Rightarrow> v)"

definition DefaultQuery :: "gin_context \<Rightarrow> string \<Rightarrow> string \<Rightarrow> string" where
  "DefaultQuery c k d = (case query c k of None \<Rightarrow> d | Some v \<Rightarrow> v)"

definition set_key :: "string \<Rightarrow> string \<Rightarrow> gin_context \<Rightarrow> gin_context" where
  "set_key k v c = c\<lparr>keys := (keys c)(k \<mapsto> v)\<rparr>"

text \<open>A middleware passes the (updated) context on or answers itself.\<close>

datatype outcome = Next gin_context | Abort response

type_synonym 's middleware = "gin_context \<Rightarrow> 's \<Rightarrow> outcome \<times> 's"
type_synonym 's handler = "gin_context \<Rightarrow> 's \<Rightarrow> response \<times> 's"

text \<open>A route: the middleware in order, then the handler.\<close>

fun serve :: "'s middleware list \<Rightarrow> 's handler \<Rightarrow> 's handler" where
  "serve [] h c s = h c s"
| "serve (m # ms) h c s =
     (case m c s of
        (Abort r, s') \<Rightarrow> (r, s')
      | (Next c', s') \<Rightarrow> serve ms h c' s')"

text \<open>A panic below a handler reaches the recovery middleware, which answers 500 with no
  body; for any other error the handler's own answer \<open>r\<close> counts.\<close>

definition unless_panic :: "go_error \<Rightarrow> response \<Rightarrow> response" where
  "unless_panic e r =
     (case e of Panic _ \<Rightarrow> \<lparr>resp_status = 500, resp_payload = NoPayload\<rparr> | _ \<Rightarrow> r)"

lemma unless_panic_simps [simp]:
  "unless_panic (Panic m) r = \<lparr>resp_status = 500, resp_payload = NoPayload\<rparr>"
  "(\<forall>m. e \<noteq> Panic m) \<Longrightarrow> unless_panic e r = r"
  by (auto simp: unless_panic_def split: go_error.splits)

lemma error_response_sel [simp]:
  "resp_status (error_response st m) = st" "resp_status (json_response st v) = st"
  "resp_payload (json_response st v) = JSON v"
  "resp_payload (error_response st m) = JSON (JObj [(''error'', JStr m)])"
  by (simp_all add: error_response_def json_response_def)

lemma set_key_sel [simp]:
  "keys (set_key k v c) = (keys c)(k \<mapsto> v)" "header (set_key k v c) = header c"
  "param (set_key k v c) = param c" "query (set_key k v c) = query c"
  "req_body (set_key k v c) = req_body c"
  by (simp_all add: set_key_def)

end
