(* ===== verification/Auth.thy ===== *)
theory Auth
  imports Gin
begin

text \<open>
  The authentication middleware, \<open>middleware/auth.go\<close> and
  \<open>middleware/apikey.go\<close>. The JWT library is a parameter; the API key store is
  reached through the interface \<open>APIKeyLookup\<close>, whose laws are the locale
  \<open>key_lookup\<close>.
\<close>

section \<open>Tokens\<close>

record claims =
  claims_UserID :: string
  claims_ExpiresAt :: "time option"
  claims_IssuedAt :: "time option"

text \<open>The type assertions of \<open>parseToken\<close>: \<open>t.Method\<close> is an HMAC method or not,
  \<open>t.Claims\<close> is a \<open>*Claims\<close> (\<open>Some\<close>) or not.\<close>

datatype signing_method = SigningMethodHMAC string | OtherMethod string

record jwt_token =
  Claims :: "claims option"
  Valid :: bool

text \<open>The library \<open>golang-jwt\<close>: parsing calls back for the key of the token's method,
  signing is with HS256.\<close>

record jwt =
  ParseWithClaims :: "string \<Rightarrow> (signing_method \<Rightarrow> go_error + bytes) \<Rightarrow> go_error + jwt_token"
  SignedString :: "claims \<Rightarrow> bytes \<Rightarrow> go_error + string"

definition UserIDKey :: string where "UserIDKey = ''user_id''"

definition GetUserID :: "gin_context \<Rightarrow> string" where
  "GetUserID c = (case keys c UserIDKey of None \<Rightarrow> '''' | Some s \<Rightarrow> s)"

definition extractToken :: "gin_context \<Rightarrow> go_error + string" where
  "extractToken c =
     (let hdr = header c ''Authorization''
      in if hdr = '''' then Inl (Opaque ''authorization header missing'')
         else let parts = split_space hdr
              in if length parts \<noteq> 2 \<or> \<not> equal_fold (parts ! 0) ''Bearer''
                 then Inl (Opaque ''authorization header must be: Bearer <token>'')
                 else if parts ! 1 = '''' then Inl (Opaque ''token is empty'')
                 else Inr (parts ! 1))"

definition hmac_keyfunc :: "bytes \<Rightarrow> signing_method \<Rightarrow> go_error + bytes" where
  "hmac_keyfunc secret m =
     (case m of
        SigningMethodHMAC _ \<Rightarrow> Inr secret
      | OtherMethod _ \<Rightarrow> Inl (Opaque ''unexpected signing method''))"

definition parseToken :: "jwt \<Rightarrow> string \<Rightarrow> bytes \<Rightarrow> go_error + claims" where
  "parseToken lib tokenStr secret =
     and_then (ParseWithClaims lib tokenStr (hmac_keyfunc secret)) (\<lambda>t.
       case Claims t of
         None \<Rightarrow> Inl (Opaque ''invalid token claims'')
       | Some cl \<Rightarrow> if \<not> Valid t then Inl (Opaque ''invalid token claims'') else Inr cl)"

definition Auth :: "jwt \<Rightarrow> bytes \<Rightarrow> 's middleware" where
  "Auth lib secret c s =
     (case extractToken c of
        Inl e \<Rightarrow> (Abort (error_response 401 (err_text e)), s)
      | Inr token \<Rightarrow>
          (case parseToken lib token secret of
             Inl e \<Rightarrow> (Abort (error_response 401 ''invalid or expired token''), s)
           | Inr cl \<Rightarrow> (Next (set_key UserIDKey (claims_UserID cl) c), s)))"

section \<open>API keys\<close>

text \<open>The interface \<open>APIKeyLookup\<close>.\<close>

record 's api_key_lookup =
  lookup_GetByHash :: "string \<Rightarrow> 's \<Rightarrow> go_error + api_key"
  TouchLastUsed :: "string \<Rightarrow> 's \<Rightarrow> 's"

definition apiKeyHeader :: string where "apiKeyHeader = ''X-API-Key''"

definition APIKeyAuth :: "'s api_key_lookup \<Rightarrow> 's middleware" where
  "APIKeyAuth store c s =
     (let raw = header c apiKeyHeader
      in if raw = '''' then (Abort (error_response 401 ''X-API-Key header missing''), s)
         else case lookup_GetByHash store raw s of
                Inl e \<Rightarrow> (Abort (error_response 401 ''invalid or expired API key''), s)
              | Inr key \<Rightarrow>
                  (Next (set_key UserIDKey (key_UserID key) c), TouchLastUsed store (key_ID key) s))"

definition FlexAuth :: "jwt \<Rightarrow> bytes \<Rightarrow> 's api_key_lookup \<Rightarrow> 's middleware" where
  "FlexAuth lib secret store c s =
     (if has_prefix (to_lower (header c ''Authorization'')) ''bearer '' then Auth lib secret c s
      else if header c apiKeyHeader \<noteq> '''' then APIKeyAuth store c s
      else (Abort (error_response 401
              ''provide either Authorization: Bearer <jwt> or X-API-Key: <key>''), s))"

section \<open>Bearer headers\<close>

lemma extractToken_Inr:
  "extractToken c = Inr t \<longleftrightarrow>
     t \<noteq> '''' \<and> (\<exists>scheme. header c ''Authorization'' = scheme @ '' '' @ t \<and>
       CHR '' '' \<notin> set scheme \<and> equal_fold scheme ''Bearer'')"
proof
  assume "extractToken c = Inr t"
  then have len: "length (split_space (header c ''Authorization'')) = 2"
    and rest: "equal_fold (split_space (header c ''Authorization'') ! 0) ''Bearer''"
      "t = split_space (header c ''Authorization'') ! 1" "t \<noteq> ''''"
    by (auto simp: extractToken_def Let_def split: if_splits)
  from len obtain p q where "split_space (header c ''Authorization'') = [p, q]"
    using split_space_cases[of "header c ''Authorization''"] by auto
  with rest show "t \<noteq> '''' \<and> (\<exists>scheme. header c ''Authorization'' = scheme @ '' '' @ t \<and>
       CHR '' '' \<notin> set scheme \<and> equal_fold scheme ''Bearer'')"
    by (auto simp: split_space_two)
next
  assume "t \<noteq> '''' \<and> (\<exists>scheme. header c ''Authorization'' = scheme @ '' '' @ t \<and>
       CHR '' '' \<notin> set scheme \<and> equal_fold scheme ''Bearer'')"
  then obtain scheme where "t \<noteq> ''''" "header c ''Authorization'' = scheme @ CHR '' '' # t"
    "CHR '' '' \<notin> set scheme" "equal_fold scheme ''Bearer''"
    by auto
  then show "extractToken c = Inr t"
    by (simp add: extractToken_def split_space_append)
qed

lemma parseToken_Inr:
  "parseToken lib tok secret = Inr cl \<longleftrightarrow>
     (\<exists>t. ParseWithClaims lib tok (hmac_keyfunc secret) = Inr t \<and> Claims t = Some cl \<and> Valid t)"
  by (auto simp: parseToken_def split: option.splits if_splits)

lemma GetUserID_set [simp]: "GetUserID (set_key UserIDKey u c) = u"
  by (simp add: GetUserID_def)

lemma Auth_Next:
  "Auth lib secret c s = (Next c', s') \<longleftrightarrow>
     s' = s \<and> (\<exists>t cl. extractToken c = Inr t \<and> parseToken lib t secret = Inr cl \<and>
       c' = set_key UserIDKey (claims_UserID cl) c)"
  by (auto simp: Auth_def split: sum.splits)

lemma Auth_Abort: "Auth lib secret c s = (Abort r, s') \<Longrightarrow> resp_status r = 401 \<and> s' = s"
  by (auto simp: Auth_def split: sum.splits)

lemma APIKeyAuth_Next:
  "APIKeyAuth store c s = (Next c', s') \<longleftrightarrow>
     (\<exists>key. header c apiKeyHeader \<noteq> '''' \<and> lookup_GetByHash store (header c apiKeyHeader) s = Inr key \<and>
       c' = set_key UserIDKey (key_UserID key) c \<and> s' = TouchLastUsed store (key_ID key) s)"
  by (auto simp: APIKeyAuth_def Let_def split: sum.splits if_splits)

lemma APIKeyAuth_Abort: "APIKeyAuth store c s = (Abort r, s') \<Longrightarrow> resp_status r = 401 \<and> s' = s"
  by (auto simp: APIKeyAuth_def Let_def split: sum.splits if_splits)

text \<open>The scheme test of \<open>FlexAuth\<close> implies that of \<open>extractToken\<close>, so a header that
  takes the JWT path is refused only for its token.\<close>

lemma to_lower_Cons:
  "to_lower s = b # r \<Longrightarrow> b \<noteq> CHR ''i'' \<Longrightarrow> b \<noteq> CHR ''k'' \<Longrightarrow>
     \<exists>c cs. s = c # cs \<and> lower_ascii c = b \<and> to_lower cs = r"
  by (cases s, simp, simp only: to_lower.simps(2))
     (auto simp del: to_lower.simps(2) split: list.splits if_splits)

lemma lower_ascii_space: "lower_ascii c = CHR '' '' \<longleftrightarrow> c = CHR '' ''"
proof
  assume l: "lower_ascii c = CHR '' ''"
  show "c = CHR '' ''"
  proof (cases "of_char c \<in> {65..90::nat}")
    case True
    then have "of_char (lower_ascii c) = (of_char c + 32 :: nat)"
      by (simp add: lower_ascii_def)
    with l True show ?thesis by simp
  next
    case False
    with l show ?thesis by (auto simp: lower_ascii_def split: if_splits)
  qed
next
  assume "c = CHR '' ''"
  then show "lower_ascii c = CHR '' ''" by (simp add: lower_ascii_def)
qed

lemma has_prefix_append: "has_prefix s p \<longleftrightarrow> (\<exists>r. s = p @ r)"
  by (metis append_eq_conv_conj append_take_drop_id has_prefix_def)

lemma bearer_prefix:
  assumes "has_prefix (to_lower h) ''bearer ''"
  obtains scheme t where "h = scheme @ '' '' @ t" "CHR '' '' \<notin> set scheme" "equal_fold scheme ''Bearer''"
proof -
  from assms obtain r where r: "to_lower h = ''bearer '' @ r" by (auto simp: has_prefix_append)
  then obtain c1 c2 c3 c4 c5 c6 c7 t where h: "h = [c1, c2, c3, c4, c5, c6, c7] @ t"
    and low: "map lower_ascii [c1, c2, c3, c4, c5, c6] = ''bearer''" "lower_ascii c7 = CHR '' ''"
    by (fastforce dest!: to_lower_Cons)
  have "CHR '' '' \<notin> lower_ascii ` set [c1, c2, c3, c4, c5, c6]"
    unfolding set_map[symmetric] low(1) by simp
  then have "CHR '' '' \<notin> set [c1, c2, c3, c4, c5, c6]"
    using lower_ascii_space by (metis imageI)
  moreover have "map lower_ascii ''Bearer'' = ''bearer''" by code_simp
  then have "equal_fold [c1, c2, c3, c4, c5, c6] ''Bearer''"
    unfolding equal_fold_def low(1) by simp
  ultimately show thesis using that[of "[c1, c2, c3, c4, c5, c6]" t] h low(2)
    by (simp add: lower_ascii_space)
qed

lemma extractToken_bearer:
  assumes "has_prefix (to_lower (header c ''Authorization'')) ''bearer ''"
  shows "(\<exists>t. extractToken c = Inr t) \<or> extractToken c = Inl (Opaque ''token is empty'')"
proof -
  from assms obtain scheme t where s: "header c ''Authorization'' = scheme @ CHR '' '' # t"
    "CHR '' '' \<notin> set scheme" "equal_fold scheme ''Bearer''"
    by (rule bearer_prefix) simp
  then show ?thesis by (simp add: extractToken_def split_space_append)
qed

section \<open>The laws of the key store\<close>

text \<open>
  What the middleware relies on: \<open>creds s\<close> is the relation of raw keys to the users
  they authenticate at a state; a lookup answers from it, and marking a key as used
  does not change it.
\<close>

locale key_lookup =
  fixes store :: "'s api_key_lookup"
    and creds :: "'s \<Rightarrow> string \<Rightarrow> uuid \<Rightarrow> bool"
  assumes lookup_sound: "lookup_GetByHash store raw s = Inr k \<Longrightarrow> creds s raw (key_UserID k)"
    and touch_creds: "creds (TouchLastUsed store i s) raw u = creds s raw u"
begin

lemma APIKeyAuth_user:
  "APIKeyAuth store c s = (Next c', s') \<Longrightarrow> creds s (header c apiKeyHeader) (GetUserID c')"
  using lookup_sound by (auto simp: APIKeyAuth_Next)

lemma FlexAuth_user:
  assumes "FlexAuth lib secret store c s = (Next c', s')"
  shows "(\<exists>t cl. extractToken c = Inr t \<and> parseToken lib t secret = Inr cl \<and> GetUserID c' = claims_UserID cl) \<or>
     creds s (header c apiKeyHeader) (GetUserID c')"
  using assms APIKeyAuth_user by (fastforce simp: FlexAuth_def Auth_Next split: if_splits)

lemma FlexAuth_creds: "FlexAuth lib secret store c s = (out, s') \<Longrightarrow> creds s' = creds s"
  by (auto simp: FlexAuth_def Auth_def APIKeyAuth_def Let_def touch_creds fun_eq_iff
      split: if_splits sum.splits)

lemma FlexAuth_frame:
  "FlexAuth lib secret store c s = (Next c', s') \<Longrightarrow>
     header c' = header c \<and> param c' = param c \<and> query c' = query c \<and> req_body c' = req_body c"
  by (auto simp: FlexAuth_def Auth_Next APIKeyAuth_Next split: if_splits)

end

lemma FlexAuth_Abort: "FlexAuth lib secret store c s = (Abort r, s') \<Longrightarrow> resp_status r = 401 \<and> s' = s"
  by (auto simp: FlexAuth_def split: if_splits dest: Auth_Abort APIKeyAuth_Abort)

end
