(* ===== verification/RateLimit.thy ===== *)
theory RateLimit
  imports Auth
begin

text \<open>
  The per-user sliding-window rate limiter of \<open>middleware/ratelimit.go\<close>:
  \<open>allow\<close> (with its in-place pruning loop), the periodic \<open>cleanup\<close>, and the
  \<open>Limit\<close> middleware's decision.
\<close>

section \<open>State\<close>

text \<open>The Go map \<open>windows\<close> from user to the times of the accepted requests; its
  mutex makes every operation below one step.\<close>

record rate_limiter =
  windows :: "string \<Rightarrow> time list option"
  rl_limit :: int
  rl_window :: duration

definition NewRateLimiter :: "int \<Rightarrow> duration \<Rightarrow> rate_limiter" where
  "NewRateLimiter limit window =
     \<lparr>windows = (\<lambda>_. None), rl_limit = limit, rl_window = window\<rparr>"

section \<open>Operations\<close>

text \<open>
  The pruning loop writes the surviving timestamps over the front of the slice
  it reads (\<open>valid := timestamps[:0]\<close>): \<open>i\<close> is the read index, \<open>w\<close> the
  length of \<open>valid\<close>, and both share \<open>arr\<close>.
\<close>

function compact :: "('a \<Rightarrow> bool) \<Rightarrow> nat \<Rightarrow> nat \<Rightarrow> 'a list \<Rightarrow> 'a list" where
  "compact keep i w arr =
     (if i < length arr
      then if keep (arr ! i)
           then compact keep (Suc i) (Suc w) (arr[w := arr ! i])
           else compact keep (Suc i) w arr
      else take w arr)"
  by pat_completeness auto
termination
  by (relation "measure (\<lambda>(keep, i, w, arr). length arr - i)") auto

declare compact.simps [simp del]

definition allow :: "string \<Rightarrow> time \<Rightarrow> rate_limiter \<Rightarrow> bool \<times> rate_limiter" where
  "allow userID t_now rl =
     (let cutoff = t_now - rl_window rl;
          timestamps = (case windows rl userID of None \<Rightarrow> [] | Some ts \<Rightarrow> ts);
          valid = compact (\<lambda>t. cutoff < t) 0 0 timestamps
      in if rl_limit rl \<le> int (length valid)
         then (False, rl\<lparr>windows := (windows rl)(userID \<mapsto> valid)\<rparr>)
         else (True, rl\<lparr>windows := (windows rl)(userID \<mapsto> valid @ [t_now])\<rparr>))"

text \<open>One tick of the background goroutine: users with no timestamp inside the
  window lose their entry.\<close>

definition cleanup :: "time \<Rightarrow> rate_limiter \<Rightarrow> rate_limiter" where
  "cleanup t_now rl =
     (let cutoff = t_now - rl_window rl
      in rl\<lparr>windows := (\<lambda>userID.
            case windows rl userID of
              None \<Rightarrow> None
            | Some timestamps \<Rightarrow>
                if list_ex (\<lambda>t. cutoff < t) timestamps then Some timestamps else None)\<rparr>)"

text \<open>The middleware: a request without a user passes unlimited, a refused one is
  answered 429. \<open>window.Seconds()\<close> is cut to whole seconds.\<close>

definition Limit :: "time \<Rightarrow> rate_limiter middleware" where
  "Limit t_now c rl =
     (let userID = GetUserID c
      in if userID = '''' then (Next c, rl)
         else case allow userID t_now rl of
                (False, rl') \<Rightarrow>
                  (Abort (json_response 429 (JObj
                     [(''error'', JStr (''upload rate limit exceeded '' @ [CHR 0xE2, CHR 0x80, CHR 0x94] @ '' please slow down'')),
                      (''limit'', JInt (rl_limit rl)),
                      (''window_seconds'', JInt (rl_window rl div second))])), rl')
              | (True, rl') \<Rightarrow> (Next c, rl'))"

section \<open>The pruning loop is a filter\<close>

lemma compact_filter:
  "w \<le> i \<Longrightarrow> i \<le> length arr \<Longrightarrow>
     compact keep i w arr = take w arr @ filter keep (drop i arr)"
proof (induction keep i w arr rule: compact.induct)
  case (1 keep i w arr)
  show ?case
  proof (cases "i < length arr")
    case False
    with "1.prems" have "i = length arr" by simp
    then show ?thesis by (subst compact.simps) simp
  next
    case True
    then have d: "drop i arr = arr ! i # drop (Suc i) arr"
      by (simp add: Cons_nth_drop_Suc)
    show ?thesis
    proof (cases "keep (arr ! i)")
      case False
      with True "1.IH"(2) "1.prems" d show ?thesis
        by (simp add: compact.simps[of keep i w arr])
    next
      case keep: True
      have "compact keep i w arr = compact keep (Suc i) (Suc w) (arr[w := arr ! i])"
        using True keep by (simp add: compact.simps[of keep i w arr])
      also have "\<dots> = take (Suc w) (arr[w := arr ! i])
          @ filter keep (drop (Suc i) (arr[w := arr ! i]))"
        using "1.IH"(1) True keep "1.prems" by simp
      also have "\<dots> = take w arr @ filter keep (drop i arr)"
        using True keep "1.prems" d by (simp add: take_Suc_conv_app_nth)
      finally show ?thesis .
    qed
  qed
qed

lemma compact_is_filter [simp]: "compact keep 0 0 arr = filter keep arr"
  using compact_filter[of 0 0 arr keep] by simp

section \<open>Runs of the limiter\<close>

text \<open>
  A run is the sequence in which requests (a user and the clock reading) and
  cleanup ticks take the mutex. The clock is monotonic, but \<open>allow\<close> and
  \<open>cleanup\<close> read it before they lock, so two goroutines can take the mutex in
  the opposite order of their readings: \<open>sorted (map ev_time evs)\<close> says of a run
  that this did not happen.
\<close>

datatype rl_event = Request string time | Tick time

fun ev_time :: "rl_event \<Rightarrow> time" where
  "ev_time (Request u t) = t"
| "ev_time (Tick t) = t"

fun rl_run :: "rate_limiter \<Rightarrow> rl_event list \<Rightarrow> bool list" where
  "rl_run rl [] = []"
| "rl_run rl (Request u t # evs) = (case allow u t rl of (b, rl') \<Rightarrow> b # rl_run rl' evs)"
| "rl_run rl (Tick t # evs) = rl_run (cleanup t rl) evs"

text \<open>The times at which the code let requests of \<open>u\<close> through.\<close>

fun accepted :: "string \<Rightarrow> rate_limiter \<Rightarrow> rl_event list \<Rightarrow> time list" where
  "accepted u rl [] = []"
| "accepted u rl (Request v t # evs) =
     (case allow v t rl of (b, rl') \<Rightarrow> (if b \<and> v = u then [t] else []) @ accepted u rl' evs)"
| "accepted u rl (Tick t # evs) = accepted u (cleanup t rl) evs"

fun rl_final :: "rate_limiter \<Rightarrow> rl_event list \<Rightarrow> rate_limiter" where
  "rl_final rl [] = rl"
| "rl_final rl (Request u t # evs) = rl_final (snd (allow u t rl)) evs"
| "rl_final rl (Tick t # evs) = rl_final (cleanup t rl) evs"

section \<open>Specification: count the accepted requests of the last window\<close>

text \<open>
  The specification keeps every accepted request for ever and has no cleanup: a
  request passes iff fewer than \<open>limit\<close> were accepted in the window that ends
  now.
\<close>

definition recent :: "duration \<Rightarrow> time \<Rightarrow> time list \<Rightarrow> time list" where
  "recent w t_now h = filter (\<lambda>t. t_now - w < t) h"

fun spec_run :: "int \<Rightarrow> duration \<Rightarrow> (string \<Rightarrow> time list) \<Rightarrow> rl_event list \<Rightarrow> bool list" where
  "spec_run l w h [] = []"
| "spec_run l w h (Request u t # evs) =
     (if int (length (recent w t (h u))) < l
      then True # spec_run l w (h(u := h u @ [t])) evs
      else False # spec_run l w h evs)"
| "spec_run l w h (Tick t # evs) = spec_run l w h evs"

section \<open>Simulation\<close>

definition stored :: "rate_limiter \<Rightarrow> string \<Rightarrow> time list" where
  "stored rl u = (case windows rl u of None \<Rightarrow> [] | Some ts \<Rightarrow> ts)"

text \<open>At time \<open>T\<close> the limiter and the history agree on every window that can still
  matter.\<close>

definition sim :: "time \<Rightarrow> rate_limiter \<Rightarrow> (string \<Rightarrow> time list) \<Rightarrow> bool" where
  "sim T rl h \<longleftrightarrow> (\<forall>u c. T - rl_window rl \<le> c \<longrightarrow>
     filter (\<lambda>t. c < t) (stored rl u) = filter (\<lambda>t. c < t) (h u))"

lemma allow_eq:
  "allow u t_now rl =
     (let valid = filter (\<lambda>t. t_now - rl_window rl < t) (stored rl u)
      in if int (length valid) < rl_limit rl
         then (True, rl\<lparr>windows := (windows rl)(u \<mapsto> valid @ [t_now])\<rparr>)
         else (False, rl\<lparr>windows := (windows rl)(u \<mapsto> valid)\<rparr>))"
  by (simp add: allow_def Let_def stored_def)

lemma allow_params [simp]:
  "rl_limit (snd (allow u t_now rl)) = rl_limit rl"
  "rl_window (snd (allow u t_now rl)) = rl_window rl"
  by (simp_all add: allow_eq Let_def)

lemma cleanup_params [simp]:
  "rl_limit (cleanup t_now rl) = rl_limit rl"
  "rl_window (cleanup t_now rl) = rl_window rl"
  by (simp_all add: cleanup_def Let_def)

lemma stored_new [simp]: "stored (NewRateLimiter l w) u = []"
  by (simp add: stored_def NewRateLimiter_def)

lemma stored_update [simp]:
  "stored (rl\<lparr>windows := (windows rl)(v \<mapsto> ts)\<rparr>) u = (if u = v then ts else stored rl u)"
  by (simp add: stored_def)

lemma stored_allow:
  "stored (snd (allow v t_now rl)) u =
     (if u = v then filter (\<lambda>t. t_now - rl_window rl < t) (stored rl v)
                    @ (if fst (allow v t_now rl) then [t_now] else [])
      else stored rl u)"
  by (simp add: allow_eq Let_def)

lemma stored_cleanup:
  "stored (cleanup t_now rl) u =
     (if list_ex (\<lambda>t. t_now - rl_window rl < t) (stored rl u) then stored rl u else [])"
  by (auto simp: stored_def cleanup_def Let_def split: option.splits)

lemma sim_new: "sim T (NewRateLimiter l w) (\<lambda>_. [])"
  by (simp add: sim_def)

lemma sim_later: "sim T rl h \<Longrightarrow> T \<le> T' \<Longrightarrow> sim T' rl h"
  by (simp add: sim_def)

lemma filter_later [simp]:
  "(b::int) \<le> c \<Longrightarrow> filter (\<lambda>t. c < t \<and> b < t) ts = filter (\<lambda>t. c < t) ts"
  "(b::int) \<le> c \<Longrightarrow> filter (\<lambda>t. b < t \<and> c < t) ts = filter (\<lambda>t. c < t) ts"
  by (induction ts) auto

lemma sim_cleanup:
  assumes "sim t_now rl h"
  shows "sim t_now (cleanup t_now rl) h"
proof -
  have "filter (\<lambda>t. c < t) (stored (cleanup t_now rl) u) = filter (\<lambda>t. c < t) (stored rl u)"
    if "t_now - rl_window rl \<le> c" for c u
  proof (cases "list_ex (\<lambda>t. t_now - rl_window rl < t) (stored rl u)")
    case True
    then show ?thesis by (simp add: stored_cleanup)
  next
    case False
    with that have "\<forall>t \<in> set (stored rl u). \<not> c < t" by (force simp: list_ex_iff)
    with False show ?thesis by (simp add: stored_cleanup filter_empty_conv)
  qed
  with assms show ?thesis by (simp add: sim_def)
qed

lemma sim_decision:
  assumes "sim t_now rl h"
  shows "fst (allow v t_now rl) \<longleftrightarrow> int (length (recent (rl_window rl) t_now (h v))) < rl_limit rl"
  using assms by (simp add: sim_def allow_eq recent_def Let_def)

lemma sim_allow:
  assumes "sim t_now rl h"
  shows "sim t_now (snd (allow v t_now rl))
           (if fst (allow v t_now rl) then h(v := h v @ [t_now]) else h)"
  using assms by (simp add: sim_def stored_allow)

lemma sim_run:
  "sim T rl h \<Longrightarrow> sorted (map ev_time evs) \<Longrightarrow> (\<forall>e \<in> set evs. T \<le> ev_time e) \<Longrightarrow>
     rl_run rl evs = spec_run (rl_limit rl) (rl_window rl) h evs"
proof (induction evs arbitrary: T rl h)
  case Nil
  then show ?case by simp
next
  case (Cons e evs)
  then have s: "sim (ev_time e) rl h" and later: "\<forall>e' \<in> set evs. ev_time e \<le> ev_time e'"
    and srt: "sorted (map ev_time evs)"
    by (auto intro: sim_later)
  show ?case
  proof (cases e)
    case (Tick t)
    with Cons.IH[OF sim_cleanup srt] s later show ?thesis by simp
  next
    case (Request u t)
    with s have s: "sim t rl h" by simp
    from Cons.IH[OF sim_allow[OF s] srt] later Request
    have "rl_run (snd (allow u t rl)) evs = spec_run (rl_limit rl) (rl_window rl)
            (if fst (allow u t rl) then h(u := h u @ [t]) else h) evs"
      by simp
    with sim_decision[OF s, of u] Request show ?thesis
      by (auto simp: case_prod_unfold)
  qed
qed

section \<open>No window holds more than \<open>limit\<close> accepted requests\<close>

definition in_window :: "duration \<Rightarrow> time \<Rightarrow> time list \<Rightarrow> time list" where
  "in_window w x ts = filter (\<lambda>t. x - w < t \<and> t \<le> x) ts"

lemma in_window_append_new:
  assumes old: "\<And>x. int (length (in_window w x h)) \<le> max 0 l"
    and past: "\<And>t. t \<in> set h \<Longrightarrow> t \<le> t_now"
    and few: "int (length (recent w t_now h)) < l"
  shows "int (length (in_window w x (h @ [t_now]))) \<le> max 0 l"
proof (cases "x - w < t_now \<and> t_now \<le> x")
  case False
  then show ?thesis using old[of x] by (auto simp: in_window_def)
next
  case True
  have "length (in_window w x h) \<le> length (recent w t_now h)"
    unfolding in_window_def recent_def using True
    by (induction h) auto
  with few True show ?thesis by (simp add: in_window_def)
qed

lemma accepted_in_window:
  assumes "sim T rl h" and "sorted (map ev_time evs)" and "\<forall>e \<in> set evs. T \<le> ev_time e"
    and "\<And>t. t \<in> set (h u) \<Longrightarrow> t \<le> T"
    and "\<And>x. int (length (in_window (rl_window rl) x (h u))) \<le> max 0 (rl_limit rl)"
  shows "int (length (in_window (rl_window rl) x (h u @ accepted u rl evs)))
           \<le> max 0 (rl_limit rl)"
  using assms
proof (induction evs arbitrary: T rl h)
  case Nil
  then show ?case by simp
next
  case (Cons e evs)
  then have s: "sim (ev_time e) rl h" and later: "\<forall>e' \<in> set evs. ev_time e \<le> ev_time e'"
    and srt: "sorted (map ev_time evs)"
    by (auto intro: sim_later)
  have past: "t \<le> ev_time e" if "t \<in> set (h u)" for t
    using Cons.prems(3) Cons.prems(4)[OF that] by simp
  show ?case
  proof (cases e)
    case (Tick t)
    with Cons.IH[OF sim_cleanup srt _ past] s later Cons.prems(5) show ?thesis by simp
  next
    case (Request v t)
    define b where "b = fst (allow v t rl)"
    define h' where "h' = (if b then h(v := h v @ [t]) else h)"
    from s Request have s: "sim t rl h" by simp
    have "int (length (in_window (rl_window rl) x (h' u))) \<le> max 0 (rl_limit rl)" for x
      using in_window_append_new[of "rl_window rl" "h u" "rl_limit rl" t x]
        Cons.prems(5) past Request sim_decision[OF s, of v]
      by (auto simp: h'_def b_def)
    moreover have "t' \<in> set (h' u) \<Longrightarrow> t' \<le> t" for t'
      using past Request by (auto simp: h'_def split: if_splits)
    moreover have "sim t (snd (allow v t rl)) h'"
      using sim_allow[OF s, of v] by (simp add: h'_def b_def)
    ultimately have "int (length (in_window (rl_window rl) x
        (h' u @ accepted u (snd (allow v t rl)) evs))) \<le> max 0 (rl_limit rl)"
      using Cons.IH[of t "snd (allow v t rl)" h'] srt later Request by simp
    moreover have "h' u @ accepted u (snd (allow v t rl)) evs = h u @ accepted u rl (e # evs)"
      using Request by (auto simp: h'_def b_def case_prod_unfold)
    ultimately show ?thesis by simp
  qed
qed

section \<open>Memory\<close>

definition rl_bounded :: "rate_limiter \<Rightarrow> bool" where
  "rl_bounded rl \<longleftrightarrow> (\<forall>u. int (length (stored rl u)) \<le> max 0 (rl_limit rl))"

lemma rl_bounded_allow: "rl_bounded rl \<Longrightarrow> rl_bounded (snd (allow v t_now rl))"
  using order_trans[OF of_nat_mono[OF length_filter_le]]
  by (fastforce simp: rl_bounded_def stored_allow allow_eq Let_def)

lemma rl_bounded_cleanup: "rl_bounded rl \<Longrightarrow> rl_bounded (cleanup t_now rl)"
  by (simp add: rl_bounded_def stored_cleanup)

lemma rl_bounded_final: "rl_bounded rl \<Longrightarrow> rl_bounded (rl_final rl evs)"
  by (induction rl evs rule: rl_final.induct) (simp_all add: rl_bounded_allow rl_bounded_cleanup)

end
