(* ===== verification/RateLimitClaims.thy ===== *)
theory RateLimitClaims
  imports RateLimit
begin

text \<open>
  The properties of the rate limiter: when its requests lock it in the order of their clock
  readings, it is the unbounded-history limiter that its comment promises, and no window
  of any user holds more than the limit; and its memory is bounded.
\<close>

text \<open>C9: The limiter, with its in-place pruning and its background cleanup, decides
  every request of every run whose clock readings are in order exactly as the
  specification does that keeps the whole history and never prunes: a request passes
  iff fewer than \<open>limit\<close> requests of its user passed in the window ending now.\<close>

theorem limiter_refines_history:
  assumes "sorted (map ev_time evs)"
  shows "rl_run (NewRateLimiter limit window) evs = spec_run limit window (\<lambda>_. []) evs"
proof (cases evs)
  case Nil
  then show ?thesis by simp
next
  case (Cons e es)
  then have "\<forall>e' \<in> set evs. ev_time e \<le> ev_time e'" using assms by auto
  then have "rl_run (NewRateLimiter limit window) evs
      = spec_run (rl_limit (NewRateLimiter limit window)) (rl_window (NewRateLimiter limit window)) (\<lambda>_. []) evs"
    by (intro sim_run[OF sim_new assms])
  then show ?thesis by (simp add: NewRateLimiter_def)
qed

definition demo_events :: "rl_event list" where
  "demo_events = [Request ''a'' 0, Request ''a'' 1, Request ''a'' 2, Request ''b'' 3, Tick 11, Request ''a'' 11,
     Request ''a'' 11]"

theorem limiter_refines_history_witness:
  "rl_run (NewRateLimiter 2 10) demo_events = [True, True, False, True, True, True] \<and>
   spec_run 2 10 (\<lambda>_. []) demo_events = [True, True, False, True, True, True]"
proof -
  have "spec_run 2 10 (\<lambda>_. []) demo_events = [True, True, False, True, True, True]"
    by (simp add: demo_events_def recent_def)
  with limiter_refines_history[of demo_events 2 10] show ?thesis by (simp add: demo_events_def)
qed

text \<open>C34: As long as the requests take the limiter's mutex in the order of their clock readings,
  no window of length \<open>window\<close>, wherever it ends, holds more than \<open>limit\<close> accepted requests of
  a user.\<close>

theorem window_never_exceeded:
  assumes "sorted (map ev_time evs)"
  shows "int (length (in_window window x (accepted u (NewRateLimiter limit window) evs))) \<le> max 0 limit"
proof -
  have "\<exists>T. \<forall>e \<in> set evs. T \<le> ev_time e" using assms by (cases evs) auto
  then obtain T where T: "\<forall>e \<in> set evs. T \<le> ev_time e" by blast
  have "int (length (in_window (rl_window (NewRateLimiter limit window)) x
      ((\<lambda>_. []) u @ accepted u (NewRateLimiter limit window) evs)))
      \<le> max 0 (rl_limit (NewRateLimiter limit window))"
    by (rule accepted_in_window[OF sim_new assms T]) (simp_all add: in_window_def)
  then show ?thesis by (simp add: NewRateLimiter_def)
qed

theorem window_never_exceeded_witness:
  "in_window 10 11 (accepted ''a'' (NewRateLimiter 2 10) demo_events) = [11, 11] \<and>
   int (length (in_window 10 11 (accepted ''a'' (NewRateLimiter 2 10) demo_events))) \<le> 2"
proof -
  have "accepted ''a'' (NewRateLimiter 2 10) demo_events = [0, 1, 11, 11]" by code_simp
  with window_never_exceeded[of demo_events 10 11 "''a''" 2] show ?thesis
    by (simp add: demo_events_def in_window_def)
qed

text \<open>Readings out of order are not covered, and rightly so: \<open>allow\<close> reads the
  clock before it locks, and a request that prunes with a late reading forgets what an
  earlier reading, locked after it, would still have counted. Here a limiter with limit
  3 lets five requests pass in one window.\<close>

theorem late_lock_exceeds_limit:
  "length (in_window 10 9 (accepted ''a'' (NewRateLimiter 3 10)
     [Request ''a'' 0, Request ''a'' 0, Request ''a'' 0, Request ''a'' 10, Request ''a'' 9, Request ''a'' 9])) = 5"
proof -
  have "accepted ''a'' (NewRateLimiter 3 10)
     [Request ''a'' 0, Request ''a'' 0, Request ''a'' 0, Request ''a'' 10, Request ''a'' 9, Request ''a'' 9]
     = [0, 0, 0, 10, 9, 9]" by code_simp
  then show ?thesis by (simp add: in_window_def)
qed

text \<open>Bounded memory: whatever happens, the limiter never stores more than
  \<open>limit\<close> time stamps for a user, and after a cleanup it stores an entry only for
  users with a request inside the window.\<close>

theorem limiter_memory_bounded:
  "(\<forall>ts. windows (rl_final (NewRateLimiter limit window) evs) u = Some ts \<longrightarrow> int (length ts) \<le> max 0 limit) \<and>
   (\<forall>ts. windows (cleanup t (rl_final (NewRateLimiter limit window) evs)) u = Some ts \<longrightarrow>
      (\<exists>x \<in> set ts. t - window < x))"
proof -
  have par: "rl_limit (rl_final rl es) = rl_limit rl" "rl_window (rl_final rl es) = rl_window rl" for rl es
    by (induction rl es rule: rl_final.induct) simp_all
  have "rl_bounded (rl_final (NewRateLimiter limit window) evs)"
    by (rule rl_bounded_final) (simp add: rl_bounded_def)
  moreover have "rl_limit (NewRateLimiter limit window) = limit" "rl_window (NewRateLimiter limit window) = window"
    by (simp_all add: NewRateLimiter_def)
  ultimately show ?thesis
    by (auto simp: rl_bounded_def par stored_def cleanup_def Let_def list_ex_iff dest!: spec[of _ u]
        split: option.splits if_splits)
qed

theorem limiter_memory_bounded_witness:
  "windows (rl_final (NewRateLimiter 2 10) demo_events) ''a'' = Some [11, 11] \<and>
   int (length [11, 11 :: int]) \<le> max 0 2"
proof -
  have w: "windows (rl_final (NewRateLimiter 2 10) demo_events) ''a'' = Some [11, 11]" by code_simp
  with limiter_memory_bounded[of 2 10 demo_events "''a''"] show ?thesis by simp
qed

text \<open>A limit of zero disables nothing: such a limiter answers 429 to every request
  of a user at once and for ever.\<close>

lemma limit_zero_refuses:
  assumes "limit \<le> 0" and "GetUserID c \<noteq> ''''"
  shows "\<exists>r rl'. Limit t c (rl_final (NewRateLimiter limit window) evs) = (Abort r, rl') \<and> resp_status r = 429"
proof -
  have "rl_limit (rl_final rl es) = rl_limit rl" for rl es
    by (induction rl es rule: rl_final.induct) simp_all
  then have "rl_limit (rl_final (NewRateLimiter limit window) evs) \<le> 0"
    using assms(1) by (simp add: NewRateLimiter_def)
  then show ?thesis using assms(2) by (simp add: Limit_def allow_eq Let_def)
qed

end
