(* ===== verification/Sha256.thy ===== *)
theory Sha256
  imports GoLib
begin

text \<open>
  \<open>crypto/sha256\<close> and \<open>crypto/hmac\<close> of Go's standard library, after FIPS 180-4
  and FIPS 198-1, on byte lists, and the program's own hashing functions on top
  of them: \<open>ComputeSHA256\<close> and \<open>hashKey\<close>.
\<close>

unbundle bit_operations_syntax

type_synonym u32 = "32 word"

section \<open>The compression function\<close>

definition Ch :: "u32 \<Rightarrow> u32 \<Rightarrow> u32 \<Rightarrow> u32" where
  "Ch x y z = (x AND y) XOR ((NOT x) AND z)"

definition Maj :: "u32 \<Rightarrow> u32 \<Rightarrow> u32 \<Rightarrow> u32" where
  "Maj x y z = (x AND y) XOR (x AND z) XOR (y AND z)"

definition rotr :: "nat \<Rightarrow> u32 \<Rightarrow> u32" where
  "rotr n x = drop_bit n x OR push_bit (32 - n) x"

definition Sum0 :: "u32 \<Rightarrow> u32" where
  "Sum0 x = rotr 2 x XOR rotr 13 x XOR rotr 22 x"

definition Sum1 :: "u32 \<Rightarrow> u32" where
  "Sum1 x = rotr 6 x XOR rotr 11 x XOR rotr 25 x"

definition sig0 :: "u32 \<Rightarrow> u32" where
  "sig0 x = rotr 7 x XOR rotr 18 x XOR drop_bit 3 x"

definition sig1 :: "u32 \<Rightarrow> u32" where
  "sig1 x = rotr 17 x XOR rotr 19 x XOR drop_bit 10 x"

text \<open>The round constants, in decimal.\<close>

definition K256 :: "u32 list" where
  "K256 = [
    1116352408, 1899447441, 3049323471, 3921009573, 961987163, 1508970993, 2453635748, 2870763221,
    3624381080, 310598401, 607225278, 1426881987, 1925078388, 2162078206, 2614888103, 3248222580,
    3835390401, 4022224774, 264347078, 604807628, 770255983, 1249150122, 1555081692, 1996064986,
    2554220882, 2821834349, 2952996808, 3210313671, 3336571891, 3584528711, 113926993, 338241895,
    666307205, 773529912, 1294757372, 1396182291, 1695183700, 1986661051, 2177026350, 2456956037,
    2730485921, 2820302411, 3259730800, 3345764771, 3516065817, 3600352804, 4094571909, 275423344,
    430227734, 506948616, 659060556, 883997877, 958139571, 1322822218, 1537002063, 1747873779,
    1955562222, 2024104815, 2227730452, 2361852424, 2428436474, 2756734187, 3204031479, 3329325298]"

type_synonym digest = "u32 \<times> u32 \<times> u32 \<times> u32 \<times> u32 \<times> u32 \<times> u32 \<times> u32"

definition H256 :: digest where
  "H256 = (1779033703, 3144134277, 1013904242, 2773480762, 1359893119, 2600822924, 528734635, 1541459225)"

text \<open>The message schedule, kept in reverse: the last word first.\<close>

fun schedule :: "nat \<Rightarrow> u32 list \<Rightarrow> u32 list" where
  "schedule 0 ws = ws"
| "schedule (Suc n) ws =
     schedule n ((sig1 (ws ! 1) + ws ! 6 + sig0 (ws ! 14) + ws ! 15) # ws)"

fun round256 :: "digest \<Rightarrow> u32 \<times> u32 \<Rightarrow> digest" where
  "round256 (a, b, c, d, e, f, g, h) (k, w) =
     (let t1 = h + Sum1 e + Ch e f g + k + w;
          t2 = Sum0 a + Maj a b c
      in (t1 + t2, a, b, c, d + t1, e, f, g))"

fun add_digest :: "digest \<Rightarrow> digest \<Rightarrow> digest" where
  "add_digest (a, b, c, d, e, f, g, h) (a', b', c', d', e', f', g', h') =
     (a + a', b + b', c + c', d + d', e + e', f + f', g + g', h + h')"

definition byte_of :: "char \<Rightarrow> u32" where
  "byte_of c = of_char c"

fun be_words :: "bytes \<Rightarrow> u32 list" where
  "be_words (a # b # c # d # rest) =
     (byte_of a * 0x1000000 + byte_of b * 0x10000 + byte_of c * 0x100 + byte_of d) # be_words rest"
| "be_words _ = []"

definition process_block :: "digest \<Rightarrow> bytes \<Rightarrow> digest" where
  "process_block h block =
     add_digest h (foldl round256 h (zip K256 (rev (schedule 48 (rev (be_words block))))))"

section \<open>Padding and the whole digest\<close>

fun be_bytes :: "nat \<Rightarrow> int \<Rightarrow> bytes" where
  "be_bytes 0 n = []"
| "be_bytes (Suc k) n = be_bytes k (n div 256) @ [char_of (n mod 256)]"

definition pad256 :: "bytes \<Rightarrow> bytes" where
  "pad256 msg = msg @ [char_of (128::nat)]
     @ replicate ((119 - length msg mod 64) mod 64) (char_of (0::nat))
     @ be_bytes 8 (8 * int (length msg))"

function blocks :: "bytes \<Rightarrow> bytes list" where
  "blocks bs = (if bs = [] then [] else take 64 bs # blocks (drop 64 bs))"
  by pat_completeness auto
termination
  by (relation "measure length") auto

declare blocks.simps [simp del]

definition word_bytes :: "u32 \<Rightarrow> bytes" where
  "word_bytes w = be_bytes 4 (uint w)"

fun digest_bytes :: "digest \<Rightarrow> bytes" where
  "digest_bytes (a, b, c, d, e, f, g, h) =
     word_bytes a @ word_bytes b @ word_bytes c @ word_bytes d
     @ word_bytes e @ word_bytes f @ word_bytes g @ word_bytes h"

text \<open>\<open>sha256.Sum256\<close>.\<close>

definition sha256_sum :: "bytes \<Rightarrow> bytes" where
  "sha256_sum msg = digest_bytes (foldl process_block H256 (blocks (pad256 msg)))"

section \<open>HMAC\<close>

definition xor_byte :: "int \<Rightarrow> char \<Rightarrow> char" where
  "xor_byte k c = char_of (k XOR of_char c)"

text \<open>\<open>hmac.New(sha256.New, key)\<close>, \<open>Write(msg)\<close>, \<open>Sum(nil)\<close>.\<close>

definition hmac_sha256 :: "bytes \<Rightarrow> bytes \<Rightarrow> bytes" where
  "hmac_sha256 key msg =
     (let k0 = (if 64 < length key then sha256_sum key else key);
          k = k0 @ replicate (64 - length k0) (char_of (0::nat));
          inner = sha256_sum (map (xor_byte 0x36) k @ msg)
      in sha256_sum (map (xor_byte 0x5c) k @ inner))"

section \<open>The program's hashing functions\<close>

text \<open>\<open>ComputeSHA256(r)\<close>: the reader gives its bytes or fails.\<close>

definition ComputeSHA256 :: "go_error + bytes \<Rightarrow> go_error + string" where
  "ComputeSHA256 r = and_then (wrapf ''sha256'' r) (\<lambda>bs. Inr (hex_encode (sha256_sum bs)))"

text \<open>\<open>hashKey(rawKey)\<close>.\<close>

definition hashKey :: "string \<Rightarrow> string" where
  "hashKey rawKey = hex_encode (sha256_sum rawKey)"

section \<open>Lemmas\<close>

lemma length_be_bytes [simp]: "length (be_bytes k n) = k"
  by (induction k arbitrary: n) auto

lemma length_sha256_sum [simp]: "length (sha256_sum msg) = 32"
proof -
  have "length (digest_bytes d) = 32" for d
    by (cases d) (auto simp: word_bytes_def)
  then show ?thesis by (simp add: sha256_sum_def)
qed

lemma length_hashKey [simp]: "length (hashKey k) = 64"
  by (simp add: hashKey_def)

lemma ComputeSHA256_length: "ComputeSHA256 r = Inr h \<Longrightarrow> length h = 64"
  by (auto simp: ComputeSHA256_def)

lemma ComputeSHA256_Inr [simp]: "ComputeSHA256 (Inr bs) = Inr (hex_encode (sha256_sum bs))"
  by (simp add: ComputeSHA256_def)

lemma ComputeSHA256_Inl [simp]: "ComputeSHA256 (Inl e) = Inl (Errorf ''sha256'' e)"
  by (simp add: ComputeSHA256_def)

end
