(* ===== verification/ApiKeyStore.thy ===== *)
theory ApiKeyStore
  imports Auth MetadataProps Sha256
begin

text \<open>
  The API keys of \<open>storage/apikey_store.go\<close>: creation, lookup by hash, listing,
  revocation and the asynchronous usage mark, with the key store as the provider of
  the interface \<open>APIKeyLookup\<close> of the middleware.
\<close>

section \<open>Operations\<close>

text \<open>\<open>rand n\<close> is what \<open>crypto/rand.Read\<close> gives for a buffer of \<open>n\<close> bytes.\<close>

definition generateRawKey :: "(nat \<Rightarrow> go_error + bytes) \<Rightarrow> go_error + string" where
  "generateRawKey rand = and_then (rand 32) (\<lambda>b. Inr (''msk_'' @ hex_encode b))"

record create_result =
  created_key :: api_key
  RawKey :: string

definition insert_key ::
  "pg \<Rightarrow> string \<Rightarrow> string \<Rightarrow> string \<Rightarrow> string \<Rightarrow> time option \<Rightarrow> database \<Rightarrow> go_error + api_key \<times> database" where
  "insert_key p userID name hash prefix expiresAt db =
     exec p S_KeyCreate (uuid_arg p userID (\<lambda>u.
       if gen_uuid p \<in> set (map key_ID (api_keys db)) \<or> hash \<in> set (map KeyHash (api_keys db))
       then Inl (pg_error p UniqueViolation)
       else if u \<notin> set (map user_ID (users db)) then Inl (pg_error p ForeignKeyViolation)
       else let k = \<lparr>key_ID = gen_uuid p, key_UserID = u, key_Name = name, KeyHash = hash,
                     key_Prefix = prefix, LastUsedAt = None, key_CreatedAt = now p,
                     ExpiresAt = expiresAt\<rparr>
            in Inr (k, db\<lparr>api_keys := api_keys db @ [k]\<rparr>)))"

text \<open>\<open>raw[:8]\<close> panics on a shorter key.\<close>

definition key_Create ::
  "pg \<Rightarrow> (nat \<Rightarrow> go_error + bytes) \<Rightarrow> string \<Rightarrow> string \<Rightarrow> time option \<Rightarrow> database \<Rightarrow>
     (go_error + create_result) \<times> database" where
  "key_Create p rand userID name expiresAt db =
     auto_commit (\<lambda>db.
       and_then (wrapf ''generate key'' (generateRawKey rand)) (\<lambda>raw.
       let hash = hashKey raw
       in if length raw < 8 then Inl (Panic ''slice bounds out of range'')
          else
            let prefix = take 8 raw
            in and_then (wrapf ''insert api key'' (insert_key p userID name hash prefix expiresAt db)) (\<lambda>(k, db).
                 Inr (\<lparr>created_key = k, RawKey = raw\<rparr>, db)))) db"

definition key_GetByHash :: "pg \<Rightarrow> string \<Rightarrow> database \<Rightarrow> go_error + api_key" where
  "key_GetByHash p rawKey db =
     (let hash = hashKey rawKey
      in and_then (no_rows_not_found ''get api key'' (exec p S_KeyGetByHash
              (query_row (filter (\<lambda>k. KeyHash k = hash) (api_keys db))))) (\<lambda>k.
           case ExpiresAt k of
             Some e \<Rightarrow> if e < clock p then Inl ErrNotFound else Inr k
           | None \<Rightarrow> Inr k))"

definition key_ListByUser :: "pg \<Rightarrow> string \<Rightarrow> database \<Rightarrow> go_error + api_key list" where
  "key_ListByUser p userID db =
     wrapf ''list api keys'' (exec p S_KeyList (uuid_arg p userID (\<lambda>u.
       Inr (order_desc key_CreatedAt (filter (\<lambda>k. key_UserID k = u) (api_keys db))))))"

definition delete_key :: "pg \<Rightarrow> string \<Rightarrow> string \<Rightarrow> database \<Rightarrow> go_error + nat \<times> database" where
  "delete_key p i userID db =
     exec p S_KeyDelete (uuid_arg p i (\<lambda>i. uuid_arg p userID (\<lambda>u.
       let hit = (\<lambda>k. key_ID k = i \<and> key_UserID k = u)
       in Inr (length (filter hit (api_keys db)),
               db\<lparr>api_keys := sql_delete hit (api_keys db)\<rparr>))))"

definition key_Delete :: "pg \<Rightarrow> string \<Rightarrow> string \<Rightarrow> database \<Rightarrow> (go_error + unit) \<times> database" where
  "key_Delete p i userID db =
     auto_commit (\<lambda>db.
       and_then (wrapf ''delete api key'' (delete_key p i userID db)) (\<lambda>(n, db).
         if n = 0 then Inl ErrNotFound else Inr ((), db))) db"

text \<open>
  \<open>TouchLastUsed\<close> starts a goroutine, so the server keeps the updates that are
  still to run: \<open>touch_step n\<close> runs the one at position \<open>n\<close>, in any order and at
  any time; its errors are dropped.
\<close>

record key_server =
  ks_db :: database
  ks_pending :: "string list"

definition touch_key :: "pg \<Rightarrow> string \<Rightarrow> database \<Rightarrow> go_error + database" where
  "touch_key p i db =
     exec p S_KeyTouch (uuid_arg p i (\<lambda>i.
       Inr (db\<lparr>api_keys := sql_update (\<lambda>k. key_ID k = i) (\<lambda>k. k\<lparr>LastUsedAt := Some (now p)\<rparr>) (api_keys db)\<rparr>)))"

definition go_TouchLastUsed :: "string \<Rightarrow> key_server \<Rightarrow> key_server" where
  "go_TouchLastUsed i s = s\<lparr>ks_pending := ks_pending s @ [i]\<rparr>"

definition touch_step :: "pg \<Rightarrow> nat \<Rightarrow> key_server \<Rightarrow> key_server" where
  "touch_step p n s =
     (if n < length (ks_pending s)
      then s\<lparr>ks_db := (case touch_key p (ks_pending s ! n) (ks_db s) of Inl _ \<Rightarrow> ks_db s | Inr db \<Rightarrow> db),
             ks_pending := take n (ks_pending s) @ drop (Suc n) (ks_pending s)\<rparr>
      else s)"

definition postgres_keys :: "pg \<Rightarrow> key_server api_key_lookup" where
  "postgres_keys p = \<lparr>lookup_GetByHash = (\<lambda>raw s. key_GetByHash p raw (ks_db s)),
                      TouchLastUsed = go_TouchLastUsed\<rparr>"

section \<open>Effects\<close>

text \<open>A raw key authenticates a user when its hash is stored for the user and has not
  expired.\<close>

definition unexpired :: "time \<Rightarrow> api_key \<Rightarrow> bool" where
  "unexpired t k \<longleftrightarrow> (case ExpiresAt k of None \<Rightarrow> True | Some e \<Rightarrow> t \<le> e)"

definition key_creds :: "time \<Rightarrow> database \<Rightarrow> string \<Rightarrow> uuid \<Rightarrow> bool" where
  "key_creds t db raw u \<longleftrightarrow>
     (\<exists>k \<in> set (api_keys db). KeyHash k = hashKey raw \<and> key_UserID k = u \<and> unexpired t k)"

lemma key_GetByHash_Inr:
  "key_GetByHash p raw db = Inr k \<longleftrightarrow>
     \<not> fault p S_KeyGetByHash \<and> unexpired (clock p) k \<and>
     (\<exists>ks. filter (\<lambda>k. KeyHash k = hashKey raw) (api_keys db) = k # ks)"
  by (auto simp: key_GetByHash_def Let_def unexpired_def split: option.splits if_splits)

lemma constraints_keys: "db_constraints db \<Longrightarrow> distinct (map KeyHash (api_keys db))"
  by (simp add: db_constraints_def)

lemma key_GetByHash_iff:
  assumes "db_constraints db" and "\<not> fault p S_KeyGetByHash"
  shows "key_GetByHash p raw db = Inr k \<longleftrightarrow>
     k \<in> set (api_keys db) \<and> KeyHash k = hashKey raw \<and> unexpired (clock p) k"
  using filter_key_single[OF constraints_keys[OF assms(1)], of k] assms(2)
  by (auto simp: key_GetByHash_Inr dest: filter_hdD)

lemma key_GetByHash_missing:
  assumes "\<not> fault p S_KeyGetByHash" and "\<And>k. k \<in> set (api_keys db) \<Longrightarrow> KeyHash k \<noteq> hashKey raw"
  shows "key_GetByHash p raw db = Inl ErrNotFound"
proof -
  have "filter (\<lambda>k. KeyHash k = hashKey raw) (api_keys db) = []"
    using assms(2) by (simp add: filter_empty_conv)
  with assms(1) show ?thesis
    by (simp add: key_GetByHash_def exec_no_fault no_rows_not_found_def)
qed

lemma key_Create_Inr:
  assumes "key_Create p rand userID name expiresAt db = (Inr r, db')"
  obtains b u where "rand 32 = Inr b" and "RawKey r = ''msk_'' @ hex_encode b"
    and "uuid_in p userID = Some u" and "u \<in> user_ID ` set (users db)"
    and "gen_uuid p \<notin> key_ID ` set (api_keys db)"
    and "hashKey (RawKey r) \<notin> KeyHash ` set (api_keys db)"
    and "created_key r = \<lparr>key_ID = gen_uuid p, key_UserID = u, key_Name = name,
           KeyHash = hashKey (RawKey r), key_Prefix = take 8 (RawKey r), LastUsedAt = None,
           key_CreatedAt = now p, ExpiresAt = expiresAt\<rparr>"
    and "db' = db\<lparr>api_keys := api_keys db @ [created_key r]\<rparr>"
  using assms
  by (auto simp: key_Create_def auto_commit_success generateRawKey_def insert_key_def Let_def
      split: if_splits)

lemma key_Create_error: "key_Create p rand userID name e db = (Inl err, db') \<Longrightarrow> db' = db"
  unfolding key_Create_def by (rule auto_commit_error)

lemma key_Delete_Inr:
  "key_Delete p i userID db = (Inr x, db') \<longleftrightarrow>
     \<not> fault p S_KeyDelete \<and>
     (\<exists>ki u. uuid_in p i = Some ki \<and> uuid_in p userID = Some u \<and>
        (\<exists>k \<in> set (api_keys db). key_ID k = ki \<and> key_UserID k = u) \<and>
        db' = db\<lparr>api_keys := sql_delete (\<lambda>k. key_ID k = ki \<and> key_UserID k = u) (api_keys db)\<rparr>)"
  by (cases "uuid_in p i"; cases "uuid_in p userID")
     (auto simp: key_Delete_def auto_commit_def delete_key_def exec_def uuid_arg_def Let_def
        filter_empty_conv split: if_splits)

lemma key_Delete_error: "key_Delete p i userID db = (Inl err, db') \<Longrightarrow> db' = db"
  unfolding key_Delete_def by (rule auto_commit_error)

lemma touch_key_Inr:
  "touch_key p i db = Inr db' \<Longrightarrow>
     \<exists>ki. db' = db\<lparr>api_keys := sql_update (\<lambda>k. key_ID k = ki) (\<lambda>k. k\<lparr>LastUsedAt := Some (now p)\<rparr>) (api_keys db)\<rparr>"
  by (auto simp: touch_key_def)

lemma key_creds_touch:
  "touch_key p i db = Inr db' \<Longrightarrow> key_creds t db' = key_creds t db"
  by (drule touch_key_Inr, intro ext) (elim exE, simp add: key_creds_def unexpired_def bex_sql_update)

section \<open>The schema's constraints\<close>

lemma constraints_keys_update:
  assumes "db_constraints db" and "distinct (map key_ID ks)" and "distinct (map KeyHash ks)"
    and "key_UserID ` set ks \<subseteq> user_ID ` set (users db)"
  shows "db_constraints (db\<lparr>api_keys := ks\<rparr>)"
  using assms by (simp add: db_constraints_def image_subset_iff)

lemma constraints_key_Create:
  assumes "db_constraints db" and "key_Create p rand userID name e db = (r, db')"
  shows "db_constraints db'"
proof (cases r)
  case (Inl err)
  then show ?thesis using assms key_Create_error by blast
next
  case (Inr c)
  with assms(2) have "key_Create p rand userID name e db = (Inr c, db')" by simp
  then obtain u where u: "u \<in> user_ID ` set (users db)"
    and fresh: "gen_uuid p \<notin> key_ID ` set (api_keys db)" "hashKey (RawKey c) \<notin> KeyHash ` set (api_keys db)"
    and k: "created_key c = \<lparr>key_ID = gen_uuid p, key_UserID = u, key_Name = name,
           KeyHash = hashKey (RawKey c), key_Prefix = take 8 (RawKey c), LastUsedAt = None,
           key_CreatedAt = now p, ExpiresAt = e\<rparr>"
    and db': "db' = db\<lparr>api_keys := api_keys db @ [created_key c]\<rparr>"
    by (rule key_Create_Inr) blast
  have d: "distinct (map key_ID (api_keys db))" "distinct (map KeyHash (api_keys db))"
    "key_UserID ` set (api_keys db) \<subseteq> user_ID ` set (users db)"
    using assms(1) by (auto simp: db_constraints_def)
  show ?thesis
    unfolding db' using d fresh u by (intro constraints_keys_update[OF assms(1)]) (auto simp: k)
qed

lemma constraints_key_Delete:
  assumes "db_constraints db" and "key_Delete p i userID db = (r, db')"
  shows "db_constraints db'"
proof (cases r)
  case (Inl err)
  then show ?thesis using assms key_Delete_error by blast
next
  case (Inr c)
  have d: "distinct (map key_ID (api_keys db))" "distinct (map KeyHash (api_keys db))"
    "key_UserID ` set (api_keys db) \<subseteq> user_ID ` set (users db)"
    using assms(1) by (auto simp: db_constraints_def)
  from Inr assms(2) show ?thesis
    using d by (auto simp: key_Delete_Inr intro!: constraints_keys_update[OF assms(1)] distinct_map_sql_delete)
qed

section \<open>The key store provides the middleware's interface\<close>

interpretation pg_keys: key_lookup "postgres_keys p" "\<lambda>s. key_creds (clock p) (ks_db s)" for p
proof unfold_locales
  fix raw s k
  assume "lookup_GetByHash (postgres_keys p) raw s = Inr k"
  then show "key_creds (clock p) (ks_db s) raw (key_UserID k)"
    by (auto simp: postgres_keys_def key_GetByHash_Inr key_creds_def dest!: filter_hdD)
qed (simp add: postgres_keys_def go_TouchLastUsed_def)

end
