(* ===== verification/AuthClaims.thy ===== *)
theory AuthClaims
  imports ApiKeyStore MetadataClaims
begin

text \<open>
  The properties of authentication: who passes \<open>FlexAuth\<close> and as which user, and
  the life of an API key.
\<close>

section \<open>The decision of FlexAuth\<close>

lemma to_lower_keep:
  "of_char c \<noteq> (196::nat) \<Longrightarrow> of_char c \<noteq> (226::nat) \<Longrightarrow> to_lower (c # cs) = lower_ascii c # to_lower cs"
  by (simp split: list.splits)

lemma to_lower_scheme:
  assumes "map lower_ascii scheme = p" and "\<And>c. c \<in> set p \<Longrightarrow> of_char c < (128::nat)"
  shows "to_lower (scheme @ t) = p @ to_lower t"
  using assms
proof (induction scheme arbitrary: p)
  case Nil
  then show ?case by simp
next
  case (Cons c cs)
  have "of_char (lower_ascii c) < (128::nat)" using Cons.prems by auto
  then have c: "of_char c < (128::nat)"
    by (auto simp: lower_ascii_def split: if_splits)
  obtain q where p: "p = lower_ascii c # q" "map lower_ascii cs = q" using Cons.prems(1) by auto
  with Cons.IH[OF p(2)] Cons.prems(2) have "to_lower (cs @ t) = q @ to_lower t" by simp
  with c p(1) show ?case by (simp only: append_Cons to_lower_keep)
qed

lemma bearer_prefix_iff:
  "has_prefix (to_lower h) ''bearer '' \<longleftrightarrow>
     (\<exists>scheme t. h = scheme @ '' '' @ t \<and> CHR '' '' \<notin> set scheme \<and> equal_fold scheme ''Bearer'')"
proof
  assume "has_prefix (to_lower h) ''bearer ''"
  then show "\<exists>scheme t. h = scheme @ '' '' @ t \<and> CHR '' '' \<notin> set scheme \<and> equal_fold scheme ''Bearer''"
    by (rule bearer_prefix) blast
next
  assume "\<exists>scheme t. h = scheme @ '' '' @ t \<and> CHR '' '' \<notin> set scheme \<and> equal_fold scheme ''Bearer''"
  then obtain scheme t where h: "h = (scheme @ '' '') @ t" and eq: "equal_fold scheme ''Bearer''" by auto
  have "map lower_ascii ''Bearer'' = ''bearer''" by code_simp
  moreover have "map lower_ascii '' '' = '' ''" by code_simp
  ultimately have "map lower_ascii (scheme @ '' '') = ''bearer ''"
    using eq by (simp only: equal_fold_def map_append append.simps)
  then have "to_lower h = ''bearer '' @ to_lower t"
    unfolding h by (rule to_lower_scheme) auto
  then show "has_prefix (to_lower h) ''bearer ''" by (simp add: has_prefix_def)
qed

lemma bearer_token:
  "has_prefix (to_lower (header c ''Authorization'')) ''bearer '' \<and> extractToken c = Inr t \<longleftrightarrow>
     extractToken c = Inr t"
  unfolding bearer_prefix_iff extractToken_Inr by blast

text \<open>C10: Who gets in: a request passes \<open>FlexAuth\<close> exactly with a nonempty token under
  the scheme Bearer (in any case) that the JWT library validates for the server's
  secret, or, when the header does not start with that scheme, with an API key whose
  hash is stored and that has not expired; the request then acts as the user of the
  claims or the owner of the key. A bad token is never replaced by a good key.\<close>

theorem FlexAuth_decision:
  assumes "db_constraints (ks_db s)"
  shows "FlexAuth lib secret (postgres_keys p) c s = (Next c', s') \<longleftrightarrow>
    (\<exists>scheme t tok cl. header c ''Authorization'' = scheme @ '' '' @ t \<and> CHR '' '' \<notin> set scheme \<and>
        equal_fold scheme ''Bearer'' \<and> t \<noteq> '''' \<and>
        ParseWithClaims lib t (hmac_keyfunc secret) = Inr tok \<and> Valid tok \<and> Claims tok = Some cl \<and>
        c' = set_key UserIDKey (claims_UserID cl) c \<and> s' = s) \<or>
    ((\<nexists>scheme t. header c ''Authorization'' = scheme @ '' '' @ t \<and> CHR '' '' \<notin> set scheme \<and>
        equal_fold scheme ''Bearer'') \<and>
     header c apiKeyHeader \<noteq> '''' \<and> \<not> fault p S_KeyGetByHash \<and>
     (\<exists>k \<in> set (api_keys (ks_db s)). KeyHash k = hashKey (header c apiKeyHeader) \<and>
        (\<forall>e. ExpiresAt k = Some e \<longrightarrow> clock p \<le> e) \<and>
        c' = set_key UserIDKey (key_UserID k) c \<and>
        s' = s\<lparr>ks_pending := ks_pending s @ [key_ID k]\<rparr>))"
    (is "?pass \<longleftrightarrow> ?token \<or> ?key")
proof (cases "has_prefix (to_lower (header c ''Authorization'')) ''bearer ''")
  case True
  then have "?pass \<longleftrightarrow> (\<exists>t cl. extractToken c = Inr t \<and> parseToken lib t secret = Inr cl \<and>
      c' = set_key UserIDKey (claims_UserID cl) c \<and> s' = s)"
    by (auto simp: FlexAuth_def Auth_Next)
  also have "\<dots> \<longleftrightarrow> ?token" unfolding extractToken_Inr parseToken_Inr by blast
  also have "\<dots> \<longleftrightarrow> ?token \<or> ?key" using True unfolding bearer_prefix_iff by blast
  finally show ?thesis .
next
  case False
  have get: "lookup_GetByHash (postgres_keys p) raw s = Inr k \<longleftrightarrow> \<not> fault p S_KeyGetByHash \<and>
      k \<in> set (api_keys (ks_db s)) \<and> KeyHash k = hashKey raw \<and> unexpired (clock p) k" for raw k
    using key_GetByHash_iff[OF assms, of p raw k]
    by (cases "fault p S_KeyGetByHash") (auto simp: postgres_keys_def key_GetByHash_Inr)
  have un: "unexpired t k \<longleftrightarrow> (\<forall>e. ExpiresAt k = Some e \<longrightarrow> t \<le> e)" for t k
    by (simp add: unexpired_def split: option.splits)
  have "?pass \<longleftrightarrow> header c apiKeyHeader \<noteq> '''' \<and> \<not> fault p S_KeyGetByHash \<and>
     (\<exists>k \<in> set (api_keys (ks_db s)). KeyHash k = hashKey (header c apiKeyHeader) \<and>
        (\<forall>e. ExpiresAt k = Some e \<longrightarrow> clock p \<le> e) \<and>
        c' = set_key UserIDKey (key_UserID k) c \<and>
        s' = s\<lparr>ks_pending := ks_pending s @ [key_ID k]\<rparr>)"
    using False
    by (simp add: FlexAuth_def APIKeyAuth_Next get un) (auto simp: postgres_keys_def go_TouchLastUsed_def)
  then show ?thesis using False unfolding bearer_prefix_iff by blast
qed

text \<open>A token library for the examples: the token of a user is \<open>key:user\<close>.\<close>

definition demo_jwt :: jwt where
  "demo_jwt = \<lparr>ParseWithClaims = (\<lambda>tok kf.
       case kf (SigningMethodHMAC ''HS256'') of
         Inl e \<Rightarrow> Inl e
       | Inr key \<Rightarrow>
           if has_prefix tok (key @ '':'')
           then Inr \<lparr>Claims = Some \<lparr>claims_UserID = drop (length key + 1) tok, claims_ExpiresAt = None,
                                   claims_IssuedAt = None\<rparr>, Valid = True\<rparr>
           else Inl (Opaque ''signature is invalid'')),
     SignedString = (\<lambda>cl key. Inr (key @ '':'' @ claims_UserID cl))\<rparr>"

definition demo_ctx :: "string \<Rightarrow> string \<Rightarrow> gin_context" where
  "demo_ctx authorization key =
     \<lparr>header = (\<lambda>h. if h = ''Authorization'' then authorization else if h = apiKeyHeader then key else ''''),
      param = (\<lambda>_. ''''), query = (\<lambda>_. None), req_body = '''', keys = (\<lambda>_. None)\<rparr>"

definition demo_keys :: key_server where
  "demo_keys = \<lparr>ks_db = demo_db\<lparr>api_keys := [
      \<lparr>key_ID = ''i'', key_UserID = ''u2'', key_Name = ''ci'', KeyHash = hashKey ''msk_1'',
       key_Prefix = ''msk_1'', LastUsedAt = None, key_CreatedAt = 0, ExpiresAt = Some 9\<rparr>]\<rparr>,
     ks_pending = []\<rparr>"

lemma demo_keys_constraints: "db_constraints (ks_db demo_keys)"
  by (simp add: demo_keys_def db_constraints_def demo_defs)

theorem FlexAuth_decision_witness:
  "FlexAuth demo_jwt ''s'' (postgres_keys (demo_pg ''x'' 9)) (demo_ctx ''bearer s:u1'' ''msk_1'') demo_keys
     = (Next (set_key UserIDKey ''u1'' (demo_ctx ''bearer s:u1'' ''msk_1'')), demo_keys) \<and>
   FlexAuth demo_jwt ''s'' (postgres_keys (demo_pg ''x'' 9)) (demo_ctx '''' ''msk_1'') demo_keys
     = (Next (set_key UserIDKey ''u2'' (demo_ctx '''' ''msk_1'')), demo_keys\<lparr>ks_pending := [''i'']\<rparr>)"
proof (intro conjI)
  have "equal_fold ''bearer'' ''Bearer''" by code_simp
  then show "FlexAuth demo_jwt ''s'' (postgres_keys (demo_pg ''x'' 9)) (demo_ctx ''bearer s:u1'' ''msk_1'') demo_keys
     = (Next (set_key UserIDKey ''u1'' (demo_ctx ''bearer s:u1'' ''msk_1'')), demo_keys)"
    unfolding FlexAuth_decision[OF demo_keys_constraints]
    by (intro disjI1 exI[of _ "''bearer''"] exI[of _ "''s:u1''"])
       (simp add: demo_ctx_def demo_jwt_def hmac_keyfunc_def has_prefix_def)
  have "\<not> has_prefix (to_lower '''') ''bearer ''" by (simp add: has_prefix_def)
  then show "FlexAuth demo_jwt ''s'' (postgres_keys (demo_pg ''x'' 9)) (demo_ctx '''' ''msk_1'') demo_keys
     = (Next (set_key UserIDKey ''u2'' (demo_ctx '''' ''msk_1'')), demo_keys\<lparr>ks_pending := [''i'']\<rparr>)"
    unfolding FlexAuth_decision[OF demo_keys_constraints]
    by (intro disjI2) (simp add: bearer_prefix_iff demo_ctx_def demo_keys_def apiKeyHeader_def)
qed

text \<open>No algorithm confusion: if the JWT library accepts a token only after a
  verification with the key that the callback gives for the token's own method, then
  every token that \<open>Auth\<close> accepts was verified by an HMAC method with the server's
  secret.\<close>

theorem Auth_no_algorithm_confusion:
  assumes verified: "\<And>tok kf t. ParseWithClaims lib tok kf = Inr t \<Longrightarrow> Valid t \<Longrightarrow>
      \<exists>m key. kf m = Inr key \<and> verifies m key tok"
    and run: "Auth lib secret c s = (Next c', s')"
  shows "\<exists>tok alg. extractToken c = Inr tok \<and> verifies (SigningMethodHMAC alg) secret tok"
proof -
  from run obtain tok t where "extractToken c = Inr tok"
    and "ParseWithClaims lib tok (hmac_keyfunc secret) = Inr t" and "Valid t"
    by (auto simp: Auth_Next parseToken_Inr)
  moreover from verified[OF this(2,3)] obtain m key where "hmac_keyfunc secret m = Inr key" "verifies m key tok"
    by blast
  ultimately show ?thesis by (auto simp: hmac_keyfunc_def split: signing_method.splits)
qed

definition demo_verifies :: "signing_method \<Rightarrow> bytes \<Rightarrow> string \<Rightarrow> bool" where
  "demo_verifies m key tok \<longleftrightarrow> m = SigningMethodHMAC ''HS256'' \<and> has_prefix tok (key @ '':'')"

theorem Auth_no_algorithm_confusion_witness:
  "\<exists>tok alg. extractToken (demo_ctx ''Bearer s:u1'' '''') = Inr tok \<and>
     demo_verifies (SigningMethodHMAC alg) ''s'' tok"
proof (rule Auth_no_algorithm_confusion[where s = "()"])
  fix tok kf t
  assume "ParseWithClaims demo_jwt tok kf = Inr t"
  then show "\<exists>m key. kf m = Inr key \<and> demo_verifies m key tok"
    by (auto simp: demo_jwt_def demo_verifies_def split: sum.splits if_splits)
next
  have "extractToken (demo_ctx ''Bearer s:u1'' '''') = Inr ''s:u1''" by code_simp
  moreover have "parseToken demo_jwt ''s:u1'' ''s'' =
      Inr \<lparr>claims_UserID = ''u1'', claims_ExpiresAt = None, claims_IssuedAt = None\<rparr>" by code_simp
  ultimately show "Auth demo_jwt ''s'' (demo_ctx ''Bearer s:u1'' '''') () =
      (Next (set_key UserIDKey ''u1'' (demo_ctx ''Bearer s:u1'' '''')), ())"
    by (simp add: Auth_Next)
qed

section \<open>The life of an API key\<close>

text \<open>C37: A created key works at once, for its owner and until it expires, only its
  hash and its first eight characters are stored, and the stored row is the one the
  lookup finds.\<close>

theorem key_Create_then_lookup:
  assumes "db_constraints db" and "key_Create p rand userID name expiresAt db = (Inr r, db')"
    and "\<And>n b. rand n = Inr b \<Longrightarrow> length b = n"
    and "\<not> fault q S_KeyGetByHash"
  shows "key_GetByHash q (RawKey r) db' =
       (if \<exists>e. expiresAt = Some e \<and> e < clock q then Inl ErrNotFound else Inr (created_key r)) \<and>
     uuid_in p userID = Some (key_UserID (created_key r)) \<and>
     length (RawKey r) = 68 \<and> take 4 (RawKey r) = ''msk_'' \<and>
     KeyHash (created_key r) = hashKey (RawKey r) \<and> key_Prefix (created_key r) = take 8 (RawKey r)"
proof -
  have c: "db_constraints db'" using constraints_key_Create[OF assms(1,2)] .
  from assms(2) obtain b u where raw: "rand 32 = Inr b" "RawKey r = ''msk_'' @ hex_encode b"
    and u: "uuid_in p userID = Some u"
    and k: "created_key r = \<lparr>key_ID = gen_uuid p, key_UserID = u, key_Name = name,
           KeyHash = hashKey (RawKey r), key_Prefix = take 8 (RawKey r), LastUsedAt = None,
           key_CreatedAt = now p, ExpiresAt = expiresAt\<rparr>"
    and db': "db' = db\<lparr>api_keys := api_keys db @ [created_key r]\<rparr>"
    by (rule key_Create_Inr) blast
  have "filter (\<lambda>x. KeyHash x = KeyHash (created_key r)) (api_keys db') = [created_key r]"
    by (rule filter_key_single[OF constraints_keys[OF c]]) (simp add: db')
  then have "filter (\<lambda>x. KeyHash x = hashKey (RawKey r)) (api_keys db') = [created_key r]"
    by (simp add: k)
  moreover have "ExpiresAt (created_key r) = expiresAt" by (simp add: k)
  ultimately have "key_GetByHash q (RawKey r) db' =
       (if \<exists>e. expiresAt = Some e \<and> e < clock q then Inl ErrNotFound else Inr (created_key r))"
    using assms(4) by (simp add: key_GetByHash_def exec_no_fault no_rows_not_found_def split: option.splits)
  then show ?thesis using raw u assms(3)[OF raw(1)] by (simp add: k)
qed

definition demo_created :: create_result where
  "demo_created = (let raw = ''msk_'' @ hex_encode (replicate 32 (CHR ''a''))
     in \<lparr>created_key = \<lparr>key_ID = ''k1'', key_UserID = ''u1'', key_Name = ''ci'', KeyHash = hashKey raw,
           key_Prefix = take 8 raw, LastUsedAt = None, key_CreatedAt = 3, ExpiresAt = Some 8\<rparr>,
         RawKey = raw\<rparr>)"

definition demo_key_db :: database where
  "demo_key_db = demo_db\<lparr>api_keys := [created_key demo_created]\<rparr>"

lemma demo_create:
  "key_Create (demo_pg ''k1'' 3) (\<lambda>n. Inr (replicate n (CHR ''a''))) ''u1'' ''ci'' (Some 8) demo_db
     = (Inr demo_created, demo_key_db)"
  by (simp add: key_Create_def auto_commit_def generateRawKey_def insert_key_def Let_def exec_def uuid_arg_def
      demo_created_def demo_key_db_def demo_defs)

theorem key_Create_then_lookup_witness:
  "\<exists>r db'. key_Create (demo_pg ''k1'' 3) (\<lambda>n. Inr (replicate n (CHR ''a''))) ''u1'' ''ci'' (Some 8) demo_db = (Inr r, db') \<and>
     key_GetByHash (demo_pg ''x'' 8) (RawKey r) db' = Inr (created_key r) \<and>
     key_GetByHash (demo_pg ''x'' 9) (RawKey r) db' = Inl ErrNotFound"
proof (intro exI conjI)
  show "key_GetByHash (demo_pg ''x'' 8) (RawKey demo_created) demo_key_db = Inr (created_key demo_created)"
    using key_Create_then_lookup[OF demo_db_constraints demo_create, of "demo_pg ''x'' 8"]
    by (auto simp: demo_created_def)
  show "key_GetByHash (demo_pg ''x'' 9) (RawKey demo_created) demo_key_db = Inl ErrNotFound"
    using key_Create_then_lookup[OF demo_db_constraints demo_create, of "demo_pg ''x'' 9"]
    by (auto simp: demo_created_def)
qed (rule demo_create)

text \<open>Revocation is final and restricted to the owner: after a deletion that
  succeeds the key no longer authenticates, whatever usage marks are still to run
  (the marks touch no credential), all other keys still do, and only the owner can
  delete a key.\<close>

theorem key_Delete_revokes:
  assumes "db_constraints db" and "key_Delete p keyID userID db = (Inr x, db')"
  shows "\<exists>k \<in> set (api_keys db). uuid_in p keyID = Some (key_ID k) \<and>
     uuid_in p userID = Some (key_UserID k) \<and>
     (\<forall>t raw u. key_creds t db' raw u \<longleftrightarrow> key_creds t db raw u \<and> KeyHash k \<noteq> hashKey raw)"
proof -
  from assms(2) obtain k where k: "k \<in> set (api_keys db)" "uuid_in p keyID = Some (key_ID k)"
      "uuid_in p userID = Some (key_UserID k)"
    and db': "db' = db\<lparr>api_keys := sql_delete (\<lambda>x. key_ID x = key_ID k \<and> key_UserID x = key_UserID k) (api_keys db)\<rparr>"
    by (auto simp: key_Delete_Inr)
  have ids: "distinct (map key_ID (api_keys db))" using assms(1) by (simp add: db_constraints_def)
  have "x = k \<longleftrightarrow> key_ID x = key_ID k \<and> key_UserID x = key_UserID k" if "x \<in> set (api_keys db)" for x
    using unique_row[OF ids that k(1)] by auto
  moreover have "x = k \<longleftrightarrow> KeyHash x = KeyHash k" if "x \<in> set (api_keys db)" for x
    using unique_row[OF constraints_keys[OF assms(1)] that k(1)] by auto
  ultimately show ?thesis using k by (intro bexI[of _ k]) (auto simp: db' key_creds_def)
qed

theorem key_Delete_revokes_witness:
  "key_creds 9 (ks_db demo_keys) ''msk_1'' ''u2'' \<and>
   (\<exists>db'. key_Delete (demo_pg ''x'' 9) ''i'' ''u2'' (ks_db demo_keys) = (Inr (), db') \<and>
      \<not> key_creds 9 db' ''msk_1'' ''u2'')"
proof
  show "key_creds 9 (ks_db demo_keys) ''msk_1'' ''u2''"
    by (simp add: key_creds_def demo_keys_def unexpired_def)
  have run: "key_Delete (demo_pg ''x'' 9) ''i'' ''u2'' (ks_db demo_keys)
      = (Inr (), snd (key_Delete (demo_pg ''x'' 9) ''i'' ''u2'' (ks_db demo_keys)))"
    by (simp add: key_Delete_def auto_commit_def delete_key_def exec_def uuid_arg_def demo_keys_def)
  from key_Delete_revokes[OF demo_keys_constraints run]
  have "\<not> key_creds 9 (snd (key_Delete (demo_pg ''x'' 9) ''i'' ''u2'' (ks_db demo_keys))) ''msk_1'' ''u2''"
    by (auto simp: demo_keys_def)
  with run show "\<exists>db'. key_Delete (demo_pg ''x'' 9) ''i'' ''u2'' (ks_db demo_keys) = (Inr (), db') \<and>
      \<not> key_creds 9 db' ''msk_1'' ''u2''" by metis
qed

text \<open>The asynchronous usage marks race with nothing that matters: any of the
  pending updates, run at any time with any outcome, leaves who is authenticated, and
  as whom, as it was.\<close>

theorem touches_keep_credentials:
  "key_creds t (ks_db (touch_step p n s)) raw u \<longleftrightarrow> key_creds t (ks_db s) raw u"
  using key_creds_touch[of p "ks_pending s ! n" "ks_db s"]
  by (cases "touch_key p (ks_pending s ! n) (ks_db s)") (simp_all add: touch_step_def)

end
