(* ===== verification/ObjectStore.thy ===== *)
theory ObjectStore
  imports Sha256
begin

text \<open>
  The object storage: the interface \<open>Storage\<close> of \<open>storage/storage.go\<close> with its
  laws as a locale, the MinIO adapter of \<open>storage/minio.go\<close> over the client library
  as a parameter, and the in-memory \<open>MockStorage\<close> of \<open>testutil/testutil.go\<close>, which
  interprets the locale.
\<close>

section \<open>The interface Storage\<close>

text \<open>The body of an upload is what its reader gives: all bytes or a read error.\<close>

record 's storage =
  st_Upload :: "string \<Rightarrow> go_error + bytes \<Rightarrow> int \<Rightarrow> string \<Rightarrow> 's \<Rightarrow> (go_error + string) \<times> 's"
  st_GetPresignedURL :: "string \<Rightarrow> 's \<Rightarrow> go_error + string"
  st_Exists :: "string \<Rightarrow> 's \<Rightarrow> go_error + bool"
  st_Delete :: "string \<Rightarrow> 's \<Rightarrow> (go_error + unit) \<times> 's"

text \<open>
  The laws that the services rely on; \<open>objects s\<close> is the content of the bucket. A
  failed upload or deletion may or may not have taken effect, but on its own key only.
\<close>

locale object_storage =
  fixes st :: "'s storage"
    and objects :: "'s \<Rightarrow> string \<Rightarrow> bytes option"
  assumes upload_stores:
      "st_Upload st k (Inr b) n ct s = (Inr k', s') \<Longrightarrow> k' = k \<and> objects s' = (objects s)(k \<mapsto> b)"
    and upload_other: "st_Upload st k r n ct s = (Inl e, s') \<Longrightarrow> k' \<noteq> k \<Longrightarrow> objects s' k' = objects s k'"
    and delete_removes: "st_Delete st k s = (Inr (), s') \<Longrightarrow> objects s' = (objects s)(k := None)"
    and delete_other: "st_Delete st k s = (Inl e, s') \<Longrightarrow> k' \<noteq> k \<Longrightarrow> objects s' k' = objects s k'"
    and exists_exact: "st_Exists st k s = Inr x \<Longrightarrow> x = (objects s k \<noteq> None)"
begin

lemma delete_frame: "st_Delete st k s = (r, s') \<Longrightarrow> k' \<noteq> k \<Longrightarrow> objects s' k' = objects s k'"
  by (cases r) (auto simp: delete_removes delete_other)

lemma upload_frame:
  "st_Upload st k (Inr b) n ct s = (r, s') \<Longrightarrow> k' \<noteq> k \<Longrightarrow> objects s' k' = objects s k'"
  by (cases r) (auto simp: upload_stores upload_other)

lemma upload_then_exists:
  "st_Upload st k (Inr b) n ct s = (Inr k', s') \<Longrightarrow> st_Exists st k s' = Inr x \<Longrightarrow> x"
  by (drule upload_stores, drule exists_exact) simp

lemma delete_then_exists: "st_Delete st k s = (Inr (), s') \<Longrightarrow> st_Exists st k s' = Inr x \<Longrightarrow> \<not> x"
  by (drule delete_removes, drule exists_exact) simp

end

section \<open>The MinIO adapter\<close>

text \<open>The client library \<open>minio-go\<close>, per bucket. \<open>ToErrorResponse\<close> gives the code
  and the HTTP status of one of its errors.\<close>

record 's minio_client =
  BucketExists :: "string \<Rightarrow> 's \<Rightarrow> go_error + bool"
  MakeBucket :: "string \<Rightarrow> 's \<Rightarrow> (go_error + unit) \<times> 's"
  PutObject :: "string \<Rightarrow> string \<Rightarrow> go_error + bytes \<Rightarrow> int \<Rightarrow> string \<Rightarrow> 's \<Rightarrow> (go_error + unit) \<times> 's"
  PresignedGetObject :: "string \<Rightarrow> string \<Rightarrow> duration \<Rightarrow> 's \<Rightarrow> go_error + string"
  StatObject :: "string \<Rightarrow> string \<Rightarrow> 's \<Rightarrow> go_error + unit"
  RemoveObject :: "string \<Rightarrow> string \<Rightarrow> 's \<Rightarrow> (go_error + unit) \<times> 's"
  ToErrorResponse :: "go_error \<Rightarrow> string \<times> int"

record 's minio_storage =
  client :: "'s minio_client"
  bucketName :: string
  presignedURLMinutes :: int

text \<open>\<open>minio.New\<close> gives the client or fails.\<close>

definition NewMinIOStorage ::
  "go_error + 's minio_client \<Rightarrow> string \<Rightarrow> int \<Rightarrow> 's \<Rightarrow> (go_error + 's minio_storage) \<times> 's" where
  "NewMinIOStorage new_client bucket presignedMinutes s =
     (case wrapf ''minio client'' new_client of
        Inl e \<Rightarrow> (Inl e, s)
      | Inr cl \<Rightarrow>
          (case wrapf ''minio bucket check'' (BucketExists cl bucket s) of
             Inl e \<Rightarrow> (Inl e, s)
           | Inr ex \<Rightarrow>
               (let (made, s') = (if ex then (Inr (), s) else MakeBucket cl bucket s)
                in case wrapf ''minio make bucket'' made of
                     Inl e \<Rightarrow> (Inl e, s')
                   | Inr _ \<Rightarrow> (Inr \<lparr>client = cl, bucketName = bucket,
                                  presignedURLMinutes = presignedMinutes\<rparr>, s'))))"

definition minio_Upload ::
  "'s minio_storage \<Rightarrow> string \<Rightarrow> go_error + bytes \<Rightarrow> int \<Rightarrow> string \<Rightarrow> 's \<Rightarrow> (go_error + string) \<times> 's" where
  "minio_Upload m key body sz contentType s =
     (case PutObject (client m) (bucketName m) key body sz contentType s of
        (Inl e, s') \<Rightarrow> (Inl (Errorf (''upload '' @ key) e), s')
      | (Inr _, s') \<Rightarrow> (Inr key, s'))"

definition minio_GetPresignedURL :: "'s minio_storage \<Rightarrow> string \<Rightarrow> 's \<Rightarrow> go_error + string" where
  "minio_GetPresignedURL m key s =
     (let ttl = int64 (presignedURLMinutes m * minute)
      in wrapf (''presign '' @ key) (PresignedGetObject (client m) (bucketName m) key ttl s))"

definition isNotFound :: "'s minio_client \<Rightarrow> go_error \<Rightarrow> bool" where
  "isNotFound cl e = (let (code, status) = ToErrorResponse cl e in code = ''NoSuchKey'' \<or> status = 404)"

definition minio_Exists :: "'s minio_storage \<Rightarrow> string \<Rightarrow> 's \<Rightarrow> go_error + bool" where
  "minio_Exists m key s =
     (case StatObject (client m) (bucketName m) key s of
        Inl e \<Rightarrow> if isNotFound (client m) e then Inr False else Inl (Errorf (''stat '' @ key) e)
      | Inr _ \<Rightarrow> Inr True)"

definition minio_Delete :: "'s minio_storage \<Rightarrow> string \<Rightarrow> 's \<Rightarrow> (go_error + unit) \<times> 's" where
  "minio_Delete m key s =
     (case RemoveObject (client m) (bucketName m) key s of
        (Inl e, s') \<Rightarrow> (Inl (Errorf (''delete '' @ key) e), s')
      | (Inr _, s') \<Rightarrow> (Inr (), s'))"

definition minio_as_storage :: "'s minio_storage \<Rightarrow> 's storage" where
  "minio_as_storage m = \<lparr>st_Upload = minio_Upload m, st_GetPresignedURL = minio_GetPresignedURL m,
     st_Exists = minio_Exists m, st_Delete = minio_Delete m\<rparr>"

text \<open>The documented behaviour of the client on one bucket: a put stores the object, a
  removal removes it (and is no error for a missing one), a stat answers not found
  exactly for a missing object.\<close>

definition s3_semantics :: "'s minio_client \<Rightarrow> string \<Rightarrow> ('s \<Rightarrow> string \<Rightarrow> bytes option) \<Rightarrow> bool" where
  "s3_semantics cl bucket objects \<longleftrightarrow>
     (\<forall>k b n ct s s'. PutObject cl bucket k (Inr b) n ct s = (Inr (), s') \<longrightarrow> objects s' = (objects s)(k \<mapsto> b)) \<and>
     (\<forall>k r n ct s e s' k'. PutObject cl bucket k r n ct s = (Inl e, s') \<and> k' \<noteq> k \<longrightarrow> objects s' k' = objects s k') \<and>
     (\<forall>k s s'. RemoveObject cl bucket k s = (Inr (), s') \<longrightarrow> objects s' = (objects s)(k := None)) \<and>
     (\<forall>k s e s' k'. RemoveObject cl bucket k s = (Inl e, s') \<and> k' \<noteq> k \<longrightarrow> objects s' k' = objects s k') \<and>
     (\<forall>k s. StatObject cl bucket k s = Inr () \<longrightarrow> objects s k \<noteq> None) \<and>
     (\<forall>k s e. StatObject cl bucket k s = Inl e \<and> isNotFound cl e \<longrightarrow> objects s k = None)"

lemma minio_object_storage:
  assumes "s3_semantics (client m) (bucketName m) objects"
  shows "object_storage (minio_as_storage m) objects"
proof unfold_locales
  fix k b n ct s k' s'
  assume "st_Upload (minio_as_storage m) k (Inr b) n ct s = (Inr k', s')"
  then show "k' = k \<and> objects s' = (objects s)(k \<mapsto> b)"
    using assms by (auto simp: minio_as_storage_def minio_Upload_def s3_semantics_def
        split: prod.splits sum.splits)
next
  fix k r n ct s e s' and k' :: string
  assume "st_Upload (minio_as_storage m) k r n ct s = (Inl e, s')" "k' \<noteq> k"
  then show "objects s' k' = objects s k'"
    using assms by (auto simp: minio_as_storage_def minio_Upload_def s3_semantics_def
        split: prod.splits sum.splits)
next
  fix k s s'
  assume "st_Delete (minio_as_storage m) k s = (Inr (), s')"
  then show "objects s' = (objects s)(k := None)"
    using assms by (auto simp: minio_as_storage_def minio_Delete_def s3_semantics_def
        split: prod.splits sum.splits)
next
  fix k s e s' and k' :: string
  assume "st_Delete (minio_as_storage m) k s = (Inl e, s')" "k' \<noteq> k"
  then show "objects s' k' = objects s k'"
    using assms by (auto simp: minio_as_storage_def minio_Delete_def s3_semantics_def
        split: prod.splits sum.splits)
next
  fix k s b
  assume "st_Exists (minio_as_storage m) k s = Inr b"
  then show "b = (objects s k \<noteq> None)"
    using assms by (auto simp: minio_as_storage_def minio_Exists_def s3_semantics_def
        split: sum.splits if_splits)
qed

section \<open>Files on disk\<close>

text \<open>An open file: what \<open>Stat\<close>, a \<open>Read\<close> into a buffer and a seek to the start give. The
  detection of content types is that of \<open>net/http\<close>.\<close>

datatype read_error = EOF | ReadError go_error

record os_file =
  of_Stat :: "go_error + int"
  of_Read :: "nat \<Rightarrow> bytes \<times> read_error option"
  of_Seek :: "go_error + unit"
  of_closed :: bool

definition file_Close :: "os_file \<Rightarrow> os_file" where
  "file_Close f = f\<lparr>of_closed := True\<rparr>"

text \<open>With an error comes the file that had been opened, if any, as it is left.\<close>

definition OpenFileWithMeta ::
  "(string \<Rightarrow> go_error + os_file) \<Rightarrow> (bytes \<Rightarrow> string) \<Rightarrow> string \<Rightarrow>
     go_error \<times> os_file option + os_file \<times> int \<times> string" where
  "OpenFileWithMeta os_Open DetectContentType path =
     (case os_Open path of
        Inl e \<Rightarrow> Inl (e, None)
      | Inr f \<Rightarrow>
          (case of_Stat f of
             Inl e \<Rightarrow> Inl (e, Some (file_Close f))
           | Inr sz \<Rightarrow>
               (case of_Read f 512 of
                  (_, Some (ReadError e)) \<Rightarrow> Inl (e, Some (file_Close f))
                | (buf, _) \<Rightarrow>
                    (case of_Seek f of
                       Inl e \<Rightarrow> Inl (e, Some (file_Close f))
                     | Inr _ \<Rightarrow> Inr (f, sz, DetectContentType buf)))))"

text \<open>No file is left open with an error, and an empty file, whose first read is at its end, is
  none.\<close>

lemma OpenFileWithMeta_closes:
  "OpenFileWithMeta op detect path = Inl (e, Some f) \<Longrightarrow> of_closed f"
  by (auto simp: OpenFileWithMeta_def file_Close_def split: sum.splits prod.splits option.splits read_error.splits)

lemma OpenFileWithMeta_Inr:
  "OpenFileWithMeta op detect path = Inr (f, sz, ct) \<longleftrightarrow>
     op path = Inr f \<and> of_Stat f = Inr sz \<and> of_Seek f = Inr () \<and> ct = detect (fst (of_Read f 512)) \<and>
     (snd (of_Read f 512) = None \<or> snd (of_Read f 512) = Some EOF)"
  by (auto simp: OpenFileWithMeta_def split: sum.splits prod.splits option.splits read_error.splits)

section \<open>MockStorage\<close>

record mock_storage =
  mock_objects :: "string \<Rightarrow> bytes option"
  UploadErr :: "go_error option"
  GetPresignErr :: "go_error option"
  mock_DeleteErr :: "go_error option"

definition NewMockStorage :: mock_storage where
  "NewMockStorage = \<lparr>mock_objects = (\<lambda>_. None), UploadErr = None, GetPresignErr = None, mock_DeleteErr = None\<rparr>"

definition mock_Upload ::
  "string \<Rightarrow> go_error + bytes \<Rightarrow> int \<Rightarrow> string \<Rightarrow> mock_storage \<Rightarrow> (go_error + string) \<times> mock_storage" where
  "mock_Upload key body sz ct m =
     (case UploadErr m of
        Some e \<Rightarrow> (Inl e, m)
      | None \<Rightarrow>
          (case body of
             Inl e \<Rightarrow> (Inl e, m)
           | Inr data \<Rightarrow> (Inr key, m\<lparr>mock_objects := (mock_objects m)(key \<mapsto> data)\<rparr>)))"

definition mock_GetPresignedURL :: "string \<Rightarrow> mock_storage \<Rightarrow> go_error + string" where
  "mock_GetPresignedURL key m =
     (case GetPresignErr m of
        Some e \<Rightarrow> Inl e
      | None \<Rightarrow> Inr (''https://mock-storage.test/'' @ key @ ''?token=signed''))"

definition mock_Exists :: "string \<Rightarrow> mock_storage \<Rightarrow> go_error + bool" where
  "mock_Exists key m = Inr (mock_objects m key \<noteq> None)"

definition mock_Delete :: "string \<Rightarrow> mock_storage \<Rightarrow> (go_error + unit) \<times> mock_storage" where
  "mock_Delete key m =
     (case mock_DeleteErr m of
        Some e \<Rightarrow> (Inl e, m)
      | None \<Rightarrow> (Inr (), m\<lparr>mock_objects := (mock_objects m)(key := None)\<rparr>))"

definition mock_ObjectCount :: "mock_storage \<Rightarrow> int" where
  "mock_ObjectCount m = int (card (dom (mock_objects m)))"

definition mock_Has :: "string \<Rightarrow> mock_storage \<Rightarrow> bool" where
  "mock_Has key m \<longleftrightarrow> key \<in> dom (mock_objects m)"

definition MockStorage :: "mock_storage storage" where
  "MockStorage = \<lparr>st_Upload = mock_Upload, st_GetPresignedURL = mock_GetPresignedURL,
     st_Exists = mock_Exists, st_Delete = mock_Delete\<rparr>"

lemmas mock_storage_defs = MockStorage_def mock_Upload_def mock_GetPresignedURL_def mock_Exists_def
  mock_Delete_def

interpretation mock: object_storage MockStorage mock_objects
  by unfold_locales (auto simp: mock_storage_defs split: option.splits sum.splits)

text \<open>What the tests count: an upload adds an object exactly when its key is new, a deletion
  takes one away exactly when it was there.\<close>

lemma mock_ObjectCount_Upload:
  assumes "mock_Upload key body sz ct m = (Inr k, m')" and "finite (dom (mock_objects m))"
  shows "mock_ObjectCount m' = mock_ObjectCount m + (if mock_Has key m then 0 else 1)"
proof -
  obtain b where "mock_objects m' = (mock_objects m)(key \<mapsto> b)"
    using assms(1) by (auto simp: mock_Upload_def split: option.splits sum.splits)
  then have "dom (mock_objects m') = insert key (dom (mock_objects m))" by simp
  with card_insert_if[OF assms(2), of key] show ?thesis by (simp add: mock_ObjectCount_def mock_Has_def del: domIff)
qed

lemma mock_ObjectCount_Delete:
  assumes "mock_Delete key m = (Inr (), m')" and "finite (dom (mock_objects m))"
  shows "mock_ObjectCount m' = mock_ObjectCount m - (if mock_Has key m then 1 else 0)"
proof -
  have "mock_objects m' = (mock_objects m)(key := None)"
    using assms(1) by (auto simp: mock_Delete_def split: option.splits)
  then have "dom (mock_objects m') = dom (mock_objects m) - {key}" by simp
  with card.remove[OF assms(2), of key] show ?thesis
    by (cases "key \<in> dom (mock_objects m)") (simp_all add: mock_ObjectCount_def mock_Has_def del: domIff card_Diff_insert)
qed

text \<open>The mock's client view: it is also what the adapter gives over a client with the
  mock's map as its bucket.\<close>

definition mock_client :: "mock_storage minio_client" where
  "mock_client = \<lparr>BucketExists = (\<lambda>_ _. Inr True), MakeBucket = (\<lambda>_ s. (Inr (), s)),
     PutObject = (\<lambda>_ k r n ct s. case mock_Upload k r n ct s of (Inl e, s') \<Rightarrow> (Inl e, s') | (Inr _, s') \<Rightarrow> (Inr (), s')),
     PresignedGetObject = (\<lambda>_ k _ s. mock_GetPresignedURL k s),
     StatObject = (\<lambda>_ k s. if mock_objects s k = None then Inl (Opaque ''NoSuchKey'') else Inr ()),
     RemoveObject = (\<lambda>_. mock_Delete),
     ToErrorResponse = (\<lambda>e. (err_text e, 404))\<rparr>"

lemma mock_client_s3: "s3_semantics mock_client bucket mock_objects"
  by (auto simp: s3_semantics_def mock_client_def mock_storage_defs isNotFound_def
      split: option.splits sum.splits prod.splits if_splits)

end
