(* ===== verification/FileService.thy ===== *)
theory FileService
  imports MetadataClaims ObjectStore
begin

text \<open>
  The file service, \<open>service/file_service.go\<close>: the upload pipeline (hash, metadata
  transaction, object upload, rollback), deletion, lookups and presigned URLs, over
  the interfaces \<open>MetadataRepository\<close> and \<open>Storage\<close>. The laws of the repository are
  the locale \<open>metadata_repository\<close>, which the PostgreSQL store interprets.
\<close>

section \<open>Interfaces and data\<close>

record 'm metadata_repository =
  repo_GetByHash :: "string \<Rightarrow> 'm \<Rightarrow> go_error + file_meta"
  repo_GetByID :: "string \<Rightarrow> string \<Rightarrow> 'm \<Rightarrow> go_error + file_meta"
  repo_ListByUser :: "string \<Rightarrow> 'm \<Rightarrow> go_error + file_meta list"
  repo_Save :: "string \<Rightarrow> string \<Rightarrow> string \<Rightarrow> string \<Rightarrow> string \<Rightarrow> int \<Rightarrow> 'm \<Rightarrow> (go_error + save_result) \<times> 'm"
  repo_Delete :: "string \<Rightarrow> string \<Rightarrow> 'm \<Rightarrow> (go_error + delete_result) \<times> 'm"

text \<open>A multipart file: the bytes that the first read gives, the seek back to the
  start, and the bytes that a read after it gives; and its header.\<close>

record multipart_file =
  first_pass :: "go_error + bytes"
  rewind :: "go_error + unit"
  second_pass :: "go_error + bytes"

record file_header =
  hdr_Filename :: string
  hdr_ContentType :: string
  hdr_Size :: int
  hdr_Open :: "go_error + multipart_file"

record upload_result =
  upl_File :: file_meta
  upl_Duplicate :: bool

section \<open>Helpers\<close>

definition safe_name :: "string \<Rightarrow> string" where
  "safe_name filename = strings_Map (\<lambda>r. if r = CHR '' '' then CHR ''_'' else r) (path_base filename)"

text \<open>\<open>hash[:16]\<close> panics on a shorter hash.\<close>

definition buildObjectKey :: "string \<Rightarrow> string \<Rightarrow> string \<Rightarrow> go_error + string" where
  "buildObjectKey userID hash filename =
     (if length hash < 16 then Inl (Panic ''slice bounds out of range'')
      else Inr (''users/'' @ userID @ ''/'' @ take 16 hash @ ''/'' @ safe_name filename))"

definition detectContentType :: "string \<Rightarrow> string" where
  "detectContentType filename =
     (let ext = to_lower (path_ext filename)
      in if ext = ''.pdf'' then ''application/pdf''
         else if ext = ''.png'' then ''image/png''
         else if ext = ''.jpg'' \<or> ext = ''.jpeg'' then ''image/jpeg''
         else if ext = ''.gif'' then ''image/gif''
         else if ext = ''.svg'' then ''image/svg+xml''
         else if ext = ''.txt'' then ''text/plain''
         else if ext = ''.html'' \<or> ext = ''.htm'' then ''text/html''
         else if ext = ''.json'' then ''application/json''
         else if ext = ''.zip'' then ''application/zip''
         else if ext = ''.mp4'' then ''video/mp4''
         else ''application/octet-stream'')"

section \<open>The upload pipeline\<close>

text \<open>The first part reads the file only.\<close>

record prepared =
  prep_hash :: string
  prep_key :: string
  prep_ContentType :: string
  prep_name :: string
  prep_body :: "go_error + bytes"

definition prepare_upload :: "string \<Rightarrow> file_header \<Rightarrow> go_error + prepared" where
  "prepare_upload userID hdr =
     and_then (wrapf ''open upload'' (hdr_Open hdr)) (\<lambda>src.
     and_then (wrapf ''compute hash'' (ComputeSHA256 (first_pass src))) (\<lambda>hash.
     and_then (wrapf ''seek after hash'' (rewind src)) (\<lambda>_.
     let contentType =
       (if hdr_ContentType hdr = '''' \<or> hdr_ContentType hdr = ''application/octet-stream''
        then detectContentType (hdr_Filename hdr) else hdr_ContentType hdr)
     in and_then (buildObjectKey userID hash (hdr_Filename hdr)) (\<lambda>objectKey.
          Inr \<lparr>prep_hash = hash, prep_key = objectKey, prep_ContentType = contentType,
               prep_name = path_base (hdr_Filename hdr), prep_body = second_pass src\<rparr>))))"

definition save_meta ::
  "'m metadata_repository \<Rightarrow> string \<Rightarrow> file_header \<Rightarrow> prepared \<Rightarrow> 'm \<Rightarrow> (go_error + save_result) \<times> 'm" where
  "save_meta repo userID hdr pr m =
     repo_Save repo userID (prep_key pr) (prep_hash pr) (prep_ContentType pr) (prep_name pr) (hdr_Size hdr) m"

text \<open>The last part, after the metadata transaction has committed: new content goes to
  the storage, and a failure there deletes the new row again (its own failure is
  dropped).\<close>

definition deleteOrphanedMeta :: "'m metadata_repository \<Rightarrow> string \<Rightarrow> string \<Rightarrow> 'm \<Rightarrow> (go_error + unit) \<times> 'm" where
  "deleteOrphanedMeta repo fileID userID m =
     (case repo_Delete repo fileID userID m of
        (Inl e, m') \<Rightarrow> (Inl e, m')
      | (Inr _, m') \<Rightarrow> (Inr (), m'))"

definition store_object ::
  "'m metadata_repository \<Rightarrow> 's storage \<Rightarrow> string \<Rightarrow> file_header \<Rightarrow> prepared \<Rightarrow> save_result \<Rightarrow>
     'm \<times> 's \<Rightarrow> (go_error + upload_result) \<times> 'm \<times> 's" where
  "store_object repo st userID hdr pr saved w =
     (let (m, s) = w;
          ok = Inr \<lparr>upl_File = File saved, upl_Duplicate = Duplicate saved\<rparr>
      in if \<not> Duplicate saved
         then (case st_Upload st (prep_key pr) (prep_body pr) (hdr_Size hdr) (prep_ContentType pr) s of
                 (Inl e, s') \<Rightarrow>
                   (let (_, m') = deleteOrphanedMeta repo (file_ID (File saved)) userID m
                    in (Inl (Errorf ''storage upload'' e), m', s'))
               | (Inr _, s') \<Rightarrow> (ok, m, s'))
         else (ok, m, s))"

definition fs_Upload ::
  "'m metadata_repository \<Rightarrow> 's storage \<Rightarrow> string \<Rightarrow> file_header \<Rightarrow> 'm \<times> 's \<Rightarrow>
     (go_error + upload_result) \<times> 'm \<times> 's" where
  "fs_Upload repo st userID hdr w =
     (case prepare_upload userID hdr of
        Inl e \<Rightarrow> (Inl e, w)
      | Inr pr \<Rightarrow>
          (case save_meta repo userID hdr pr (fst w) of
             (Inl e, m) \<Rightarrow> (Inl e, m, snd w)
           | (Inr saved, m) \<Rightarrow> store_object repo st userID hdr pr saved (m, snd w)))"

section \<open>Lookups and deletion\<close>

definition fs_GetMeta :: "'m metadata_repository \<Rightarrow> string \<Rightarrow> string \<Rightarrow> 'm \<Rightarrow> go_error + file_meta" where
  "fs_GetMeta repo fileID userID m = repo_GetByID repo fileID userID m"

definition fs_ListFiles :: "'m metadata_repository \<Rightarrow> string \<Rightarrow> 'm \<Rightarrow> go_error + file_meta list" where
  "fs_ListFiles repo userID m = repo_ListByUser repo userID m"

definition fs_PresignedURL ::
  "'m metadata_repository \<Rightarrow> 's storage \<Rightarrow> string \<Rightarrow> string \<Rightarrow> 'm \<times> 's \<Rightarrow> go_error + string" where
  "fs_PresignedURL repo st fileID userID w =
     and_then (repo_GetByID repo fileID userID (fst w)) (\<lambda>f.
       st_GetPresignedURL st (ObjectKey f) (snd w))"

text \<open>A failed removal of the object is only logged.\<close>

definition fs_Delete ::
  "'m metadata_repository \<Rightarrow> 's storage \<Rightarrow> string \<Rightarrow> string \<Rightarrow> 'm \<times> 's \<Rightarrow> (go_error + unit) \<times> 'm \<times> 's" where
  "fs_Delete repo st fileID userID w =
     (case repo_Delete repo fileID userID (fst w) of
        (Inl e, m) \<Rightarrow> (Inl e, m, snd w)
      | (Inr result, m) \<Rightarrow>
          if ShouldDeleteObject result
          then (let (_, s) = st_Delete st (res_ObjectKey result) (snd w) in (Inr (), m, s))
          else (Inr (), m, snd w))"

section \<open>The laws of the repository\<close>

text \<open>
  \<open>refs m h\<close> are the object keys that active rows of the content \<open>h\<close> name. A save
  adds one: the caller's key for new content, a key already in use for a duplicate. A
  deletion takes at most keys of one content away and asks for the object's removal
  exactly when none is left there. Deleting the row of a save of new content undoes it.
\<close>

locale metadata_repository =
  fixes repo :: "'m metadata_repository"
    and inv :: "'m \<Rightarrow> bool"
    and refs :: "'m \<Rightarrow> string \<Rightarrow> string set"
  assumes save_error: "repo_Save repo u k h ct nm n m = (Inl e, m') \<Longrightarrow> m' = m"
    and save_ok: "repo_Save repo u k h ct nm n m = (Inr r, m') \<Longrightarrow> inv m \<Longrightarrow>
      refs m' = (refs m)(h := insert (ObjectKey (File r)) (refs m h)) \<and>
      (if Duplicate r then ObjectKey (File r) \<in> refs m h else ObjectKey (File r) = k \<and> refs m h = {})"
    and delete_error: "repo_Delete repo i u m = (Inl e, m') \<Longrightarrow> m' = m"
    and delete_ok: "repo_Delete repo i u m = (Inr d, m') \<Longrightarrow> inv m \<Longrightarrow>
      \<exists>h. res_ObjectKey d \<in> refs m h \<and> refs m' h \<subseteq> refs m h \<and> (\<forall>h'. h' \<noteq> h \<longrightarrow> refs m' h' = refs m h') \<and>
        (ShouldDeleteObject d \<longleftrightarrow> refs m' h = {})"
    and undo: "repo_Save repo u k h ct nm n m = (Inr r, m1) \<Longrightarrow> inv m \<Longrightarrow> \<not> Duplicate r \<Longrightarrow>
      repo_Delete repo (file_ID (File r)) u m1 = (Inr d, m2) \<Longrightarrow> refs m2 = refs m"

text \<open>Every active row's object is in the storage and has the row's hash.\<close>

definition backed :: "(string \<Rightarrow> string set) \<Rightarrow> (string \<Rightarrow> bytes option) \<Rightarrow> bool" where
  "backed R ob \<longleftrightarrow> (\<forall>h. \<forall>k \<in> R h. \<exists>c. ob k = Some c \<and> hex_encode (sha256_sum c) = h)"

lemma backed_one_hash: "backed R ob \<Longrightarrow> k \<in> R h \<Longrightarrow> k \<in> R h' \<Longrightarrow> h = h'"
  unfolding backed_def by (metis option.inject)

text \<open>The file reads the same bytes \<open>c\<close> on both passes.\<close>

definition steady :: "file_header \<Rightarrow> bytes \<Rightarrow> bool" where
  "steady hdr c \<longleftrightarrow> (\<exists>src. hdr_Open hdr = Inr src \<and> first_pass src = Inr c \<and> second_pass src = Inr c)"

text \<open>The rollback of a failed upload works: the new row can be deleted again.\<close>

definition rolls_back :: "'m metadata_repository \<Rightarrow> string \<Rightarrow> file_header \<Rightarrow> 'm \<Rightarrow> bool" where
  "rolls_back repo userID hdr m \<longleftrightarrow>
     (\<forall>pr saved m1. save_meta repo userID hdr pr m = (Inr saved, m1) \<and> \<not> Duplicate saved \<longrightarrow>
        (\<exists>d m2. repo_Delete repo (file_ID (File saved)) userID m1 = (Inr d, m2)))"

text \<open>The key that an upload would use belongs to no other content.\<close>

definition key_free :: "(string \<Rightarrow> string set) \<Rightarrow> string \<Rightarrow> string \<Rightarrow> string \<Rightarrow> bool" where
  "key_free R userID h filename \<longleftrightarrow>
     (\<forall>k h'. buildObjectKey userID h filename = Inr k \<longrightarrow> h' \<noteq> h \<longrightarrow> k \<notin> R h')"

lemma prepare_upload_Inr:
  assumes "prepare_upload userID hdr = Inr pr" and "steady hdr c"
  shows "prep_hash pr = hex_encode (sha256_sum c) \<and> prep_body pr = Inr c \<and>
     buildObjectKey userID (hex_encode (sha256_sum c)) (hdr_Filename hdr) = Inr (prep_key pr)"
  using assms by (auto simp: prepare_upload_def steady_def Let_def)

locale file_service =
  metadata_repository repo inv refs + object_storage st objects
  for repo :: "'m metadata_repository" and inv :: "'m \<Rightarrow> bool" and refs :: "'m \<Rightarrow> string \<Rightarrow> string set"
    and st :: "'s storage" and objects :: "'s \<Rightarrow> string \<Rightarrow> bytes option"
begin

lemma upload_success:
  assumes "fs_Upload repo st userID hdr (m, s) = (Inr r, m', s')" and "inv m" and "steady hdr c"
  defines "h \<equiv> hex_encode (sha256_sum c)"
  shows "refs m' = (refs m)(h := insert (ObjectKey (upl_File r)) (refs m h)) \<and>
    (if upl_Duplicate r then ObjectKey (upl_File r) \<in> refs m h \<and> s' = s
     else refs m h = {} \<and> buildObjectKey userID h (hdr_Filename hdr) = Inr (ObjectKey (upl_File r)) \<and>
          objects s' = (objects s)(ObjectKey (upl_File r) \<mapsto> c))"
proof -
  from assms(1) obtain pr saved where pr: "prepare_upload userID hdr = Inr pr"
    and saved: "save_meta repo userID hdr pr m = (Inr saved, m')"
    and r: "upl_File r = File saved" "upl_Duplicate r = Duplicate saved"
    and st: "if Duplicate saved then s' = s else
      \<exists>k'. st_Upload st (prep_key pr) (prep_body pr) (hdr_Size hdr) (prep_ContentType pr) s = (Inr k', s')"
    by (auto simp: fs_Upload_def store_object_def Let_def split: sum.splits prod.splits if_splits)
  note p = prepare_upload_Inr[OF pr assms(3)]
  note ok = save_ok[OF saved[unfolded save_meta_def] assms(2)]
  show ?thesis
  proof (cases "Duplicate saved")
    case True
    with p ok r st show ?thesis by (simp add: h_def)
  next
    case False
    with st p obtain k' where "st_Upload st (prep_key pr) (Inr c) (hdr_Size hdr) (prep_ContentType pr) s = (Inr k', s')"
      by auto
    with False p ok r upload_stores show ?thesis by (auto simp: h_def)
  qed
qed

lemma upload_failure:
  assumes "fs_Upload repo st userID hdr (m, s) = (Inl e, m', s')" and "inv m" and "steady hdr c"
    and rollback: "rolls_back repo userID hdr m"
  shows "refs m' = refs m \<and> (\<forall>k. objects s' k \<noteq> objects s k \<longrightarrow>
      buildObjectKey userID (hex_encode (sha256_sum c)) (hdr_Filename hdr) = Inr k \<and>
      refs m (hex_encode (sha256_sum c)) = {})"
proof (cases "prepare_upload userID hdr")
  case (Inl e')
  with assms(1) show ?thesis by (simp add: fs_Upload_def)
next
  case (Inr pr)
  note p = prepare_upload_Inr[OF Inr assms(3)]
  show ?thesis
  proof (cases "save_meta repo userID hdr pr m")
    case (Pair x m1)
    show ?thesis
    proof (cases x)
      case (Inl e')
      with Pair Inr assms(1) show ?thesis
        using save_error[of userID "prep_key pr" "prep_hash pr" "prep_ContentType pr" "prep_name pr"
            "hdr_Size hdr" m e' m1]
        by (auto simp: fs_Upload_def save_meta_def)
    next
      case saved: (Inr saved)
      with Pair have saved: "save_meta repo userID hdr pr m = (Inr saved, m1)" by simp
      note ok = save_ok[OF saved[unfolded save_meta_def] assms(2)]
      have nd: "\<not> Duplicate saved"
        using assms(1) Inr saved by (auto simp: fs_Upload_def store_object_def Let_def split: if_splits)
      with rollback saved obtain d m2 where del: "repo_Delete repo (file_ID (File saved)) userID m1 = (Inr d, m2)"
        unfolding rolls_back_def by blast
      with assms(1) Inr saved nd have m': "m' = m2"
        and up: "\<exists>e. st_Upload st (prep_key pr) (Inr c) (hdr_Size hdr) (prep_ContentType pr) s = (Inl e, s')"
        using p by (auto simp: fs_Upload_def store_object_def deleteOrphanedMeta_def Let_def
            split: prod.splits sum.splits if_splits)
      have "refs m' = refs m"
        using undo[OF saved[unfolded save_meta_def] assms(2) nd del] m' by simp
      moreover have "k = prep_key pr" if "objects s' k \<noteq> objects s k" for k
        using up upload_other that by blast
      ultimately show ?thesis using p ok nd by simp
    qed
  qed
qed

lemma upload_keeps_backed:
  assumes "backed (refs m) (objects s)" and "inv m" and "steady hdr c"
    and "key_free (refs m) userID (hex_encode (sha256_sum c)) (hdr_Filename hdr)"
    and "rolls_back repo userID hdr m"
    and run: "fs_Upload repo st userID hdr (m, s) = (r, m', s')"
  shows "backed (refs m') (objects s')"
proof (cases r)
  case (Inl e)
  with run have run: "fs_Upload repo st userID hdr (m, s) = (Inl e, m', s')" by simp
  note eff = upload_failure[OF run assms(2,3,5)]
  have "objects s' k = objects s k" if "k \<in> refs m h" for k h
    using eff that assms(4) by (cases "h = hex_encode (sha256_sum c)") (auto simp: key_free_def)
  then show ?thesis using assms(1) eff by (simp add: backed_def)
next
  case (Inr res)
  with run have run: "fs_Upload repo st userID hdr (m, s) = (Inr res, m', s')" by simp
  note eff = upload_success[OF run assms(2,3)]
  show ?thesis
  proof (cases "upl_Duplicate res")
    case True
    with eff assms(1) show ?thesis by (auto simp: backed_def)
  next
    case False
    then have "ObjectKey (upl_File res) \<notin> refs m h" if "h \<noteq> hex_encode (sha256_sum c)" for h
      using eff assms(4) that by (auto simp: key_free_def)
    with False eff assms(1) show ?thesis by (auto simp: backed_def)
  qed
qed

lemma delete_keeps_backed:
  assumes "backed (refs m) (objects s)" and "inv m"
    and run: "fs_Delete repo st fileID userID (m, s) = (r, m', s')"
  shows "backed (refs m') (objects s')"
proof (cases "repo_Delete repo fileID userID m")
  case (Pair x m1)
  show ?thesis
  proof (cases x)
    case (Inl e)
    with Pair run assms(1) delete_error[of fileID userID m e m1] show ?thesis
      by (auto simp: fs_Delete_def)
  next
    case (Inr d)
    with Pair have del: "repo_Delete repo fileID userID m = (Inr d, m1)" by simp
    from delete_ok[OF del assms(2)] obtain h where h: "res_ObjectKey d \<in> refs m h" "refs m1 h \<subseteq> refs m h"
      "\<And>h'. h' \<noteq> h \<Longrightarrow> refs m1 h' = refs m h'" "ShouldDeleteObject d \<longleftrightarrow> refs m1 h = {}"
      by blast
    have sub: "refs m1 h' \<subseteq> refs m h'" for h' using h(2,3) by (cases "h' = h") auto
    have m': "m' = m1" using run del by (auto simp: fs_Delete_def split: if_splits prod.splits)
    show ?thesis
    proof (cases "ShouldDeleteObject d")
      case False
      with run del assms(1) sub m' show ?thesis by (fastforce simp: fs_Delete_def backed_def)
    next
      case True
      then obtain y where y: "st_Delete st (res_ObjectKey d) s = (y, s')"
        using run del by (auto simp: fs_Delete_def split: prod.splits)
      have "k \<noteq> res_ObjectKey d" if "k \<in> refs m1 h'" for k h'
        using that True h sub backed_one_hash[OF assms(1)] by blast
      then have "objects s' k = objects s k" if "k \<in> refs m1 h'" for k h'
        using delete_frame[OF y] that by blast
      with assms(1) sub m' show ?thesis by (fastforce simp: backed_def)
    qed
  qed
qed

end

section \<open>The PostgreSQL store is a repository\<close>

definition postgres_repo :: "pg \<Rightarrow> database metadata_repository" where
  "postgres_repo p = \<lparr>repo_GetByHash = GetByHash p, repo_GetByID = GetByID p,
     repo_ListByUser = ListByUser p, repo_Save = Save p, repo_Delete = Delete p\<rparr>"

lemma postgres_repo_sel [simp]:
  "repo_GetByHash (postgres_repo p) = GetByHash p" "repo_GetByID (postgres_repo p) = GetByID p"
  "repo_ListByUser (postgres_repo p) = ListByUser p" "repo_Save (postgres_repo p) = Save p"
  "repo_Delete (postgres_repo p) = Delete p"
  by (simp_all add: postgres_repo_def)

definition pg_refs :: "database \<Rightarrow> string \<Rightarrow> string set" where
  "pg_refs db h = ObjectKey ` set (live db h)"

text \<open>What the laws need of a database: the schema's constraints and correct counts.\<close>

definition pg_inv :: "database \<Rightarrow> bool" where
  "pg_inv db \<longleftrightarrow> db_constraints db \<and> refs_ok db"

text \<open>A server whose \<open>LIMIT 1\<close> takes the first row and whose generated ids are in
  canonical form; any server that behaves so is its own \<open>first_row\<close>.\<close>

definition first_row :: "pg \<Rightarrow> pg" where
  "first_row p = p\<lparr>scan := (\<lambda>_. 0), uuid_in := (uuid_in p)(gen_uuid p := Some (gen_uuid p))\<rparr>"

lemma first_row_sel [simp]:
  "scan (first_row p) s = 0" "gen_uuid (first_row p) = gen_uuid p" "clock (first_row p) = clock p"
  "fault (first_row p) = fault p" "uuid_in (first_row p) (gen_uuid p) = Some (gen_uuid p)"
  by (simp_all add: first_row_def)

lemma first_row_id:
  "(\<And>s. scan p s = 0) \<Longrightarrow> uuid_in p (gen_uuid p) = Some (gen_uuid p) \<Longrightarrow> first_row p = p"
  by (subgoal_tac "scan p = (\<lambda>_. 0)") (auto simp: first_row_def fun_upd_idem)

lemma pg_refs_save: "active f \<Longrightarrow> pg_refs (after_save found f db) h =
    (if h = SHA256 f then insert (ObjectKey f) (pg_refs db h) else pg_refs db h)"
  by (cases found) (auto simp: pg_refs_def live_after_save)

lemma pg_save_ok:
  assumes "Save p u k h ct nm n db = (Inr r, db')"
  shows "pg_refs db' = (pg_refs db)(h := insert (ObjectKey (File r)) (pg_refs db h)) \<and>
      (if Duplicate r then ObjectKey (File r) \<in> pg_refs db h else ObjectKey (File r) = k \<and> pg_refs db h = {})"
proof -
  from assms obtain v where dup: "Duplicate r \<longleftrightarrow> live db h \<noteq> []"
    and f: "File r = new_row p v
           (case limit1 (scan p S_SaveFindCanonical) (live db h) of None \<Rightarrow> k | Some c \<Rightarrow> ObjectKey c)
           h ct nm n"
    and db': "db' = after_save (limit1 (scan p S_SaveFindCanonical) (live db h)) (File r) db"
    by (rule Save_Inr) blast
  have "active (File r)" "SHA256 (File r) = h" by (simp_all add: f new_row_def active_def)
  then have "pg_refs db' = (pg_refs db)(h := insert (ObjectKey (File r)) (pg_refs db h))"
    by (auto simp: db' pg_refs_save fun_eq_iff)
  moreover have "if Duplicate r then ObjectKey (File r) \<in> pg_refs db h else ObjectKey (File r) = k \<and> pg_refs db h = {}"
    using dup limit1_in[of "scan p S_SaveFindCanonical" "live db h"]
    by (auto simp: f new_row_def pg_refs_def split: option.splits)
  ultimately show ?thesis by blast
qed

lemma pg_delete_ok:
  assumes "Delete p i u db = (Inr d, db')" and "scan p S_DelFindCanon = 0" and "pg_inv db"
  shows "\<exists>h. res_ObjectKey d \<in> pg_refs db h \<and> pg_refs db' h \<subseteq> pg_refs db h \<and>
      (\<forall>h'. h' \<noteq> h \<longrightarrow> pg_refs db' h' = pg_refs db h') \<and> (ShouldDeleteObject d \<longleftrightarrow> pg_refs db' h = {})"
proof -
  from assms(1) obtain f c where f: "f \<in> set (files db)" "active f"
    and c: "limit1 (scan p S_DelFindCanon) (live db (SHA256 f)) = Some c"
    and d: "res_ObjectKey d = ObjectKey f" "ShouldDeleteObject d \<longleftrightarrow> RefCount c \<le> 1"
    and db': "db' = after_delete (clock p) f c db"
    by (rule Delete_Inr) blast
  have inv: "db_constraints db" "refs_ok db" using assms(3) by (simp_all add: pg_inv_def)
  have "live db (SHA256 f) \<noteq> []" using c by auto
  then have ch: "c = hd (live db (SHA256 f))" using c assms(2) by (simp add: limit1_0)
  have "ShouldDeleteObject d \<longleftrightarrow> pg_refs db' (SHA256 f) = {}"
    using live_after_Delete[OF inv(2,1) f] d(2) by (simp add: pg_refs_def db' ch)
  moreover have "pg_refs db' h' \<subseteq> pg_refs db h'" for h'
    by (auto simp: pg_refs_def db' live_after_delete)
  moreover have "pg_refs db' h' = pg_refs db h'" if "h' \<noteq> SHA256 f" for h'
  proof -
    have "sql_delete (\<lambda>x. file_ID x = file_ID f) (live db h') = live db h'"
      using unique_row[OF constraints_file_ids[OF inv(1)] _ f(1)] that
      by (intro sql_delete_id) (auto simp: live_in)
    then show ?thesis by (simp add: pg_refs_def db' live_after_delete)
  qed
  moreover have "res_ObjectKey d \<in> pg_refs db (SHA256 f)" using f d by (simp add: pg_refs_def live_in)
  ultimately show ?thesis by blast
qed

lemma pg_undo:
  assumes save: "Save p u k h ct nm n db = (Inr r, db1)" and inv: "pg_inv db" and scan: "\<And>s. scan p s = 0"
    and id: "uuid_in p (gen_uuid p) = Some (gen_uuid p)"
    and del: "Delete p (file_ID (File r)) u db1 = (Inr d, db2)"
  shows "pg_refs db2 = pg_refs db"
proof -
  from save obtain v x where v: "x \<in> set (users db)" "user_ID x = v"
    and fresh: "gen_uuid p \<notin> file_ID ` set (files db)"
    and f: "File r = new_row p v
           (case limit1 (scan p S_SaveFindCanonical) (live db h) of None \<Rightarrow> k | Some c \<Rightarrow> ObjectKey c)
           h ct nm n"
    and db1: "db1 = after_save (limit1 (scan p S_SaveFindCanonical) (live db h)) (File r) db"
    by (rule Save_Inr) blast
  have sel: "file_ID (File r) = gen_uuid p" "SHA256 (File r) = h" "active (File r)" "RefCount (File r) = 1"
    "file_UserID (File r) = v"
    by (simp_all add: f new_row_def active_def)
  have I: "db_constraints db" "refs_ok db" using inv by (simp_all add: pg_inv_def)
  from del obtain g c where g: "uuid_in p (file_ID (File r)) = Some (file_ID g)" "g \<in> set (files db1)"
    and c: "limit1 (scan p S_DelFindCanon) (live db1 (SHA256 g)) = Some c"
    and db2: "db2 = after_delete (clock p) g c db1"
    by (rule Delete_Inr) blast
  have "db_constraints db1"
    unfolding db1 using I(1) fresh v sel by (intro constraints_after_save) auto
  moreover have "File r \<in> set (files db1)" by (simp add: db1 after_save_def split: option.splits)
  ultimately have gf: "g = File r"
    using unique_row[OF constraints_file_ids g(2)] g(1) id sel by simp
  have "live db1 (SHA256 g) \<noteq> []" using c by auto
  then have ch: "c = hd (live db1 (SHA256 (File r)))" using c scan by (simp add: limit1_0 gf)
  have db1': "db1 = after_save (limit1 0 (live db (SHA256 (File r)))) (File r) db"
    using db1 scan sel by simp
  have "live db2 h' = live db h'" for h'
    using live_save_delete[OF I(2,1) _ sel(3,4) ch db1', of "clock p" h'] fresh sel by (simp add: db2 gf)
  then show ?thesis by (simp add: pg_refs_def fun_eq_iff)
qed

lemma charged_fits:
  assumes "0 \<le> sz" and "\<And>x. x \<in> set xs \<Longrightarrow> 0 \<le> StorageBytesUsed x"
    and "\<And>x. x \<in> set xs \<Longrightarrow> user_ID x = u \<Longrightarrow> int8_ok (StorageBytesUsed x + sz)"
    and "y \<in> set (charge u sz xs)" and "user_ID y = u"
  shows "int8_ok (StorageBytesUsed y - sz)"
proof -
  from assms(4) obtain x where x: "x \<in> set xs"
    "y = (if user_ID x = u then x\<lparr>StorageBytesUsed := StorageBytesUsed x + sz\<rparr> else x)"
    unfolding charge_def in_set_sql_update by blast
  with assms(5) have "user_ID x = u" "StorageBytesUsed y = StorageBytesUsed x + sz" by (simp_all split: if_splits)
  with assms(1) assms(2,3)[OF x(1)] show ?thesis by (simp add: int8_ok_def)
qed

text \<open>Without a server failure the rollback works.\<close>

lemma pg_rolls_back:
  assumes inv: "db_constraints db" and used: "\<And>x. x \<in> set (users db) \<Longrightarrow> 0 \<le> StorageBytesUsed x"
    and id: "uuid_in p (gen_uuid p) = Some (gen_uuid p)" and sz: "0 \<le> hdr_Size hdr"
    and no_fault: "\<And>s. s \<in> {S_DelBegin, S_DelFetch, S_DelFindCanon, S_DelHard, S_DelUpdateUsage, S_DelCommit} \<Longrightarrow> \<not> fault p s"
  shows "rolls_back (postgres_repo p) userID hdr db"
  unfolding rolls_back_def
proof (intro allI impI, elim conjE)
  fix pr r db1
  assume save: "save_meta (postgres_repo p) userID hdr pr db = (Inr r, db1)" and nd: "\<not> Duplicate r"
  define h where "h = prep_hash pr"
  from save have "Save p userID (prep_key pr) h (prep_ContentType pr) (prep_name pr) (hdr_Size hdr) db = (Inr r, db1)"
    by (simp add: save_meta_def h_def)
  then obtain u x where u: "uuid_in p userID = Some u" "x \<in> set (users db)" "user_ID x = u"
    and range: "\<And>y. y \<in> set (users db) \<Longrightarrow> user_ID y = u \<Longrightarrow> int8_ok (StorageBytesUsed y + hdr_Size hdr)"
    and fresh: "gen_uuid p \<notin> file_ID ` set (files db)"
    and dup: "Duplicate r \<longleftrightarrow> live db h \<noteq> []"
    and f: "File r = new_row p u
         (case limit1 (scan p S_SaveFindCanonical) (live db h) of None \<Rightarrow> prep_key pr | Some c \<Rightarrow> ObjectKey c)
         h (prep_ContentType pr) (prep_name pr) (hdr_Size hdr)"
    and db1: "db1 = after_save (limit1 (scan p S_SaveFindCanonical) (live db h)) (File r) db"
    by (rule Save_Inr) blast
  have empty: "live db h = []" using dup nd by simp
  have sel: "file_ID (File r) = gen_uuid p" "file_UserID (File r) = u" "SHA256 (File r) = h" "active (File r)"
    "RefCount (File r) = 1" "Size (File r) = hdr_Size hdr"
    by (simp_all add: f new_row_def active_def)
  have files: "files db1 = files db @ [File r]" by (simp add: db1 after_save_def empty)
  have none: "filter (\<lambda>f. file_ID f = gen_uuid p \<and> file_UserID f = u \<and> active f) (files db) = []"
    using fresh by (auto simp: filter_empty_conv image_iff)
  have "fetch_file p (file_ID (File r)) userID db1 = Inr (File r)"
    using no_fault u none sel id by (simp add: fetch_file_def exec_def uuid_arg_def files)
  moreover have "find_canon p h db1 = Inr (gen_uuid p, 1)"
  proof -
    have "live db1 h = [File r]" using sel empty by (simp add: db1 live_after_save)
    then show ?thesis using no_fault sel by (simp add: find_canon_def exec_def query_limit1_def)
  qed
  moreover have "hard_delete p (gen_uuid p) db1 = Inr (db1\<lparr>files := sql_delete (\<lambda>f. file_ID f = gen_uuid p) (files db1)\<rparr>)"
    using no_fault by (simp add: hard_delete_def exec_def)
  moreover have "\<exists>db2. update_usage p S_DelUpdateUsage (- hdr_Size hdr) (max 0) userID
      (db1\<lparr>files := sql_delete (\<lambda>f. file_ID f = gen_uuid p) (files db1)\<rparr>) = Inr db2"
    using no_fault u sel charged_fits[OF sz used range]
    by (simp add: update_usage_def exec_def uuid_arg_def list_all_iff db1)
  ultimately have "\<exists>d db2. delete_tx p (file_ID (File r)) userID db1 = Inr (d, db2)"
    using sel by (auto simp: delete_tx_def no_rows_not_found_def)
  then obtain d db2 where "delete_tx p (file_ID (File r)) userID db1 = Inr (d, db2)" by blast
  then have "Delete p (file_ID (File r)) userID db1 = (Inr d, db2)"
    using no_fault by (simp add: Delete_def in_tx_success)
  then show "\<exists>d m2. repo_Delete (postgres_repo p) (file_ID (File r)) userID db1 = (Inr d, m2)" by auto
qed

interpretation pg_repo: metadata_repository "postgres_repo (first_row p)" pg_inv pg_refs for p
proof unfold_locales
  fix u k h ct nm n and m :: database and r m1 d m2
  assume "repo_Save (postgres_repo (first_row p)) u k h ct nm n m = (Inr r, m1)" and "pg_inv m"
    and "repo_Delete (postgres_repo (first_row p)) (file_ID (File r)) u m1 = (Inr d, m2)"
  then show "pg_refs m2 = pg_refs m" using pg_undo[of "first_row p"] by simp
next
  fix i u and m :: database and d m'
  assume "repo_Delete (postgres_repo (first_row p)) i u m = (Inr d, m')" and "pg_inv m"
  then show "\<exists>h. res_ObjectKey d \<in> pg_refs m h \<and> pg_refs m' h \<subseteq> pg_refs m h \<and>
      (\<forall>h'. h' \<noteq> h \<longrightarrow> pg_refs m' h' = pg_refs m h') \<and> (ShouldDeleteObject d \<longleftrightarrow> pg_refs m' h = {})"
    using pg_delete_ok[of "first_row p"] by simp
qed (auto simp: pg_save_ok dest: Save_error Delete_error)

interpretation pg_mock_files: file_service "postgres_repo (first_row p)" pg_inv pg_refs MockStorage mock_objects for p
  by unfold_locales

lemma pg_minio_files:
  assumes "s3_semantics (client mc) (bucketName mc) objects"
  shows "file_service (postgres_repo (first_row p)) pg_inv pg_refs (minio_as_storage mc) objects"
  by (intro file_service.intro minio_object_storage[OF assms] pg_repo.metadata_repository_axioms)

end
