(* ===== verification/FileServiceClaims.thy ===== *)
theory FileServiceClaims
  imports FileService
begin

text \<open>
  The properties of the file service on the PostgreSQL store and the MinIO adapter:
  every active file keeps an object with its content, deduplicated uploads share one,
  presigned URLs go to owners only, and where two overlapping uploads of one content
  go wrong.
\<close>

section \<open>Examples\<close>

definition demo_file_header :: "string \<Rightarrow> bytes \<Rightarrow> file_header" where
  "demo_file_header name c = \<lparr>hdr_Filename = name, hdr_ContentType = '''', hdr_Size = int (length c),
     hdr_Open = Inr \<lparr>first_pass = Inr c, rewind = Inr (), second_pass = Inr c\<rparr>\<rparr>"

definition hash_of :: "bytes \<Rightarrow> string" where
  "hash_of c = hex_encode (sha256_sum c)"

text \<open>Two users, and the first one has stored the content \<open>c\<close>.\<close>

definition demo_stored :: "bytes \<Rightarrow> database" where
  "demo_stored c = empty_db\<lparr>users := [demo_user ''u1'' 5 100, demo_user ''u2'' 0 100],
     files := [(demo_file ''f1'' ''u1'' 1)\<lparr>SHA256 := hash_of c\<rparr>]\<rparr>"

definition demo_users :: database where
  "demo_users = empty_db\<lparr>users := [demo_user ''u1'' 0 100, demo_user ''u2'' 0 100]\<rparr>"

definition mock_with :: "(string \<Rightarrow> bytes option) \<Rightarrow> mock_storage" where
  "mock_with ob = NewMockStorage\<lparr>mock_objects := ob\<rparr>"

definition demo_minio :: "mock_storage minio_storage" where
  "demo_minio = \<lparr>client = mock_client, bucketName = ''documents'', presignedURLMinutes = 15\<rparr>"

lemmas file_demo_defs = demo_stored_def demo_users_def demo_user_def demo_file_def empty_db_def

lemma demo_minio_s3: "s3_semantics (client demo_minio) (bucketName demo_minio) mock_objects"
  by (simp add: demo_minio_def mock_client_s3)

lemma length_hash_of [simp]: "length (hash_of c) = 64"
  by (simp add: hash_of_def)

lemma demo_pg_first_row: "first_row (demo_pg i t) = demo_pg i t"
  by (rule first_row_id) simp_all

lemma demo_header_steady: "steady (demo_file_header name c) c"
  by (simp add: steady_def demo_file_header_def)

lemma demo_stored_inv: "pg_inv (demo_stored c)"
proof -
  have "live (demo_stored c) h = (if h = hash_of c then files (demo_stored c) else [])" for h
    by (simp add: live_def active_def file_demo_defs)
  then have "refs_ok (demo_stored c)"
    by (simp add: refs_ok_def) (simp add: file_demo_defs ref_list_Cons)
  moreover have "db_constraints (demo_stored c)" by (simp add: db_constraints_def file_demo_defs)
  ultimately show ?thesis by (simp add: pg_inv_def)
qed

lemma demo_stored_refs: "pg_refs (demo_stored c) h = (if h = hash_of c then {''k''} else {})"
  by (simp add: pg_refs_def live_def active_def file_demo_defs)

lemma demo_stored_backed: "backed (pg_refs (demo_stored c)) (mock_objects (mock_with [''k'' \<mapsto> c]))"
  by (simp add: backed_def demo_stored_refs mock_with_def NewMockStorage_def hash_of_def)


section \<open>Every active file has its object\<close>

text \<open>C7: Uploads keep the store backed, on four conditions: the reference counts are right, the
  object of every active row is in the bucket with the content of the row's hash, the key
  of the new object is not taken by another content, and, should the storage fail after
  the row's commit, the rollback that removes the row works. Then that all still holds after
  the upload, whether it succeeds or fails at any step, the storage failure included.\<close>

theorem Upload_keeps_backed:
  assumes "s3_semantics (client mc) (bucketName mc) objects" and "first_row p = p" and "pg_inv db"
    and "backed (pg_refs db) (objects s)" and "steady hdr c" and "rolls_back (postgres_repo p) userID hdr db"
    and "key_free (pg_refs db) userID (hash_of c) (hdr_Filename hdr)"
    and "fs_Upload (postgres_repo p) (minio_as_storage mc) userID hdr (db, s) = (r, db', s')"
  shows "backed (pg_refs db') (objects s')"
  using file_service.upload_keeps_backed[OF pg_minio_files[OF assms(1), of p], unfolded assms(2),
      OF assms(4,3,5) assms(7)[unfolded hash_of_def] assms(6,8)] .

text \<open>The storage fails after the commit, and the rollback puts things right.\<close>

theorem Upload_keeps_backed_witness:
  "backed (pg_refs (fst (snd (fs_Upload (postgres_repo (demo_pg ''f2'' 1)) (minio_as_storage demo_minio) ''u2''
       (demo_file_header ''b.txt'' ''xy'') (demo_stored ''hello'', (mock_with [''k'' \<mapsto> ''hello''])\<lparr>UploadErr := Some (Opaque ''down'')\<rparr>)))))
     (mock_objects (snd (snd (fs_Upload (postgres_repo (demo_pg ''f2'' 1)) (minio_as_storage demo_minio) ''u2''
       (demo_file_header ''b.txt'' ''xy'') (demo_stored ''hello'', (mock_with [''k'' \<mapsto> ''hello''])\<lparr>UploadErr := Some (Opaque ''down'')\<rparr>)))))"
proof (rule Upload_keeps_backed[OF demo_minio_s3 demo_pg_first_row demo_stored_inv _ demo_header_steady])
  show "backed (pg_refs (demo_stored ''hello'')) (mock_objects ((mock_with [''k'' \<mapsto> ''hello''])\<lparr>UploadErr := Some (Opaque ''down'')\<rparr>))"
    using demo_stored_backed[of "''hello''"] by simp
  show "rolls_back (postgres_repo (demo_pg ''f2'' 1)) ''u2'' (demo_file_header ''b.txt'' ''xy'') (demo_stored ''hello'')"
    using demo_stored_inv by (intro pg_rolls_back) (auto simp: pg_inv_def file_demo_defs demo_file_header_def)
  show "key_free (pg_refs (demo_stored ''hello'')) ''u2'' (hash_of ''xy'') (hdr_Filename (demo_file_header ''b.txt'' ''xy''))"
    by (simp add: key_free_def buildObjectKey_def demo_stored_refs)
qed (simp add: prod_eq_iff)



text \<open>C27: What was uploaded can be downloaded, if the reference counts were right and the store
  backed before: after a successful upload the returned row is active, belongs to the
  caller, has the content's hash, and names an object in the bucket. New content is stored
  there byte for byte, under a new key, with nothing else in the bucket changed. A
  duplicate writes nothing to the storage and shares the object of an earlier upload, whose
  content is known to have the same SHA-256 hash.\<close>

theorem Upload_retrievable:
  assumes "s3_semantics (client mc) (bucketName mc) objects" and "first_row p = p" and "pg_inv db"
    and "backed (pg_refs db) (objects s)" and "steady hdr c"
    and "fs_Upload (postgres_repo p) (minio_as_storage mc) userID hdr (db, s) = (Inr r, db', s')"
  shows "upl_File r \<in> set (live db' (hash_of c)) \<and> uuid_in p userID = Some (file_UserID (upl_File r)) \<and>
    (\<exists>c'. objects s' (ObjectKey (upl_File r)) = Some c' \<and> hash_of c' = hash_of c) \<and>
    (if upl_Duplicate r then s' = s \<and> ObjectKey (upl_File r) \<in> pg_refs db (hash_of c)
     else objects s' = (objects s)(ObjectKey (upl_File r) \<mapsto> c) \<and> pg_refs db (hash_of c) = {})"
proof -
  note eff = file_service.upload_success[OF pg_minio_files[OF assms(1), of p], unfolded assms(2),
      OF assms(6,3,5), folded hash_of_def]
  from assms(6) obtain pr saved where pr: "prepare_upload userID hdr = Inr pr"
    and saved: "Save p userID (prep_key pr) (prep_hash pr) (prep_ContentType pr) (prep_name pr) (hdr_Size hdr) db
        = (Inr saved, db')"
    and r: "upl_File r = File saved"
    by (auto simp: fs_Upload_def save_meta_def store_object_def Let_def split: sum.splits prod.splits if_splits)
  have h: "prep_hash pr = hash_of c" using prepare_upload_Inr[OF pr assms(5)] by (simp add: hash_of_def)
  from saved obtain u where u: "uuid_in p userID = Some u"
    and f: "File saved = new_row p u
           (case limit1 (scan p S_SaveFindCanonical) (live db (prep_hash pr)) of None \<Rightarrow> prep_key pr | Some c \<Rightarrow> ObjectKey c)
           (prep_hash pr) (prep_ContentType pr) (prep_name pr) (hdr_Size hdr)"
    and db': "db' = after_save (limit1 (scan p S_SaveFindCanonical) (live db (prep_hash pr))) (File saved) db"
    by (rule Save_Inr) blast
  have sel: "file_UserID (File saved) = u" "SHA256 (File saved) = hash_of c" "active (File saved)"
    by (simp_all add: f new_row_def active_def h)
  have "upl_File r \<in> set (live db' (hash_of c))" using sel by (simp add: db' r live_after_save)
  moreover have "\<exists>c'. objects s' (ObjectKey (upl_File r)) = Some c' \<and> hash_of c' = hash_of c"
    using eff assms(4) by (auto simp: backed_def hash_of_def split: if_splits)
  moreover have "uuid_in p userID = Some (file_UserID (upl_File r))" using u sel r by simp
  ultimately show ?thesis using eff by auto
qed

theorem Upload_retrievable_witness:
  "\<exists>r db' s'. fs_Upload (postgres_repo (demo_pg ''f2'' 1)) (minio_as_storage demo_minio) ''u2''
       (demo_file_header ''b.txt'' ''hello'') (demo_stored ''hello'', mock_with [''k'' \<mapsto> ''hello'']) = (Inr r, db', s') \<and>
     upl_Duplicate r \<and> ObjectKey (upl_File r) = ''k'' \<and> upl_File r \<in> set (live db' (hash_of ''hello''))"
proof -
  let ?run = "fs_Upload (postgres_repo (demo_pg ''f2'' 1)) (minio_as_storage demo_minio) ''u2''
       (demo_file_header ''b.txt'' ''hello'') (demo_stored ''hello'', mock_with [''k'' \<mapsto> ''hello''])"
  have "\<exists>r. fst ?run = Inr r \<and> upl_Duplicate r \<and> ObjectKey (upl_File r) = ''k''"
    by (simp add: fs_Upload_def prepare_upload_def demo_file_header_def buildObjectKey_def hash_of_def[symmetric]
        save_meta_def Save_defs file_demo_defs int8_ok_def int4_ok_def store_object_def add_ref_def Let_def)
  then obtain r where r: "?run = (Inr r, fst (snd ?run), snd (snd ?run))" "upl_Duplicate r" "ObjectKey (upl_File r) = ''k''"
    by (metis prod.collapse)
  with Upload_retrievable[OF demo_minio_s3 demo_pg_first_row demo_stored_inv demo_stored_backed demo_header_steady r(1)]
  show ?thesis by blast
qed

section \<open>Object keys\<close>

text \<open>Keys of different users never collide, and keys of one user collide only for
  contents whose hashes agree on their first 64 bits (and for equal names).\<close>

theorem buildObjectKey_collision:
  assumes "buildObjectKey u h f = Inr k" and "buildObjectKey u' h' f' = Inr k"
    and "CHR ''/'' \<notin> set u" and "CHR ''/'' \<notin> set u'"
  shows "u = u' \<and> take 16 h = take 16 h' \<and> safe_name f = safe_name f'"
proof -
  from assms(1,2) have len: "length (take 16 h) = 16" "length (take 16 h') = 16"
    and eq: "u @ slash # (take 16 h @ ''/'' @ safe_name f) = u' @ slash # (take 16 h' @ ''/'' @ safe_name f')"
    by (auto simp: buildObjectKey_def slash_def split: if_splits)
  then have "u = u'" and "take 16 h @ ''/'' @ safe_name f = take 16 h' @ ''/'' @ safe_name f'"
    using assms(3,4) append_sep_eq[of slash u u'] by (simp_all add: slash_def)
  with len show ?thesis using append_eq_append_conv[of "take 16 h" "take 16 h'"] by simp
qed

theorem buildObjectKey_collision_witness:
  "buildObjectKey ''u1'' (replicate 64 (CHR ''a'')) ''my file.txt'' = Inr ''users/u1/aaaaaaaaaaaaaaaa/my_file.txt'' \<and>
   take 16 (replicate 64 (CHR ''a'')) = take 16 (replicate 16 (CHR ''a'') @ ''bb'')"
proof -
  have a: "buildObjectKey ''u1'' (replicate 64 (CHR ''a'')) ''my file.txt'' = Inr ''users/u1/aaaaaaaaaaaaaaaa/my_file.txt''"
    by code_simp
  have b: "buildObjectKey ''u1'' (replicate 16 (CHR ''a'') @ ''bb'') ''d/my file.txt'' = Inr ''users/u1/aaaaaaaaaaaaaaaa/my_file.txt''"
    by code_simp
  show ?thesis using a buildObjectKey_collision[OF a b] by simp
qed

section \<open>Presigned URLs\<close>

text \<open>A presigned URL is only ever made for the object of an active file that the
  caller owns.\<close>

theorem PresignedURL_own_active:
  assumes "fs_PresignedURL (postgres_repo p) st fileID userID (db, s) = Inr url"
  shows "\<exists>f \<in> set (files db). uuid_in p fileID = Some (file_ID f) \<and> uuid_in p userID = Some (file_UserID f) \<and>
     active f \<and> st_GetPresignedURL st (ObjectKey f) s = Inr url"
  using assms by (auto simp: fs_PresignedURL_def GetByID_def dest!: filter_hdD)

theorem PresignedURL_own_active_witness:
  "\<exists>f \<in> set (files (demo_stored ''hello'')). file_UserID f = ''u1'' \<and>
     st_GetPresignedURL MockStorage (ObjectKey f) NewMockStorage = Inr ''https://mock-storage.test/k?token=signed''"
proof -
  have "fs_PresignedURL (postgres_repo (demo_pg ''x'' 1)) MockStorage ''f1'' ''u1'' (demo_stored ''hello'', NewMockStorage)
      = Inr ''https://mock-storage.test/k?token=signed''"
    by (simp add: fs_PresignedURL_def GetByID_def exec_def uuid_arg_def active_def file_demo_defs
        mock_storage_defs NewMockStorage_def)
  from PresignedURL_own_active[OF this] show ?thesis by auto
qed

section \<open>Overlapping uploads of one content\<close>

lemma ref_row_keeps:
  "x \<in> set L \<Longrightarrow> \<exists>g \<in> set (ref_row i d L). file_ID g = file_ID x \<and> ObjectKey g = ObjectKey x"
  by (induction L) (auto simp: ref_row_def)

text \<open>A deletion leaves every other row of a content with its object key.\<close>

lemma Delete_keeps_row:
  assumes del: "Delete p i userID db = (y, db')" and "uuid_in p i = Some j" and g: "g \<in> set (live db h)" "file_ID g \<noteq> j"
  shows "\<exists>g' \<in> set (live db' h). file_ID g' = file_ID g \<and> ObjectKey g' = ObjectKey g"
proof (cases y)
  case (Inl e)
  with del Delete_error[of p i userID db e db'] g show ?thesis by auto
next
  case (Inr d)
  with del have "Delete p i userID db = (Inr d, db')" by simp
  then obtain f c where f: "uuid_in p i = Some (file_ID f)" and db': "db' = after_delete (clock p) f c db"
    by (rule Delete_Inr) blast
  then have "g \<in> set (sql_delete (\<lambda>x. file_ID x = file_ID f) (live db h))" using assms(2) g by simp
  with ref_row_keeps[OF this, of "file_ID c" "- 1"] show ?thesis
    by (auto simp: db' live_after_delete)
qed

text \<open>
  The metadata of new content is committed before the object is uploaded. A second
  user's upload of the same content in between is a duplicate: it succeeds at once,
  without an object in the storage.
\<close>

text \<open>C30: If the first upload's storage write then fails, its rollback removes its own
  row only: the second user keeps an active file that was answered with success and
  that has no object in the storage.\<close>

theorem overlapping_upload_lost:
  assumes "live db (hash_of c) = []" and "uuid_in p1 (gen_uuid p1) = Some (gen_uuid p1)"
    and "steady hdr1 c" and "steady hdr2 c"
    \<comment> \<open>the first upload commits its metadata\<close>
    and "prepare_upload user1 hdr1 = Inr pr1"
    and "save_meta (postgres_repo p1) user1 hdr1 pr1 db = (Inr saved1, db1)"
    \<comment> \<open>the second upload runs as a whole\<close>
    and "fs_Upload (postgres_repo p2) st user2 hdr2 (db1, s) = (Inr r2, db2, s2)"
    \<comment> \<open>the storage write of the first upload fails and leaves nothing\<close>
    and "store_object (postgres_repo p1) st user1 hdr1 pr1 saved1 (db2, s2) = (Inl e, db3, s3)"
    and "objects s3 (ObjectKey (File saved1)) = None"
  shows "upl_Duplicate r2 \<and>
     (\<exists>g \<in> set (live db3 (hash_of c)). file_ID g = file_ID (upl_File r2) \<and> objects s3 (ObjectKey g) = None)"
proof -
  let ?h = "hash_of c"
  have h1: "prep_hash pr1 = ?h" using prepare_upload_Inr[OF assms(5,3)] by (simp add: hash_of_def)
  from assms(6) have "Save p1 user1 (prep_key pr1) ?h (prep_ContentType pr1) (prep_name pr1) (hdr_Size hdr1) db = (Inr saved1, db1)"
    by (simp add: save_meta_def h1)
  then obtain v1 where f1: "File saved1 = new_row p1 v1
           (case limit1 (scan p1 S_SaveFindCanonical) (live db ?h) of None \<Rightarrow> prep_key pr1 | Some c \<Rightarrow> ObjectKey c)
           ?h (prep_ContentType pr1) (prep_name pr1) (hdr_Size hdr1)"
    and db1: "db1 = after_save (limit1 (scan p1 S_SaveFindCanonical) (live db ?h)) (File saved1) db"
    by (rule Save_Inr) blast
  have sel1: "SHA256 (File saved1) = ?h" "active (File saved1)" by (simp_all add: f1 new_row_def active_def)
  have L1: "live db1 ?h = [File saved1]" using assms(1) sel1 by (simp add: db1 live_after_save)
  have in1: "File saved1 \<in> set (files db1)" by (simp add: db1 after_save_def split: option.splits)
  from assms(7) obtain pr2 saved2 where pr2: "prepare_upload user2 hdr2 = Inr pr2"
    and save2: "Save p2 user2 (prep_key pr2) (prep_hash pr2) (prep_ContentType pr2) (prep_name pr2) (hdr_Size hdr2) db1
        = (Inr saved2, db2)"
    and r2: "upl_File r2 = File saved2" "upl_Duplicate r2 = Duplicate saved2"
    by (auto simp: fs_Upload_def save_meta_def store_object_def Let_def split: sum.splits prod.splits if_splits)
  have h2: "prep_hash pr2 = ?h" using prepare_upload_Inr[OF pr2 assms(4)] by (simp add: hash_of_def)
  from save2 obtain v2 where fresh: "gen_uuid p2 \<notin> file_ID ` set (files db1)"
    and dup: "Duplicate saved2 \<longleftrightarrow> live db1 ?h \<noteq> []"
    and f2: "File saved2 = new_row p2 v2
           (case limit1 (scan p2 S_SaveFindCanonical) (live db1 ?h) of None \<Rightarrow> prep_key pr2 | Some c \<Rightarrow> ObjectKey c)
           ?h (prep_ContentType pr2) (prep_name pr2) (hdr_Size hdr2)"
    and db2: "db2 = after_save (limit1 (scan p2 S_SaveFindCanonical) (live db1 ?h)) (File saved2) db1"
    unfolding h2 by (rule Save_Inr) blast
  have g: "File saved2 \<in> set (live db2 ?h)" "ObjectKey (File saved2) = ObjectKey (File saved1)"
    "file_ID (File saved2) \<noteq> file_ID (File saved1)"
    using fresh in1 by (auto simp: db2 live_after_save f2 new_row_def active_def L1)
  have "\<exists>x. deleteOrphanedMeta (postgres_repo p1) (file_ID (File saved1)) user1 db2 = (x, db3)"
    using assms(8) by (auto simp: store_object_def Let_def split: sum.splits prod.splits if_splits)
  then obtain y where del: "Delete p1 (file_ID (File saved1)) user1 db2 = (y, db3)"
    by (auto simp: deleteOrphanedMeta_def split: sum.splits prod.splits)
  have "uuid_in p1 (file_ID (File saved1)) = Some (file_ID (File saved1))" using assms(2) by (simp add: f1 new_row_def)
  from Delete_keeps_row[OF del this g(1,3)]
  have "\<exists>g \<in> set (live db3 ?h). file_ID g = file_ID (File saved2) \<and> ObjectKey g = ObjectKey (File saved1)"
    by (simp add: g(2))
  then show ?thesis using dup L1 r2 assms(9) by auto
qed

theorem overlapping_upload_lost_witness:
  "\<exists>pr saved db1 res db2 s2 db3 s3.
     prepare_upload ''u1'' (demo_file_header ''a.txt'' ''hello'') = Inr pr \<and>
     save_meta (postgres_repo (demo_pg ''f1'' 1)) ''u1'' (demo_file_header ''a.txt'' ''hello'') pr demo_users = (Inr saved, db1) \<and>
     fs_Upload (postgres_repo (demo_pg ''f2'' 2)) MockStorage ''u2'' (demo_file_header ''a.txt'' ''hello'')
       (db1, NewMockStorage\<lparr>UploadErr := Some (Opaque ''down'')\<rparr>) = (Inr res, db2, s2) \<and>
     store_object (postgres_repo (demo_pg ''f1'' 1)) MockStorage ''u1'' (demo_file_header ''a.txt'' ''hello'') pr saved
       (db2, s2) = (Inl (Errorf ''storage upload'' (Opaque ''down'')), db3, s3) \<and>
     (\<exists>g \<in> set (live db3 (hash_of ''hello'')). mock_objects s3 (ObjectKey g) = None)"
proof -
  let ?hdr = "demo_file_header ''a.txt'' ''hello''"
  let ?down = "NewMockStorage\<lparr>UploadErr := Some (Opaque ''down'')\<rparr>"
  let ?r1 = "postgres_repo (demo_pg ''f1'' 1)" and ?r2 = "postgres_repo (demo_pg ''f2'' 2)"
  obtain pr where pr: "prepare_upload ''u1'' ?hdr = Inr pr"
    by (simp add: prepare_upload_def demo_file_header_def buildObjectKey_def hash_of_def[symmetric])
  have h: "prep_hash pr = hash_of ''hello''"
    using prepare_upload_Inr[OF pr demo_header_steady] by (simp add: hash_of_def)
  define f1 where "f1 = \<lparr>file_ID = ''f1'', file_UserID = ''u1'', ObjectKey = prep_key pr, SHA256 = hash_of ''hello'',
     Size = 5, ContentType = prep_ContentType pr, RefCount = 1, OriginalName = prep_name pr,
     file_CreatedAt = 1, DeletedAt = None\<rparr>"
  define db1 where "db1 = demo_users\<lparr>users := [demo_user ''u1'' 5 100, demo_user ''u2'' 0 100], files := [f1]\<rparr>"
  have save: "save_meta ?r1 ''u1'' ?hdr pr demo_users = (Inr \<lparr>File = f1, Duplicate = False\<rparr>, db1)"
    by (simp add: save_meta_def h Save_defs demo_file_header_def file_demo_defs int8_ok_def Let_def f1_def db1_def)
  let ?two = "fs_Upload ?r2 MockStorage ''u2'' ?hdr (db1, ?down)"
  have "(\<exists>r. fst ?two = Inr r) \<and> snd (snd ?two) = ?down"
    by (simp add: fs_Upload_def prepare_upload_def demo_file_header_def buildObjectKey_def hash_of_def[symmetric]
        save_meta_def Save_defs f1_def db1_def file_demo_defs int8_ok_def int4_ok_def store_object_def add_ref_def Let_def)
  then obtain r2 where two: "?two = (Inr r2, fst (snd ?two), ?down)" by (metis prod.collapse)
  let ?three = "store_object ?r1 MockStorage ''u1'' ?hdr pr \<lparr>File = f1, Duplicate = False\<rparr> (fst (snd ?two), ?down)"
  have "fst ?three = Inl (Errorf ''storage upload'' (Opaque ''down'')) \<and> snd (snd ?three) = ?down"
    by (simp add: store_object_def mock_storage_defs split: prod.splits)
  then have three: "?three = (Inl (Errorf ''storage upload'' (Opaque ''down'')), fst (snd ?three), ?down)"
    by (metis prod.collapse)
  have "live demo_users (hash_of ''hello'') = []" by (simp add: live_def file_demo_defs)
  from overlapping_upload_lost[OF this _ demo_header_steady demo_header_steady pr save two three, of mock_objects]
  have lost: "\<exists>g \<in> set (live (fst (snd ?three)) (hash_of ''hello'')). mock_objects ?down (ObjectKey g) = None"
    by (auto simp: NewMockStorage_def)
  show ?thesis by (rule exI)+ (rule conjI[OF pr conjI[OF save conjI[OF two conjI[OF three lost]]]])
qed

end
