(* ===== verification/FileHandlers.thy ===== *)
theory FileHandlers
  imports FileService Auth
begin

text \<open>
  The HTTP handlers of files, \<open>handlers/files.go\<close>, over the file service. What
  \<open>c.FormFile\<close> finds in the request body is a parameter. The state is that of the
  repository and of the storage.
\<close>

text \<open>The answer to an error of a lookup: 404 when the record does not exist.\<close>

definition not_found_or_500 :: "string \<Rightarrow> go_error \<Rightarrow> response" where
  "not_found_or_500 what e =
     unless_panic e (if errors_is e ErrNotFound then error_response 404 what
                     else error_response 500 (err_text e))"

definition file_Upload ::
  "(string \<Rightarrow> bytes \<Rightarrow> go_error + file_header) \<Rightarrow> 'm metadata_repository \<Rightarrow> 's storage \<Rightarrow> ('m \<times> 's) handler" where
  "file_Upload FormFile repo st c w =
     (let userID = GetUserID c
      in case FormFile ''file'' (req_body c) of
           Inl e \<Rightarrow> (error_response 400 ''field 'file' is required'', w)
         | Inr hdr \<Rightarrow>
             (case fs_Upload repo st userID hdr w of
                (Inl e, w') \<Rightarrow>
                  (unless_panic e
                    (if errors_is e ErrQuotaExceeded then error_response 429 ''storage quota exceeded''
                     else error_response 500 (err_text e)), w')
              | (Inr result, w') \<Rightarrow>
                  (let resp = [(''file'', json_file (upl_File result)), (''duplicate'', JBool (upl_Duplicate result))]
                   in if upl_Duplicate result
                      then (json_response 200 (JObj (resp @
                              [(''message'', JStr ''file already exists; returning existing record'')])), w')
                      else (json_response 201 (JObj resp), w'))))"

definition file_List :: "'m metadata_repository \<Rightarrow> ('m \<times> 's) handler" where
  "file_List repo c w =
     (let userID = GetUserID c
      in case fs_ListFiles repo userID (fst w) of
           Inl e \<Rightarrow> (unless_panic e (error_response 500 (err_text e)), w)
         | Inr fs \<Rightarrow>
             (json_response 200 (JObj [(''files'', json_slice json_file fs), (''count'', JInt (int (length fs)))]), w))"

definition file_Get :: "'m metadata_repository \<Rightarrow> ('m \<times> 's) handler" where
  "file_Get repo c w =
     (let userID = GetUserID c; fileID = param c ''id''
      in case fs_GetMeta repo fileID userID (fst w) of
           Inl e \<Rightarrow> (not_found_or_500 ''file not found'' e, w)
         | Inr f \<Rightarrow> (json_response 200 (json_file f), w))"

definition file_PresignedURL :: "'m metadata_repository \<Rightarrow> 's storage \<Rightarrow> ('m \<times> 's) handler" where
  "file_PresignedURL repo st c w =
     (let userID = GetUserID c; fileID = param c ''id''
      in case fs_PresignedURL repo st fileID userID w of
           Inl e \<Rightarrow> (not_found_or_500 ''file not found'' e, w)
         | Inr url \<Rightarrow> (json_response 200 (JObj [(''url'', JStr url)]), w))"

definition file_Delete :: "'m metadata_repository \<Rightarrow> 's storage \<Rightarrow> ('m \<times> 's) handler" where
  "file_Delete repo st c w =
     (let userID = GetUserID c; fileID = param c ''id''
      in case fs_Delete repo st fileID userID w of
           (Inl e, w') \<Rightarrow> (not_found_or_500 ''file not found'' e, w')
         | (Inr _, w') \<Rightarrow> (json_response 200 (JObj [(''message'', JStr ''file deleted'')]), w'))"

section \<open>Lemmas\<close>

text \<open>The field names of a response.\<close>

fun payload_names :: "payload \<Rightarrow> string set" where
  "payload_names NoPayload = {}"
| "payload_names (JSON v) = json_names v"
| "payload_names (Zip _ _ v) = (case v of None \<Rightarrow> {} | Some v \<Rightarrow> json_names v)"

definition response_names :: "response \<Rightarrow> string set" where
  "response_names r = payload_names (resp_payload r)"

lemma response_names_simps [simp]:
  "response_names (error_response st m) = {''error''}"
  "response_names (json_response st v) = json_names v"
  "response_names \<lparr>resp_status = st, resp_payload = NoPayload\<rparr> = {}"
  by (simp_all add: response_names_def)

lemma names_unless_panic: "response_names (unless_panic e r) \<subseteq> response_names r"
  by (cases e) (simp_all add: unless_panic_def response_names_def)

lemma names_not_found: "response_names (not_found_or_500 what e) \<subseteq> {''error''}"
  by (cases e) (simp_all add: not_found_or_500_def unless_panic_def)

lemma status_not_found:
  "resp_status (not_found_or_500 what e) = (if errors_is e ErrNotFound then 404 else 500)"
  by (cases e) (simp_all add: not_found_or_500_def unless_panic_def)

end
