(* ===== verification/AuthHandlers.thy ===== *)
theory AuthHandlers
  imports FileHandlers ApiKeyStore
begin

text \<open>
  Registration and login, \<open>handlers/auth.go\<close>, and the handlers of API keys,
  \<open>handlers/apikeys.go\<close>. bcrypt, the JWT library and the JSON binding with its
  validation rules are parameters.
\<close>

section \<open>Registration and login\<close>

text \<open>The interface \<open>UserRepository\<close>.\<close>

record 'm user_repository =
  repo_CreateUser :: "string \<Rightarrow> string \<Rightarrow> int \<Rightarrow> 'm \<Rightarrow> (go_error + user) \<times> 'm"
  repo_GetUserByEmail :: "string \<Rightarrow> 'm \<Rightarrow> go_error + user"

record auth_handler =
  jwtSecret :: bytes
  jwtExpiryHours :: int
  defaultQuota :: int

record register_request =
  reg_Email :: string
  reg_Password :: string

record login_request =
  login_Email :: string
  login_Password :: string

text \<open>bcrypt: hashing refuses passwords of more than 72 bytes. Blowfish reads 72 bytes of the
  password with a NUL byte after it, from the start again when it is at the end.\<close>

record bcrypt =
  GenerateFromPassword :: "string \<Rightarrow> go_error + string"
  CompareHashAndPassword :: "string \<Rightarrow> string \<Rightarrow> bool"

abbreviation NUL :: char where
  "NUL \<equiv> CHR 0x00"

definition bcrypt_key :: "string \<Rightarrow> string" where
  "bcrypt_key pw = map (\<lambda>i. (pw @ [NUL]) ! (i mod Suc (length pw))) [0..<72]"

text \<open>A comparison succeeds with the passwords of the same key, and no hash collides.\<close>

definition bcrypt_ok :: "bcrypt \<Rightarrow> bool" where
  "bcrypt_ok bc \<longleftrightarrow> (\<forall>pw hash. GenerateFromPassword bc pw = Inr hash \<longrightarrow>
     length pw \<le> 72 \<and> (\<forall>pw'. CompareHashAndPassword bc hash pw' \<longleftrightarrow> bcrypt_key pw' = bcrypt_key pw))"

text \<open>Of passwords without a NUL byte the key tells the first 72 bytes.\<close>

lemma bcrypt_key_long: "72 \<le> length pw \<Longrightarrow> bcrypt_key pw = take 72 pw"
  by (rule nth_equalityI) (simp_all add: bcrypt_key_def nth_append)

lemma bcrypt_key_short: "length pw < 72 \<Longrightarrow> \<exists>rest. bcrypt_key pw = pw @ NUL # rest"
proof
  assume short: "length pw < 72"
  let ?n = "length pw"
  have "take (Suc ?n) (bcrypt_key pw) = pw @ [NUL]"
    by (rule nth_equalityI) (use short in \<open>auto simp: bcrypt_key_def nth_append less_Suc_eq\<close>)
  then show "bcrypt_key pw = pw @ NUL # drop (Suc ?n) (bcrypt_key pw)"
    by (metis append.assoc append_Cons append_Nil append_take_drop_id)
qed

lemma bcrypt_key_prefix:
  assumes "NUL \<notin> set pw"
  shows "takeWhile (\<lambda>c. c \<noteq> NUL) (bcrypt_key pw) = take 72 pw"
proof (cases "length pw < 72")
  case True
  with bcrypt_key_short obtain rest where "bcrypt_key pw = pw @ NUL # rest" by blast
  moreover have "\<forall>c \<in> set pw. c \<noteq> NUL" using assms by blast
  ultimately show ?thesis using True by (simp add: takeWhile_append2)
next
  case False
  have "\<forall>c \<in> set (take 72 pw). c \<noteq> NUL" using assms by (auto dest: in_set_takeD)
  with False show ?thesis by (simp add: bcrypt_key_long takeWhile_eq_all_conv)
qed

lemma bcrypt_key_eq:
  assumes "NUL \<notin> set pw" and "NUL \<notin> set pw'" and "length pw \<le> 72"
  shows "bcrypt_key pw' = bcrypt_key pw \<longleftrightarrow> take 72 pw' = pw"
proof
  assume "bcrypt_key pw' = bcrypt_key pw"
  with bcrypt_key_prefix[OF assms(1)] bcrypt_key_prefix[OF assms(2)] assms(3) show "take 72 pw' = pw" by simp
next
  assume eq: "take 72 pw' = pw"
  show "bcrypt_key pw' = bcrypt_key pw"
  proof (cases "length pw' \<le> 72")
    case True
    with eq show ?thesis by simp
  next
    case False
    with eq have "bcrypt_key pw' = pw" "length pw = 72" by (auto simp: bcrypt_key_long)
    then show ?thesis by (simp add: bcrypt_key_long)
  qed
qed

text \<open>\<open>NewNumericDate\<close> cuts a time to whole seconds; the lifetime is a 64-bit product.\<close>

definition numeric_date :: "time \<Rightarrow> time" where
  "numeric_date t = t div second * second"

definition issueToken :: "jwt \<Rightarrow> time \<Rightarrow> auth_handler \<Rightarrow> string \<Rightarrow> go_error + string" where
  "issueToken lib t h userID =
     SignedString lib
       \<lparr>claims_UserID = userID,
        claims_ExpiresAt = Some (numeric_date (t + int64 (jwtExpiryHours h * (60 * minute)))),
        claims_IssuedAt = Some (numeric_date t)\<rparr> (jwtSecret h)"

definition token_response :: "string \<Rightarrow> json" where
  "token_response tok = JObj [(''token'', JStr tok)]"

definition Register ::
  "(bytes \<Rightarrow> go_error + register_request) \<Rightarrow> bcrypt \<Rightarrow> jwt \<Rightarrow> time \<Rightarrow> auth_handler \<Rightarrow> 'm user_repository \<Rightarrow> 'm handler" where
  "Register ShouldBindJSON bc lib t h repo c m =
     (case ShouldBindJSON (req_body c) of
        Inl e \<Rightarrow> (error_response 400 (err_text e), m)
      | Inr req \<Rightarrow>
          (case GenerateFromPassword bc (reg_Password req) of
             Inl e \<Rightarrow> (error_response 500 ''could not hash password'', m)
           | Inr hash \<Rightarrow>
               (case repo_CreateUser repo (reg_Email req) hash (defaultQuota h) m of
                  (Inl e, m') \<Rightarrow> (unless_panic e (error_response 409 ''email already registered''), m')
                | (Inr u, m') \<Rightarrow>
                    (case issueToken lib t h (user_ID u) of
                       Inl e \<Rightarrow> (error_response 500 ''could not issue token'', m')
                     | Inr tok \<Rightarrow> (json_response 201 (token_response tok), m')))))"

definition Login ::
  "(bytes \<Rightarrow> go_error + login_request) \<Rightarrow> bcrypt \<Rightarrow> jwt \<Rightarrow> time \<Rightarrow> auth_handler \<Rightarrow> 'm user_repository \<Rightarrow> 'm handler" where
  "Login ShouldBindJSON bc lib t h repo c m =
     (case ShouldBindJSON (req_body c) of
        Inl e \<Rightarrow> (error_response 400 (err_text e), m)
      | Inr req \<Rightarrow>
          (case repo_GetUserByEmail repo (login_Email req) m of
             Inl e \<Rightarrow>
               (unless_panic e
                 (if errors_is e ErrNotFound then error_response 401 ''invalid credentials''
                  else error_response 500 ''internal error''), m)
           | Inr u \<Rightarrow>
               if \<not> CompareHashAndPassword bc (PasswordHash u) (login_Password req)
               then (error_response 401 ''invalid credentials'', m)
               else (case issueToken lib t h (user_ID u) of
                       Inl e \<Rightarrow> (error_response 500 ''could not issue token'', m)
                     | Inr tok \<Rightarrow> (json_response 200 (token_response tok), m))))"

definition postgres_users :: "pg \<Rightarrow> database user_repository" where
  "postgres_users p = \<lparr>repo_CreateUser = CreateUser p, repo_GetUserByEmail = GetUserByEmail p\<rparr>"

section \<open>API keys\<close>

record key_request =
  kreq_Name :: string
  kreq_ExpiresAt :: "time option"

definition apikey_Create ::
  "(bytes \<Rightarrow> go_error + key_request) \<Rightarrow> pg \<Rightarrow> (nat \<Rightarrow> go_error + bytes) \<Rightarrow> database handler" where
  "apikey_Create ShouldBindJSON p rand c db =
     (let userID = GetUserID c
      in case ShouldBindJSON (req_body c) of
           Inl e \<Rightarrow> (error_response 400 (err_text e), db)
         | Inr req \<Rightarrow>
             (case key_Create p rand userID (kreq_Name req) (kreq_ExpiresAt req) db of
                (Inl e, db') \<Rightarrow> (unless_panic e (error_response 500 ''could not create API key''), db')
              | (Inr result, db') \<Rightarrow>
                  (json_response 201 (JObj (json_api_key_fields (created_key result)
                     @ [(''key'', JStr (RawKey result))])), db')))"

definition apikey_List :: "pg \<Rightarrow> database handler" where
  "apikey_List p c db =
     (let userID = GetUserID c
      in case key_ListByUser p userID db of
           Inl e \<Rightarrow> (unless_panic e (error_response 500 (err_text e)), db)
         | Inr ks \<Rightarrow>
             (json_response 200 (JObj [(''api_keys'', json_slice json_api_key ks), (''count'', JInt (int (length ks)))]), db))"

definition apikey_Delete :: "pg \<Rightarrow> database handler" where
  "apikey_Delete p c db =
     (let userID = GetUserID c; keyID = param c ''id''
      in case key_Delete p keyID userID db of
           (Inl e, db') \<Rightarrow> (not_found_or_500 ''API key not found'' e, db')
         | (Inr _, db') \<Rightarrow> (json_response 200 (JObj [(''message'', JStr ''API key revoked'')]), db'))"

section \<open>The laws of the user repository\<close>

text \<open>
  What registration and login rely on: a created user is found by the email with the
  stored password hash, other users' emails are not affected, and an email that was not
  found stays so until it is registered.
\<close>

locale user_repo =
  fixes repo :: "'m user_repository"
    and uinv :: "'m \<Rightarrow> bool"
  assumes create_ok: "repo_CreateUser repo em pw q m = (Inr u, m') \<Longrightarrow> uinv m \<Longrightarrow>
      uinv m' \<and> Email u = em \<and> PasswordHash u = pw \<and> StorageQuotaBytes u = q \<and>
      (\<forall>v. repo_GetUserByEmail repo em m' = Inr v \<longrightarrow> v = u)"
    and create_error: "repo_CreateUser repo em pw q m = (Inl e, m') \<Longrightarrow> m' = m"
    and create_taken: "repo_GetUserByEmail repo em m = Inr v \<Longrightarrow> repo_CreateUser repo em pw q m = (r, m') \<Longrightarrow> \<exists>e. r = Inl e"
    and get_email: "repo_GetUserByEmail repo em m = Inr u \<Longrightarrow> Email u = em"
begin

text \<open>A taken email is answered 409 and changes nothing.\<close>

lemma Register_taken:
  assumes "ShouldBindJSON (req_body c) = Inr req" and "GenerateFromPassword bc (reg_Password req) = Inr hash"
    and "repo_GetUserByEmail repo (reg_Email req) m = Inr v"
  shows "snd (Register ShouldBindJSON bc lib t h repo c m) = m \<and>
     resp_status (fst (Register ShouldBindJSON bc lib t h repo c m)) \<in> {409, 500}"
proof (cases "repo_CreateUser repo (reg_Email req) hash (defaultQuota h) m")
  case (Pair r m')
  with create_taken[OF assms(3) Pair] obtain e where r: "r = Inl e" by blast
  with Pair create_error[of "reg_Email req" hash "defaultQuota h" m e m'] have "m' = m" by simp
  with assms Pair r show ?thesis
    by (cases e) (simp_all add: Register_def unless_panic_def)
qed

text \<open>Registration, then login with any password: the outcome is the password check
  against the registered one.\<close>

lemma Register_Login:
  assumes reg: "Register bindR bc lib t h repo c m = (r, m')" and ok: "resp_status r = 201"
    and "bindR (req_body c) = Inr req" and "uinv m"
    and hashing: "bcrypt_ok bc"
    and "bindL (req_body c2) = Inr lreq" and "login_Email lreq = reg_Email req"
    and found: "repo_GetUserByEmail repo (reg_Email req) m' = Inr v"
  shows "length (reg_Password req) \<le> 72 \<and> (\<exists>u tok. repo_CreateUser repo (reg_Email req) (PasswordHash u) (defaultQuota h) m = (Inr u, m') \<and>
     issueToken lib t h (user_ID u) = Inr tok \<and> r = json_response 201 (token_response tok) \<and>
     fst (Login bindL bc lib t2 h repo c2 m') =
       (if bcrypt_key (login_Password lreq) = bcrypt_key (reg_Password req)
        then (case issueToken lib t2 h (user_ID u) of
                Inl e \<Rightarrow> error_response 500 ''could not issue token''
              | Inr tok \<Rightarrow> json_response 200 (token_response tok))
        else error_response 401 ''invalid credentials''))"
proof -
  from reg ok assms(3) obtain hash u tok where hash: "GenerateFromPassword bc (reg_Password req) = Inr hash"
    and u: "repo_CreateUser repo (reg_Email req) hash (defaultQuota h) m = (Inr u, m')"
    and tok: "issueToken lib t h (user_ID u) = Inr tok" and r: "r = json_response 201 (token_response tok)"
    by (auto simp: Register_def unless_panic_def split: sum.splits prod.splits go_error.splits)
  note c = create_ok[OF u assms(4)]
  with found have v: "v = u" by blast
  have short: "length (reg_Password req) \<le> 72"
    and check: "CompareHashAndPassword bc hash pw' \<longleftrightarrow> bcrypt_key pw' = bcrypt_key (reg_Password req)" for pw'
    using hashing hash by (auto simp: bcrypt_ok_def)
  with found hash c u tok r assms(6,7) show ?thesis
    by (intro conjI[OF short] exI[of _ u] exI[of _ tok]) (auto simp: Login_def check split: sum.splits)
qed

end

definition users_ok :: "database \<Rightarrow> bool" where
  "users_ok db \<longleftrightarrow> distinct (map user_ID (users db)) \<and> distinct (map Email (users db))"

lemma GetUserByEmail_Inr:
  "GetUserByEmail p em db = Inr u \<longleftrightarrow>
     \<not> fault p S_GetUserByEmail \<and> (\<exists>us. filter (\<lambda>u. Email u = em) (users db) = u # us)"
  by (simp add: GetUserByEmail_def)

interpretation pg_users: user_repo "postgres_users p" users_ok for p
proof unfold_locales
  fix em pw q and m m' :: database and u
  assume run: "repo_CreateUser (postgres_users p) em pw q m = (Inr u, m')" and ok: "users_ok m"
  then have m': "gen_uuid p \<notin> user_ID ` set (users m)" "em \<notin> Email ` set (users m)"
    "u = \<lparr>user_ID = gen_uuid p, Email = em, PasswordHash = pw, StorageBytesUsed = 0, StorageQuotaBytes = q,
       user_CreatedAt = now p\<rparr>"
    "m' = m\<lparr>users := users m @ [u]\<rparr>"
    by (simp_all add: postgres_users_def CreateUser_Inr)
  then have "filter (\<lambda>x. Email x = em) (users m) = []" by (auto simp: filter_empty_conv image_iff)
  with m' ok show "users_ok m' \<and> Email u = em \<and> PasswordHash u = pw \<and> StorageQuotaBytes u = q \<and>
      (\<forall>v. repo_GetUserByEmail (postgres_users p) em m' = Inr v \<longrightarrow> v = u)"
    by (auto simp: users_ok_def postgres_users_def GetUserByEmail_Inr)
next
  fix em pw q and m m' :: database and v r
  assume "repo_GetUserByEmail (postgres_users p) em m = Inr v"
    and run: "repo_CreateUser (postgres_users p) em pw q m = (r, m')"
  then have "em \<in> Email ` set (users m)"
    by (auto simp: postgres_users_def GetUserByEmail_Inr dest!: filter_hdD)
  with run show "\<exists>e. r = Inl e"
    by (cases r) (auto simp: postgres_users_def CreateUser_Inr)
qed (auto simp: postgres_users_def GetUserByEmail_Inr dest: CreateUser_error dest!: filter_hdD)

end
