(* ===== verification/HandlerClaims.thy ===== *)
theory HandlerClaims
  imports AuthHandlers AuthClaims FileServiceClaims
begin

text \<open>
  The properties of the HTTP handlers of accounts, API keys and files: which status
  they answer when, which passwords a login accepts, and that no
  response body has a field for an object key, a reference count or a key hash.
\<close>

section \<open>Accounts\<close>

text \<open>C28: Registration, then login: the response to the registration carries a token of the
  account that it created, and a login with the email gets a token of the same account for
  exactly the passwords that bcrypt cannot tell from the registered one, and is refused with
  401 for all others. Among passwords without a NUL byte these are the ones whose first 72
  bytes are the registered password: the registered one alone if it is shorter.\<close>

theorem Register_then_Login:
  assumes "Register bindR bc lib t h (postgres_users p) c db = (r, db')" and "resp_status r = 201"
    and "bindR (req_body c) = Inr req" and "db_constraints db"
    and "bcrypt_ok bc"
    and "bindL (req_body c2) = Inr lreq" and "login_Email lreq = reg_Email req"
    and "\<not> fault p S_GetUserByEmail"
  shows "(\<exists>u tok. CreateUser p (reg_Email req) (PasswordHash u) (defaultQuota h) db = (Inr u, db') \<and>
     issueToken lib t h (user_ID u) = Inr tok \<and> r = json_response 201 (token_response tok) \<and>
     fst (Login bindL bc lib t2 h (postgres_users p) c2 db') =
       (if bcrypt_key (login_Password lreq) = bcrypt_key (reg_Password req)
        then (case issueToken lib t2 h (user_ID u) of
                Inl e \<Rightarrow> error_response 500 ''could not issue token''
              | Inr tok \<Rightarrow> json_response 200 (token_response tok))
        else error_response 401 ''invalid credentials'')) \<and>
   (NUL \<notin> set (reg_Password req) \<and> NUL \<notin> set (login_Password lreq) \<longrightarrow>
     (bcrypt_key (login_Password lreq) = bcrypt_key (reg_Password req) \<longleftrightarrow>
      take 72 (login_Password lreq) = reg_Password req))"
proof -
  have ok: "users_ok db" using assms(4) by (simp add: users_ok_def db_constraints_def)
  from assms(1,2,3) obtain hash u where u: "CreateUser p (reg_Email req) hash (defaultQuota h) db = (Inr u, db')"
    by (auto simp: Register_def postgres_users_def unless_panic_def split: sum.splits prod.splits go_error.splits)
  then have "filter (\<lambda>x. Email x = reg_Email req) (users db') = [u]"
    by (auto simp: CreateUser_Inr filter_empty_conv image_iff)
  then have "repo_GetUserByEmail (postgres_users p) (reg_Email req) db' = Inr u"
    using assms(8) by (simp add: postgres_users_def GetUserByEmail_Inr)
  from pg_users.Register_Login[where bindR = bindR and bindL = bindL and c = c and ?c2.0 = c2,
      OF assms(1,2,3) ok assms(5-7) this] bcrypt_key_eq[of "reg_Password req" "login_Password lreq"]
  show ?thesis by (simp add: postgres_users_def)
qed

text \<open>A comparison by the key: with a hash that is the key itself nothing collides.\<close>

definition demo_bcrypt :: bcrypt where
  "demo_bcrypt = \<lparr>GenerateFromPassword = (\<lambda>pw. if 72 < length pw then Inl (Opaque ''too long'') else Inr (bcrypt_key pw)),
     CompareHashAndPassword = (\<lambda>h pw. h = bcrypt_key pw)\<rparr>"

definition demo_auth :: auth_handler where
  "demo_auth = \<lparr>jwtSecret = ''s'', jwtExpiryHours = 24, defaultQuota = 100\<rparr>"

theorem Register_then_Login_witness:
  "\<exists>r db'. Register (\<lambda>_. Inr \<lparr>reg_Email = ''a@b.c'', reg_Password = ''secret12''\<rparr>) demo_bcrypt demo_jwt 5 demo_auth
       (postgres_users (demo_pg ''u9'' 5)) (demo_ctx '''' '''') demo_db = (r, db') \<and>
     fst (Login (\<lambda>_. Inr \<lparr>login_Email = ''a@b.c'', login_Password = ''secret12''\<rparr>) demo_bcrypt demo_jwt 6 demo_auth
       (postgres_users (demo_pg ''u9'' 5)) (demo_ctx '''' '''') db') = json_response 200 (token_response ''s:u9'') \<and>
     fst (Login (\<lambda>_. Inr \<lparr>login_Email = ''a@b.c'', login_Password = ''guess''\<rparr>) demo_bcrypt demo_jwt 6 demo_auth
       (postgres_users (demo_pg ''u9'' 5)) (demo_ctx '''' '''') db') = error_response 401 ''invalid credentials''"
proof -
  let ?reg = "Register (\<lambda>_. Inr \<lparr>reg_Email = ''a@b.c'', reg_Password = ''secret12''\<rparr>) demo_bcrypt demo_jwt 5 demo_auth
       (postgres_users (demo_pg ''u9'' 5)) (demo_ctx '''' '''') demo_db"
  have reg: "?reg = (json_response 201 (token_response ''s:u9''), snd ?reg)"
    by code_simp
  have hashing: "bcrypt_ok demo_bcrypt"
    by (auto simp: bcrypt_ok_def demo_bcrypt_def split: if_splits)
  have created: "user_ID u = ''u9''" if "CreateUser (demo_pg ''u9'' 5) em pw q demo_db = (Inr u, db')" for em pw q u db'
    using that by (simp add: CreateUser_Inr)
  have tok: "issueToken demo_jwt t demo_auth ''u9'' = Inr ''s:u9''" for t
    by (simp add: issueToken_def demo_jwt_def demo_auth_def)
  note log = Register_then_Login[OF reg _ _ demo_db_constraints hashing]
  have keys: "bcrypt_key ''guess'' \<noteq> bcrypt_key ''secret12''" by code_simp
  from log[of "\<lparr>reg_Email = ''a@b.c'', reg_Password = ''secret12''\<rparr>"
      "\<lambda>_. Inr \<lparr>login_Email = ''a@b.c'', login_Password = ''secret12''\<rparr>" "demo_ctx '''' ''''" _ 6]
    log[of "\<lparr>reg_Email = ''a@b.c'', reg_Password = ''secret12''\<rparr>"
      "\<lambda>_. Inr \<lparr>login_Email = ''a@b.c'', login_Password = ''guess''\<rparr>" "demo_ctx '''' ''''" _ 6]
  show ?thesis by (intro exI[of _ "fst ?reg"] exI[of _ "snd ?reg"]) (auto dest!: created simp: tok keys)
qed

text \<open>Login tells nobody which accounts exist: an unknown email and a wrong password
  get the same answer.\<close>

theorem Login_no_enumeration:
  assumes "bindL (req_body c) = Inr req" and "\<not> fault p S_GetUserByEmail"
    and "\<And>u. u \<in> set (users db) \<Longrightarrow> Email u = login_Email req \<Longrightarrow> \<not> CompareHashAndPassword bc (PasswordHash u) (login_Password req)"
  shows "Login bindL bc lib t h (postgres_users p) c db = (error_response 401 ''invalid credentials'', db)"
proof (cases "filter (\<lambda>u. Email u = login_Email req) (users db)")
  case Nil
  with assms show ?thesis
    by (simp add: Login_def postgres_users_def GetUserByEmail_def exec_no_fault no_rows_not_found_def)
next
  case (Cons u us)
  with assms(3)[of u] filter_hdD[OF Cons] have "\<not> CompareHashAndPassword bc (PasswordHash u) (login_Password req)"
    by blast
  with Cons assms(1,2) show ?thesis
    by (simp add: Login_def postgres_users_def GetUserByEmail_def exec_no_fault no_rows_not_found_def)
qed

theorem Login_no_enumeration_witness:
  "Login (\<lambda>_. Inr \<lparr>login_Email = ''u1@example.com'', login_Password = ''guess''\<rparr>) demo_bcrypt demo_jwt 6 demo_auth
     (postgres_users (demo_pg ''x'' 5)) (demo_ctx '''' '''') demo_db =
   Login (\<lambda>_. Inr \<lparr>login_Email = ''nobody'', login_Password = ''guess''\<rparr>) demo_bcrypt demo_jwt 6 demo_auth
     (postgres_users (demo_pg ''x'' 5)) (demo_ctx '''' '''') demo_db"
proof -
  have other: "''h'' \<noteq> bcrypt_key ''guess''" by code_simp
  have "Login (\<lambda>_. Inr \<lparr>login_Email = em, login_Password = ''guess''\<rparr>) demo_bcrypt demo_jwt 6 demo_auth
     (postgres_users (demo_pg ''x'' 5)) (demo_ctx '''' '''') demo_db = (error_response 401 ''invalid credentials'', demo_db)" for em
    by (rule Login_no_enumeration) (auto simp: demo_defs demo_bcrypt_def other)
  then show ?thesis by simp
qed

text \<open>Registration answers a taken email with 409 and changes nothing; but it gives
  the same answer to every other failure of the insertion, so a server failure reads
  as a taken email although the email is free.\<close>

theorem Register_failure_is_conflict:
  assumes "bindR (req_body c) = Inr req" and "GenerateFromPassword bc (reg_Password req) = Inr hash"
    and "fault p S_CreateUser \<or> reg_Email req \<in> Email ` set (users db)"
  shows "Register bindR bc lib t h (postgres_users p) c db = (error_response 409 ''email already registered'', db)"
  using assms
  by (auto simp: Register_def postgres_users_def CreateUser_def auto_commit_def exec_def Let_def)

theorem Register_failure_is_conflict_witness:
  "Register (\<lambda>_. Inr \<lparr>reg_Email = ''new@b.c'', reg_Password = ''secret12''\<rparr>) demo_bcrypt demo_jwt 5 demo_auth
     (postgres_users ((demo_pg ''u9'' 5)\<lparr>fault := (\<lambda>s. s = S_CreateUser)\<rparr>)) (demo_ctx '''' '''') demo_db
   = (error_response 409 ''email already registered'', demo_db) \<and> ''new@b.c'' \<notin> Email ` set (users demo_db)"
proof
  show "Register (\<lambda>_. Inr \<lparr>reg_Email = ''new@b.c'', reg_Password = ''secret12''\<rparr>) demo_bcrypt demo_jwt 5 demo_auth
     (postgres_users ((demo_pg ''u9'' 5)\<lparr>fault := (\<lambda>s. s = S_CreateUser)\<rparr>)) (demo_ctx '''' '''') demo_db
   = (error_response 409 ''email already registered'', demo_db)"
    by (rule Register_failure_is_conflict[where req = "\<lparr>reg_Email = ''new@b.c'', reg_Password = ''secret12''\<rparr>"
          and hash = "bcrypt_key ''secret12''"]) (simp_all add: demo_bcrypt_def)
qed (simp add: demo_defs)

section \<open>Files\<close>

text \<open>The lookup of a file, on a working server: 200 with the file's row exactly for
  an active file of the caller, 404 for every other well-formed id, a foreign file's
  included, and 500 for a malformed id or user id.\<close>

theorem file_Get_status:
  assumes "\<not> fault p S_GetByID" and "db_constraints db"
  shows "fst (file_Get (postgres_repo p) c (db, s)) =
    (case (uuid_in p (param c ''id''), uuid_in p (GetUserID c)) of
       (Some i, Some u) \<Rightarrow>
         (case find (\<lambda>f. file_ID f = i \<and> file_UserID f = u \<and> active f) (files db) of
            Some f \<Rightarrow> json_response 200 (json_file f)
          | None \<Rightarrow> error_response 404 ''file not found'')
     | _ \<Rightarrow> error_response 500 (''get by id: '' @ pg_text p InvalidUuid))"
proof -
  have find: "find P xs = (case filter P xs of [] \<Rightarrow> None | x # _ \<Rightarrow> Some x)" for P and xs :: "file_meta list"
    by (induction xs) auto
  show ?thesis
    using assms(1)
    by (auto simp: file_Get_def fs_GetMeta_def GetByID_def exec_no_fault uuid_arg_def find pg_error_def
        no_rows_not_found_def not_found_or_500_def query_row_def split: option.splits list.splits)
qed

definition demo_get :: "string \<Rightarrow> string \<Rightarrow> gin_context" where
  "demo_get user i = set_key UserIDKey user ((demo_ctx '''' '''')\<lparr>param := (\<lambda>_. i)\<rparr>)"

lemma demo_db_files:
  "files demo_db = [demo_file ''f1'' ''u1'' 3, demo_file ''f2'' ''u2'' 1, demo_file ''f3'' ''u3'' 1]"
  by (simp add: demo_db_def)

lemma demo_file_sel: "file_ID (demo_file i u n) = i" "file_UserID (demo_file i u n) = u" "active (demo_file i u n)"
  by (simp_all add: demo_file_def active_def)

theorem file_Get_status_witness:
  "fst (file_Get (postgres_repo (demo_pg ''x'' 1)) (demo_get ''u1'' ''f1'') (demo_db, NewMockStorage))
     = json_response 200 (json_file (demo_file ''f1'' ''u1'' 3)) \<and>
   fst (file_Get (postgres_repo (demo_pg ''x'' 1)) (demo_get ''u2'' ''f1'') (demo_db, NewMockStorage))
     = error_response 404 ''file not found''"
  using file_Get_status[OF _ demo_db_constraints, of "demo_pg ''x'' 1" "demo_get ''u1'' ''f1''" NewMockStorage]
    file_Get_status[OF _ demo_db_constraints, of "demo_pg ''x'' 1" "demo_get ''u2'' ''f1''" NewMockStorage]
  by (simp add: demo_get_def demo_db_files demo_file_sel)

text \<open>The status of an upload says what happened: 201 exactly for new content that is
  stored, 200 exactly for a duplicate, 429 only when the quota does not allow it, and
  after 400, 429 or 500 the caller's and everybody's active rows are what they were
  (as long as the rollback of a failed storage write works).\<close>

theorem file_Upload_status:
  assumes "file_Upload FormFile (postgres_repo p) (minio_as_storage mc) c (db, s) = (r, db', s')"
    and "s3_semantics (client mc) (bucketName mc) objects" and "first_row p = p" and "pg_inv db"
    and "\<And>hdr. FormFile ''file'' (req_body c) = Inr hdr \<Longrightarrow>
      (\<exists>b. steady hdr b) \<and> rolls_back (postgres_repo p) (GetUserID c) hdr db"
  shows "(resp_status r \<in> {200, 201} \<longleftrightarrow>
      (\<exists>hdr res. FormFile ''file'' (req_body c) = Inr hdr \<and>
         fs_Upload (postgres_repo p) (minio_as_storage mc) (GetUserID c) hdr (db, s) = (Inr res, db', s') \<and>
         (resp_status r = 200 \<longleftrightarrow> upl_Duplicate res) \<and>
         json_field ''file'' (case resp_payload r of JSON v \<Rightarrow> v | _ \<Rightarrow> JNull) = Some (json_file (upl_File res)))) \<and>
     (resp_status r \<in> {400, 429, 500} \<longleftrightarrow> resp_status r \<notin> {200, 201}) \<and>
     (resp_status r \<in> {400, 429, 500} \<longrightarrow> pg_refs db' = pg_refs db)"
proof (cases "FormFile ''file'' (req_body c)")
  case (Inl e)
  with assms(1) show ?thesis by (auto simp: file_Upload_def)
next
  case (Inr hdr)
  with assms(5) obtain b where b: "steady hdr b" and rb: "rolls_back (postgres_repo p) (GetUserID c) hdr db" by blast
  obtain x m t where up: "fs_Upload (postgres_repo p) (minio_as_storage mc) (GetUserID c) hdr (db, s) = (x, m, t)"
    by (metis prod.collapse)
  show ?thesis
  proof (cases x)
    case (Inl e)
    with up have up: "fs_Upload (postgres_repo p) (minio_as_storage mc) (GetUserID c) hdr (db, s) = (Inl e, m, t)" by simp
    have "pg_refs m = pg_refs db"
      using file_service.upload_failure[OF pg_minio_files[OF assms(2), of p], unfolded assms(3), OF up assms(4) b rb]
      by blast
    with assms(1) Inr up show ?thesis
      by (cases e) (auto simp: file_Upload_def unless_panic_def split: if_splits)
  next
    case (Inr res)
    with \<open>FormFile ''file'' (req_body c) = Inr hdr\<close> up assms(1) show ?thesis
      by (auto simp: file_Upload_def Let_def json_response_def split: if_splits)
  qed
qed

theorem file_Upload_status_witness:
  "\<exists>r db' s'. file_Upload (\<lambda>_ _. Inl (Opaque ''missing'')) (postgres_repo (demo_pg ''f2'' 1)) (minio_as_storage demo_minio)
     (demo_ctx '''' '''') (demo_stored ''hello'', NewMockStorage) = (r, db', s') \<and> resp_status r = 400 \<and>
     pg_refs db' = pg_refs (demo_stored ''hello'')"
proof -
  have run: "file_Upload (\<lambda>_ _. Inl (Opaque ''missing'')) (postgres_repo (demo_pg ''f2'' 1)) (minio_as_storage demo_minio)
     (demo_ctx '''' '''') (demo_stored ''hello'', NewMockStorage)
     = (error_response 400 ''field 'file' is required'', demo_stored ''hello'', NewMockStorage)"
    by (simp add: file_Upload_def)
  from file_Upload_status[OF run demo_minio_s3 demo_pg_first_row demo_stored_inv] run show ?thesis by auto
qed

section \<open>What responses never show\<close>

lemma disjoint_sub: "X \<subseteq> A \<union> B \<Longrightarrow> A \<inter> S = {} \<Longrightarrow> B \<inter> S = {} \<Longrightarrow> X \<inter> S = {}"
  by blast

lemma names_panic: "response_names (unless_panic e (error_response st m)) \<subseteq> {''error''}"
  using names_unless_panic[of e "error_response st m"] by simp

text \<open>The field names of each handler's responses.\<close>

lemma file_response_names:
  "response_names (fst (file_Upload FormFile repo st c w)) \<subseteq>
     {''error'', ''file'', ''duplicate'', ''message''} \<union> (\<Union>f. json_names (json_file f))"
  "response_names (fst (file_List repo c w)) \<subseteq> {''error'', ''files'', ''count''} \<union> (\<Union>f. json_names (json_file f))"
  "response_names (fst (file_Get repo c w)) \<subseteq> {''error''} \<union> (\<Union>f. json_names (json_file f))"
  "response_names (fst (file_PresignedURL repo st c w)) \<subseteq> {''error'', ''url''} \<union> {}"
  "response_names (fst (file_Delete repo st c w)) \<subseteq> {''error'', ''message''} \<union> {}"
  by (auto simp: file_Upload_def file_List_def file_Get_def file_PresignedURL_def file_Delete_def Let_def json_names_slice
      split: sum.splits prod.splits dest!: names_panic[THEN subsetD] names_not_found[THEN subsetD])

lemma apikey_response_names:
  "response_names (fst (apikey_Create bind p rand c db)) \<subseteq> {''error'', ''key''} \<union> (\<Union>k. json_names (json_api_key k))"
  "response_names (fst (apikey_List p c db)) \<subseteq> {''error'', ''api_keys'', ''count''} \<union> (\<Union>k. json_names (json_api_key k))"
  "response_names (fst (apikey_Delete p c db)) \<subseteq> {''error'', ''message''} \<union> {}"
  by (auto simp: apikey_Create_def apikey_List_def apikey_Delete_def Let_def json_names_slice json_api_key_def
      split: sum.splits prod.splits dest!: names_panic[THEN subsetD] names_not_found[THEN subsetD])

text \<open>Whatever happens, no response of the file handlers has a field for the object
  key or the reference count, no response of the API key handlers has one for the key
  hash, and the raw key appears only in the answer to its creation.\<close>

theorem responses_hide_internals:
  "response_names (fst (file_Upload FormFile repo st c w)) \<inter> {''object_key'', ''ref_count''} = {} \<and>
   response_names (fst (file_List repo c w)) \<inter> {''object_key'', ''ref_count''} = {} \<and>
   response_names (fst (file_Get repo c w)) \<inter> {''object_key'', ''ref_count''} = {} \<and>
   response_names (fst (file_PresignedURL repo st c w)) \<inter> {''object_key'', ''ref_count''} = {} \<and>
   response_names (fst (file_Delete repo st c w)) \<inter> {''object_key'', ''ref_count''} = {} \<and>
   response_names (fst (apikey_Create bind p rand c db)) \<inter> {''key_hash''} = {} \<and>
   response_names (fst (apikey_List p c db)) \<inter> {''key_hash'', ''key''} = {} \<and>
   response_names (fst (apikey_Delete p c db)) \<inter> {''key_hash'', ''key''} = {}"
proof -
  have fs: "(\<Union>f. json_names (json_file f)) \<inter> {''object_key'', ''ref_count''} = {}"
    using json_file_names by fastforce
  have ks: "(\<Union>k. json_names (json_api_key k)) \<inter> {''key_hash'', ''key''} = {}"
    using json_api_key_names by fastforce
  have ks': "(\<Union>k. json_names (json_api_key k)) \<inter> {''key_hash''} = {}" using ks by blast
  show ?thesis
    by (intro conjI disjoint_sub[OF file_response_names(1) _ fs] disjoint_sub[OF file_response_names(2) _ fs]
        disjoint_sub[OF file_response_names(3) _ fs] disjoint_sub[OF file_response_names(4) _ Int_empty_left]
        disjoint_sub[OF file_response_names(5) _ Int_empty_left] disjoint_sub[OF apikey_response_names(1) _ ks']
        disjoint_sub[OF apikey_response_names(2) _ ks] disjoint_sub[OF apikey_response_names(3) _ Int_empty_left]) simp_all
qed

end
