(* ===== verification/Config.thy ===== *)
theory Config
  imports GoLib
begin

text \<open>
  The configuration, \<open>config/config.go\<close>: reading the environment with typed
  fallbacks, and the PostgreSQL connection string. The environment maps a name to its
  value, the empty string when it is unset.
\<close>

section \<open>Reading the environment\<close>

type_synonym env = "string \<Rightarrow> string"

definition getEnv :: "env \<Rightarrow> string \<Rightarrow> string \<Rightarrow> string" where
  "getEnv env key fallback = (let v = env key in if v \<noteq> '''' then v else fallback)"

definition getEnvBool :: "env \<Rightarrow> string \<Rightarrow> bool \<Rightarrow> bool" where
  "getEnvBool env key fallback =
     (let v = env key
      in if v = '''' then fallback
         else case parse_bool v of None \<Rightarrow> fallback | Some b \<Rightarrow> b)"

definition getEnvInt :: "env \<Rightarrow> string \<Rightarrow> int \<Rightarrow> int" where
  "getEnvInt env key fallback =
     (let v = env key
      in if v = '''' then fallback
         else case parse_int64 v of None \<Rightarrow> fallback | Some n \<Rightarrow> n)"

definition getEnvInt64 :: "env \<Rightarrow> string \<Rightarrow> int \<Rightarrow> int" where
  "getEnvInt64 env key fallback =
     (let v = env key
      in if v = '''' then fallback
         else case parse_int64 v of None \<Rightarrow> fallback | Some n \<Rightarrow> n)"

section \<open>The configuration\<close>

record config =
  Port :: string
  DBHost :: string
  DBPort :: string
  DBUser :: string
  DBPassword :: string
  DBName :: string
  DBSSLMode :: string
  StorageEndpoint :: string
  StorageAccessKey :: string
  StorageSecretKey :: string
  StorageBucket :: string
  StorageUseSSL :: bool
  JWTSecret :: string
  JWTExpiryHours :: int
  PresignedURLMinutes :: int
  DefaultQuotaBytes :: int
  RedisAddr :: string
  RedisPassword :: string
  WorkerConcurrency :: int
  ProcessingTimeoutMinutes :: int
  RateLimitUploadsPerMinute :: int
  AsynqDashboardEnabled :: bool
  AsynqDashboardPort :: string

text \<open>The result and whether the warning about the default secret goes to stderr.\<close>

definition Load :: "env \<Rightarrow> config \<times> bool" where
  "Load env =
     (let cfg = \<lparr>
        Port = getEnv env ''PORT'' ''8080'',
        DBHost = getEnv env ''DB_HOST'' ''localhost'',
        DBPort = getEnv env ''DB_PORT'' ''5432'',
        DBUser = getEnv env ''DB_USER'' ''storageuser'',
        DBPassword = getEnv env ''DB_PASSWORD'' ''storagepass'',
        DBName = getEnv env ''DB_NAME'' ''storagedb'',
        DBSSLMode = getEnv env ''DB_SSLMODE'' ''disable'',
        StorageEndpoint = getEnv env ''STORAGE_ENDPOINT'' ''localhost:9000'',
        StorageAccessKey = getEnv env ''STORAGE_ACCESS_KEY'' ''minioadmin'',
        StorageSecretKey = getEnv env ''STORAGE_SECRET_KEY'' ''minioadmin'',
        StorageBucket = getEnv env ''STORAGE_BUCKET'' ''documents'',
        StorageUseSSL = getEnvBool env ''STORAGE_USE_SSL'' False,
        JWTSecret = getEnv env ''JWT_SECRET'' ''change-me-in-production'',
        JWTExpiryHours = getEnvInt env ''JWT_EXPIRY_HOURS'' 24,
        PresignedURLMinutes = getEnvInt env ''PRESIGNED_URL_MINUTES'' 15,
        DefaultQuotaBytes = getEnvInt64 env ''DEFAULT_QUOTA_BYTES'' (10 * 1024 * 1024 * 1024),
        RedisAddr = getEnv env ''REDIS_ADDR'' ''localhost:6379'',
        RedisPassword = getEnv env ''REDIS_PASSWORD'' '''',
        WorkerConcurrency = getEnvInt env ''WORKER_CONCURRENCY'' 10,
        ProcessingTimeoutMinutes = getEnvInt env ''PROCESSING_TIMEOUT_MINUTES'' 30,
        RateLimitUploadsPerMinute = getEnvInt env ''RATE_LIMIT_UPLOADS_PER_MINUTE'' 10,
        AsynqDashboardEnabled = getEnvBool env ''ASYNQ_DASHBOARD_ENABLED'' True,
        AsynqDashboardPort = getEnv env ''ASYNQ_DASHBOARD_PORT'' ''8081''\<rparr>
      in (cfg, JWTSecret cfg = ''change-me-in-production''))"

text \<open>The connection string, and what \<open>DSN\<close> prints to the standard output on the way.\<close>

definition DSN :: "config \<Rightarrow> string \<times> string" where
  "DSN c =
     (let dsn = ''host='' @ DBHost c @ '' port='' @ DBPort c @ '' user='' @ DBUser c
        @ '' password='' @ DBPassword c @ '' dbname='' @ DBName c @ '' sslmode='' @ DBSSLMode c
      in (dsn, dsn @ ''\<newline>''))"

section \<open>Properties\<close>

text \<open>A number in the environment is read back: for every 64-bit \<open>n\<close>, setting a
  numeric variable to the decimal text of \<open>n\<close> configures \<open>n\<close>, negative numbers and zero
  included.\<close>

theorem config_int_roundtrip:
  assumes "int8_ok n"
  shows "RateLimitUploadsPerMinute (fst (Load (env(''RATE_LIMIT_UPLOADS_PER_MINUTE'' := itoa n)))) = n \<and>
    ProcessingTimeoutMinutes (fst (Load (env(''PROCESSING_TIMEOUT_MINUTES'' := itoa n)))) = n \<and>
    JWTExpiryHours (fst (Load (env(''JWT_EXPIRY_HOURS'' := itoa n)))) = n \<and>
    PresignedURLMinutes (fst (Load (env(''PRESIGNED_URL_MINUTES'' := itoa n)))) = n \<and>
    WorkerConcurrency (fst (Load (env(''WORKER_CONCURRENCY'' := itoa n)))) = n \<and>
    DefaultQuotaBytes (fst (Load (env(''DEFAULT_QUOTA_BYTES'' := itoa n)))) = n"
proof -
  have "itoa n \<noteq> ''''" by (simp add: itoa_def)
  then show ?thesis
    using parse_itoa[OF assms] by (simp add: Load_def Let_def getEnvInt_def getEnvInt64_def)
qed

theorem config_int_roundtrip_witness:
  "itoa (- 3) = ''-3'' \<and>
   WorkerConcurrency (fst (Load ((\<lambda>_. '''')(''WORKER_CONCURRENCY'' := ''-3'')))) = - 3"
proof -
  have "itoa (- 3) = ''-3''" by code_simp
  with config_int_roundtrip[of "- 3" "\<lambda>_. ''''"] show ?thesis by (simp add: int8_ok_def)
qed

text \<open>Whatever the environment holds, loading succeeds and every number fits 64 bits:
  garbage, overlong numbers and empty values fall back to the defaults.\<close>

theorem config_always_in_range:
  "int8_ok (JWTExpiryHours (fst (Load env))) \<and> int8_ok (PresignedURLMinutes (fst (Load env))) \<and>
   int8_ok (DefaultQuotaBytes (fst (Load env))) \<and> int8_ok (WorkerConcurrency (fst (Load env))) \<and>
   int8_ok (ProcessingTimeoutMinutes (fst (Load env))) \<and> int8_ok (RateLimitUploadsPerMinute (fst (Load env))) \<and>
   Port (fst (Load env)) \<noteq> '''' \<and> JWTSecret (fst (Load env)) \<noteq> '''' \<and> StorageBucket (fst (Load env)) \<noteq> '''' \<and>
   (snd (Load env) \<longleftrightarrow> env ''JWT_SECRET'' \<in> {'''', ''change-me-in-production''})"
proof -
  have range: "int8_ok (getEnvInt env k d)" "int8_ok (getEnvInt64 env k d)" if "int8_ok d" for k d
    using that parse_int64_ok by (auto simp: getEnvInt_def getEnvInt64_def Let_def split: option.splits)
  have str: "getEnv env k d \<noteq> ''''" if "d \<noteq> ''''" for k d
    using that by (simp add: getEnv_def Let_def)
  have "int8_ok 24" "int8_ok 15" "int8_ok 10" "int8_ok 30" "int8_ok 10737418240"
    by (simp_all add: int8_ok_def)
  then show ?thesis
    by (simp add: Load_def Let_def range str) (simp add: getEnv_def Let_def)
qed

text \<open>The connection string loses nothing: two configurations whose values have no
  spaces (the string does not quote them) and which give the same string agree on all
  six database settings. What \<open>DSN\<close> prints to the standard output is this string, with
  the password in it.\<close>

theorem DSN_injective:
  assumes "fst (DSN c) = fst (DSN d)"
    and "\<And>v. v \<in> {DBHost c, DBPort c, DBUser c, DBPassword c, DBName c,
                   DBHost d, DBPort d, DBUser d, DBPassword d, DBName d} \<Longrightarrow> CHR '' '' \<notin> set v"
  shows "DBHost c = DBHost d \<and> DBPort c = DBPort d \<and> DBUser c = DBUser d \<and>
     DBPassword c = DBPassword d \<and> DBName c = DBName d \<and> DBSSLMode c = DBSSLMode d \<and>
     snd (DSN c) = fst (DSN c) @ ''\<newline>''"
proof -
  have sp: "CHR '' '' \<notin> set (DBHost x)" "CHR '' '' \<notin> set (DBPort x)" "CHR '' '' \<notin> set (DBUser x)"
    "CHR '' '' \<notin> set (DBPassword x)" "CHR '' '' \<notin> set (DBName x)" if "x \<in> {c, d}" for x
    using assms(2) that by auto
  from assms(1) show ?thesis
    by (simp add: DSN_def append_sep_eq sp)
qed

definition demo_env :: env where
  "demo_env = (\<lambda>_. '''')(''DB_PASSWORD'' := ''pw'')"

theorem DSN_injective_witness:
  "fst (DSN (fst (Load demo_env)))
     = ''host=localhost port=5432 user=storageuser password=pw dbname=storagedb sslmode=disable'' \<and>
   DBPassword (fst (Load demo_env)) = DBPassword ((fst (Load demo_env))\<lparr>Port := ''1''\<rparr>) \<and>
   snd (DSN (fst (Load demo_env))) = fst (DSN (fst (Load demo_env))) @ ''\<newline>''"
proof -
  have dsn: "fst (DSN (fst (Load demo_env)))
     = ''host=localhost port=5432 user=storageuser password=pw dbname=storagedb sslmode=disable''"
    by (simp add: DSN_def Load_def getEnv_def demo_env_def Let_def)
  have same: "fst (DSN (fst (Load demo_env))) = fst (DSN ((fst (Load demo_env))\<lparr>Port := ''1''\<rparr>))"
    by (simp add: DSN_def Let_def)
  let ?d = "(fst (Load demo_env))\<lparr>Port := ''1''\<rparr>"
  have sp: "CHR '' '' \<notin> set v" if "v \<in> {DBHost (fst (Load demo_env)), DBPort (fst (Load demo_env)), DBUser (fst (Load demo_env)),
      DBPassword (fst (Load demo_env)), DBName (fst (Load demo_env)), DBHost ?d, DBPort ?d, DBUser ?d, DBPassword ?d, DBName ?d}" for v
    using that by (auto simp: Load_def getEnv_def demo_env_def Let_def)
  from DSN_injective[OF same sp] dsn show ?thesis by simp
qed

end
