(* ===== verification/Bootstrap.thy ===== *)
theory Bootstrap
  imports Config
begin

text \<open>
  The start of the database, \<open>db/db.go\<close>: connect, then run every embedded migration file.
  The SQL library and the embedded file system are parameters; the pool's sizes are
  settings of the library.
\<close>

record 'd sql_library =
  sqlx_Connect :: "string \<Rightarrow> go_error + 'd"
  db_Exec :: "string \<Rightarrow> 'd \<Rightarrow> (go_error + unit) \<times> 'd"

text \<open>A directory entry is a name and whether it is a directory itself.\<close>

record embed_fs =
  fs_ReadDir :: "string \<Rightarrow> go_error + (string \<times> bool) list"
  fs_ReadFile :: "string \<Rightarrow> go_error + string"

fun run_entries :: "'d sql_library \<Rightarrow> embed_fs \<Rightarrow> (string \<times> bool) list \<Rightarrow> 'd \<Rightarrow> (go_error + unit) \<times> 'd" where
  "run_entries lib fs [] db = (Inr (), db)"
| "run_entries lib fs ((name, isDir) # es) db =
     (if isDir then run_entries lib fs es db
      else case fs_ReadFile fs (''migrations/'' @ name) of
             Inl e \<Rightarrow> (Inl (Errorf (''read migration '' @ name) e), db)
           | Inr sql \<Rightarrow>
               (case db_Exec lib sql db of
                  (Inl e, db) \<Rightarrow> (Inl (Errorf (''exec migration '' @ name) e), db)
                | (Inr _, db) \<Rightarrow> run_entries lib fs es db))"

definition runMigrations :: "'d sql_library \<Rightarrow> embed_fs \<Rightarrow> 'd \<Rightarrow> (go_error + unit) \<times> 'd" where
  "runMigrations lib fs db =
     (case fs_ReadDir fs ''migrations'' of
        Inl e \<Rightarrow> (Inl e, db)
      | Inr entries \<Rightarrow> run_entries lib fs entries db)"

definition Connect :: "'d sql_library \<Rightarrow> embed_fs \<Rightarrow> string \<Rightarrow> go_error + 'd" where
  "Connect lib fs dsn =
     and_then (wrapf ''db connect'' (sqlx_Connect lib dsn)) (\<lambda>db.
       case runMigrations lib fs db of
         (Inl e, db) \<Rightarrow> Inl (Errorf ''db migrate'' e)
       | (Inr _, db) \<Rightarrow> Inr db)"

text \<open>The contents of the files of a directory, in its order.\<close>

definition migration_texts :: "embed_fs \<Rightarrow> (string \<times> bool) list \<Rightarrow> string list" where
  "migration_texts fs es = map (\<lambda>e. case fs_ReadFile fs (''migrations/'' @ fst e) of Inr t \<Rightarrow> t | Inl _ \<Rightarrow> []) (filter (\<lambda>e. \<not> snd e) es)"

lemma run_entries_ok:
  assumes "run_entries lib fs es db = (Inr (), db')"
  shows "db' = fold (\<lambda>sql db. snd (db_Exec lib sql db)) (migration_texts fs es) db \<and>
    (\<forall>e \<in> set es. \<not> snd e \<longrightarrow> (\<exists>t. fs_ReadFile fs (''migrations/'' @ fst e) = Inr t))"
  using assms
  by (induction lib fs es db rule: run_entries.induct)
     (auto simp: migration_texts_def split: if_splits sum.splits prod.splits)

text \<open>A server that has started has run every migration file once, in the order of the
  directory, and each without an error; since no record is kept of what ran before,
  every start runs all of them again.\<close>

lemma Connect_ok:
  assumes "Connect lib fs dsn = Inr db'"
  shows "\<exists>db es. sqlx_Connect lib dsn = Inr db \<and> fs_ReadDir fs ''migrations'' = Inr es \<and>
    db' = fold (\<lambda>sql db. snd (db_Exec lib sql db)) (migration_texts fs es) db"
proof -
  from assms obtain db where db: "sqlx_Connect lib dsn = Inr db" and run: "runMigrations lib fs db = (Inr (), db')"
    by (cases "sqlx_Connect lib dsn") (auto simp: Connect_def split: prod.splits sum.splits)
  from run obtain es where "fs_ReadDir fs ''migrations'' = Inr es" "run_entries lib fs es db = (Inr (), db')"
    by (auto simp: runMigrations_def split: sum.splits)
  with db conjunct1[OF run_entries_ok] show ?thesis by (intro exI conjI)
qed

end
