(* ===== verification/DocumentStore.thy ===== *)
theory DocumentStore
  imports MetadataProps
begin

text \<open>
  The PostgreSQL repository of documents, extracted pages and webhook subscriptions,
  \<open>storage/document_store.go\<close>: every statement of every method, the upsert of pages
  and the cascading deletion included.
\<close>

section \<open>Documents\<close>

definition insert_document ::
  "pg \<Rightarrow> string \<Rightarrow> string \<Rightarrow> string \<Rightarrow> string \<Rightarrow> int \<Rightarrow> database \<Rightarrow> go_error + document \<times> database" where
  "insert_document p userID name minioPath sha256 sizeBytes db =
     exec p S_DocInsert (uuid_arg p userID (\<lambda>u.
       if gen_uuid p \<in> set (map doc_ID (documents db)) then Inl (pg_error p UniqueViolation)
       else if u \<notin> set (map user_ID (users db)) then Inl (pg_error p ForeignKeyViolation)
       else let d = \<lparr>doc_ID = gen_uuid p, doc_UserID = u, Filename = name, OriginalMinioPath = minioPath,
                     doc_SHA256 = sha256, Status = StatusProcessing, TotalPages = None, ErrorMessage = None,
                     doc_SizeBytes = sizeBytes, doc_CreatedAt = now p, UpdatedAt = now p\<rparr>
            in Inr (d, db\<lparr>documents := documents db @ [d]\<rparr>)))"

definition create_document_tx ::
  "pg \<Rightarrow> string \<Rightarrow> string \<Rightarrow> string \<Rightarrow> string \<Rightarrow> int \<Rightarrow> database \<Rightarrow> go_error + document \<times> database" where
  "create_document_tx p userID name minioPath sha256 sizeBytes tx =
     and_then (wrapf ''create document'' (insert_document p userID name minioPath sha256 sizeBytes tx)) (\<lambda>(d, tx).
     and_then (wrapf ''update storage usage'' (update_usage p S_DocUpdateUsage sizeBytes (\<lambda>n. n) userID tx)) (\<lambda>tx.
       Inr (d, tx)))"

definition CreateDocument ::
  "pg \<Rightarrow> string \<Rightarrow> string \<Rightarrow> string \<Rightarrow> string \<Rightarrow> int \<Rightarrow> database \<Rightarrow> (go_error + document) \<times> database" where
  "CreateDocument p userID name minioPath sha256 sizeBytes db =
     in_tx p S_DocBegin S_DocCommit ''commit''
       (create_document_tx p userID name minioPath sha256 sizeBytes) db"

definition GetDocument :: "pg \<Rightarrow> string \<Rightarrow> string \<Rightarrow> database \<Rightarrow> go_error + document" where
  "GetDocument p i userID db =
     no_rows_not_found ''get document'' (exec p S_GetDocument
       (uuid_arg p i (\<lambda>i. uuid_arg p userID (\<lambda>u.
          query_row (filter (\<lambda>d. doc_ID d = i \<and> doc_UserID d = u) (documents db))))))"

definition GetDocumentByID :: "pg \<Rightarrow> string \<Rightarrow> database \<Rightarrow> go_error + document" where
  "GetDocumentByID p i db =
     no_rows_not_found ''get document by id'' (exec p S_GetDocumentByID
       (uuid_arg p i (\<lambda>i. query_row (filter (\<lambda>d. doc_ID d = i) (documents db)))))"

definition ListDocuments :: "pg \<Rightarrow> string \<Rightarrow> database \<Rightarrow> go_error + document list" where
  "ListDocuments p userID db =
     wrapf ''list documents'' (exec p S_ListDocuments (uuid_arg p userID (\<lambda>u.
       Inr (order_desc doc_CreatedAt (filter (\<lambda>d. doc_UserID d = u) (documents db))))))"

text \<open>An update of the rows with one id; no row is no error.\<close>

definition update_document :: "uuid \<Rightarrow> (document \<Rightarrow> document) \<Rightarrow> database \<Rightarrow> database" where
  "update_document i f db = db\<lparr>documents := sql_update (\<lambda>d. doc_ID d = i) f (documents db)\<rparr>"

definition MarkReady :: "pg \<Rightarrow> string \<Rightarrow> int \<Rightarrow> database \<Rightarrow> (go_error + unit) \<times> database" where
  "MarkReady p docID totalPages db =
     auto_commit (\<lambda>db. wrapf ''mark ready'' (exec p S_MarkReady (uuid_arg p docID (\<lambda>i.
       if int4_ok totalPages
       then Inr ((), update_document i
              (\<lambda>d. d\<lparr>Status := StatusReady, TotalPages := Some totalPages, UpdatedAt := now p\<rparr>) db)
       else Inl (pg_error p OutOfRange))))) db"

definition MarkFailed :: "pg \<Rightarrow> string \<Rightarrow> string \<Rightarrow> database \<Rightarrow> (go_error + unit) \<times> database" where
  "MarkFailed p docID errMsg db =
     auto_commit (\<lambda>db. wrapf ''mark failed'' (exec p S_MarkFailed (uuid_arg p docID (\<lambda>i.
       Inr ((), update_document i
              (\<lambda>d. d\<lparr>Status := StatusFailed, ErrorMessage := Some errMsg, UpdatedAt := now p\<rparr>) db))))) db"

definition UpdateOriginalPath :: "pg \<Rightarrow> string \<Rightarrow> string \<Rightarrow> database \<Rightarrow> (go_error + unit) \<times> database" where
  "UpdateOriginalPath p docID path db =
     auto_commit (\<lambda>db. wrapf ''update original path'' (exec p S_UpdatePath (uuid_arg p docID (\<lambda>i.
       Inr ((), update_document i (\<lambda>d. d\<lparr>OriginalMinioPath := path, UpdatedAt := now p\<rparr>) db))))) db"

text \<open>\<open>DELETE ... RETURNING\<close>; the pages and the webhooks of the document go with it
  (\<open>ON DELETE CASCADE\<close>).\<close>

definition delete_document :: "uuid \<Rightarrow> database \<Rightarrow> database" where
  "delete_document i db =
     db\<lparr>documents := sql_delete (\<lambda>d. doc_ID d = i) (documents db),
        document_pages := sql_delete (\<lambda>pg. page_DocumentID pg = i) (document_pages db),
        webhook_subscriptions := sql_delete (\<lambda>w. hook_DocumentID w = i) (webhook_subscriptions db)\<rparr>"

definition DeleteDocument :: "pg \<Rightarrow> string \<Rightarrow> string \<Rightarrow> database \<Rightarrow> (go_error + document) \<times> database" where
  "DeleteDocument p i userID db =
     auto_commit (\<lambda>db. no_rows_not_found ''delete document'' (exec p S_DeleteDocument
       (uuid_arg p i (\<lambda>i. uuid_arg p userID (\<lambda>u.
          and_then (query_row (filter (\<lambda>d. doc_ID d = i \<and> doc_UserID d = u) (documents db))) (\<lambda>d.
            Inr (d, delete_document i db))))))) db"

definition stuck_message :: string where
  "stuck_message = ''processing timeout: worker did not complete in time''"

definition stuck :: "time \<Rightarrow> document \<Rightarrow> bool" where
  "stuck cutoff d \<longleftrightarrow> Status d = StatusProcessing \<and> doc_CreatedAt d < cutoff"

definition FailStuckDocuments :: "pg \<Rightarrow> time \<Rightarrow> database \<Rightarrow> (go_error + nat) \<times> database" where
  "FailStuckDocuments p cutoff db =
     auto_commit (\<lambda>db. wrapf ''fail stuck documents'' (exec p S_FailStuck
       (Inr (length (filter (stuck cutoff) (documents db)),
             db\<lparr>documents := sql_update (stuck cutoff)
                  (\<lambda>d. d\<lparr>Status := StatusFailed, ErrorMessage := Some stuck_message, UpdatedAt := now p\<rparr>)
                  (documents db)\<rparr>)))) db"

section \<open>Pages\<close>

text \<open>\<open>INSERT ... ON CONFLICT (document_id, page_number) DO UPDATE ... RETURNING\<close>.\<close>

definition page_at :: "uuid \<Rightarrow> int \<Rightarrow> document_page \<Rightarrow> bool" where
  "page_at i n pg \<longleftrightarrow> page_DocumentID pg = i \<and> PageNumber pg = n"

definition set_page :: "string \<Rightarrow> int \<Rightarrow> document_page \<Rightarrow> document_page" where
  "set_page path sz pg = pg\<lparr>MinioPath := path, page_SizeBytes := sz\<rparr>"

definition upsert_page ::
  "pg \<Rightarrow> uuid \<Rightarrow> int \<Rightarrow> string \<Rightarrow> int \<Rightarrow> database \<Rightarrow> go_error + document_page \<times> database" where
  "upsert_page p i n path sz db =
     (if \<not> int4_ok n then Inl (pg_error p OutOfRange)
      else case filter (page_at i n) (document_pages db) of
        pg # _ \<Rightarrow>
          Inr (set_page path sz pg,
               db\<lparr>document_pages := sql_update (page_at i n) (set_page path sz) (document_pages db)\<rparr>)
      | [] \<Rightarrow>
          if i \<notin> set (map doc_ID (documents db)) then Inl (pg_error p ForeignKeyViolation)
          else if gen_uuid p \<in> set (map page_ID (document_pages db)) then Inl (pg_error p UniqueViolation)
          else let pg = \<lparr>page_ID = gen_uuid p, page_DocumentID = i, PageNumber = n,
                        MinioPath = path, page_SizeBytes = sz\<rparr>
               in Inr (pg, db\<lparr>document_pages := document_pages db @ [pg]\<rparr>))"

definition SavePage ::
  "pg \<Rightarrow> string \<Rightarrow> int \<Rightarrow> string \<Rightarrow> int \<Rightarrow> database \<Rightarrow> (go_error + document_page) \<times> database" where
  "SavePage p docID pageNumber minioPath sizeBytes db =
     auto_commit (\<lambda>db. wrapf ''save page'' (exec p S_SavePage (uuid_arg p docID (\<lambda>i.
       upsert_page p i pageNumber minioPath sizeBytes db)))) db"

definition GetPage :: "pg \<Rightarrow> string \<Rightarrow> int \<Rightarrow> database \<Rightarrow> go_error + document_page" where
  "GetPage p docID pageNumber db =
     no_rows_not_found ''get page'' (exec p S_GetPage (uuid_arg p docID (\<lambda>i.
       if int4_ok pageNumber
       then query_row (filter (page_at i pageNumber) (document_pages db))
       else Inl (pg_error p OutOfRange))))"

definition GetPageRange :: "pg \<Rightarrow> string \<Rightarrow> int \<Rightarrow> int \<Rightarrow> database \<Rightarrow> go_error + document_page list" where
  "GetPageRange p docID p_start p_end db =
     wrapf ''get page range'' (exec p S_GetPageRange (uuid_arg p docID (\<lambda>i.
       if int4_ok p_start \<and> int4_ok p_end
       then Inr (order_asc PageNumber (filter (\<lambda>pg. page_DocumentID pg = i \<and>
                   p_start \<le> PageNumber pg \<and> PageNumber pg \<le> p_end) (document_pages db)))
       else Inl (pg_error p OutOfRange))))"

definition ListPages :: "pg \<Rightarrow> string \<Rightarrow> database \<Rightarrow> go_error + document_page list" where
  "ListPages p docID db =
     wrapf ''list pages'' (exec p S_ListPages (uuid_arg p docID (\<lambda>i.
       Inr (order_asc PageNumber (filter (\<lambda>pg. page_DocumentID pg = i) (document_pages db))))))"

section \<open>Webhooks\<close>

definition CreateWebhook ::
  "pg \<Rightarrow> string \<Rightarrow> string \<Rightarrow> string \<Rightarrow> string \<Rightarrow> database \<Rightarrow> (go_error + webhook_subscription) \<times> database" where
  "CreateWebhook p userID docID url secret db =
     auto_commit (\<lambda>db. wrapf ''create webhook'' (exec p S_CreateWebhook
       (uuid_arg p userID (\<lambda>u. uuid_arg p docID (\<lambda>i.
          if gen_uuid p \<in> set (map hook_ID (webhook_subscriptions db)) then Inl (pg_error p UniqueViolation)
          else if u \<notin> set (map user_ID (users db)) \<or> i \<notin> set (map doc_ID (documents db))
          then Inl (pg_error p ForeignKeyViolation)
          else let w = \<lparr>hook_ID = gen_uuid p, hook_UserID = u, hook_DocumentID = i, hook_URL = url,
                        hook_Secret = secret, hook_CreatedAt = now p\<rparr>
               in Inr (w, db\<lparr>webhook_subscriptions := webhook_subscriptions db @ [w]\<rparr>)))))) db"

definition GetWebhooksForDocument :: "pg \<Rightarrow> string \<Rightarrow> database \<Rightarrow> go_error + webhook_subscription list" where
  "GetWebhooksForDocument p docID db =
     wrapf ''get webhooks'' (exec p S_GetWebhooks (uuid_arg p docID (\<lambda>i.
       Inr (filter (\<lambda>w. hook_DocumentID w = i) (webhook_subscriptions db)))))"

section \<open>Effects\<close>

text \<open>A failed operation leaves no trace.\<close>

lemma document_errors:
  "CreateDocument p u n m h sz db = (Inl e, db') \<Longrightarrow> db' = db"
  "MarkReady p i t db = (Inl e, db') \<Longrightarrow> db' = db"
  "MarkFailed p i s db = (Inl e, db') \<Longrightarrow> db' = db"
  "UpdateOriginalPath p i s db = (Inl e, db') \<Longrightarrow> db' = db"
  "DeleteDocument p i u db = (Inl e, db') \<Longrightarrow> db' = db"
  "FailStuckDocuments p t db = (Inl e, db') \<Longrightarrow> db' = db"
  "SavePage p i k s sz db = (Inl e, db') \<Longrightarrow> db' = db"
  "CreateWebhook p u i url s db = (Inl e, db') \<Longrightarrow> db' = db"
  unfolding CreateDocument_def MarkReady_def MarkFailed_def UpdateOriginalPath_def DeleteDocument_def
    FailStuckDocuments_def SavePage_def CreateWebhook_def
  by (blast intro: in_tx_error auto_commit_error)+

lemma CreateDocument_Inr:
  assumes "CreateDocument p userID name path h sz db = (Inr d, db')"
  obtains u where "uuid_in p userID = Some u" and "u \<in> user_ID ` set (users db)"
    and "gen_uuid p \<notin> doc_ID ` set (documents db)"
    and "\<And>x. x \<in> set (users db) \<Longrightarrow> user_ID x = u \<Longrightarrow> int8_ok (StorageBytesUsed x + sz)"
    and "d = \<lparr>doc_ID = gen_uuid p, doc_UserID = u, Filename = name, OriginalMinioPath = path,
              doc_SHA256 = h, Status = StatusProcessing, TotalPages = None, ErrorMessage = None,
              doc_SizeBytes = sz, doc_CreatedAt = now p, UpdatedAt = now p\<rparr>"
    and "db' = db\<lparr>users := sql_update (\<lambda>x. user_ID x = u)
                   (\<lambda>x. x\<lparr>StorageBytesUsed := StorageBytesUsed x + sz\<rparr>) (users db),
                  documents := documents db @ [d]\<rparr>"
  using assms
  by (auto simp: CreateDocument_def in_tx_success create_document_tx_def insert_document_def Let_def
      update_usage_Inr split: if_splits)

lemma MarkReady_Inr:
  "MarkReady p docID n db = (Inr x, db') \<longleftrightarrow>
     \<not> fault p S_MarkReady \<and> int4_ok n \<and> (\<exists>i. uuid_in p docID = Some i \<and>
       db' = update_document i (\<lambda>d. d\<lparr>Status := StatusReady, TotalPages := Some n, UpdatedAt := now p\<rparr>) db)"
  by (auto simp: MarkReady_def auto_commit_success split: if_splits)

lemma MarkFailed_Inr:
  "MarkFailed p docID msg db = (Inr x, db') \<longleftrightarrow>
     \<not> fault p S_MarkFailed \<and> (\<exists>i. uuid_in p docID = Some i \<and>
       db' = update_document i (\<lambda>d. d\<lparr>Status := StatusFailed, ErrorMessage := Some msg, UpdatedAt := now p\<rparr>) db)"
  by (auto simp: MarkFailed_def auto_commit_success)

lemma UpdateOriginalPath_Inr:
  "UpdateOriginalPath p docID path db = (Inr x, db') \<longleftrightarrow>
     \<not> fault p S_UpdatePath \<and> (\<exists>i. uuid_in p docID = Some i \<and>
       db' = update_document i (\<lambda>d. d\<lparr>OriginalMinioPath := path, UpdatedAt := now p\<rparr>) db)"
  by (auto simp: UpdateOriginalPath_def auto_commit_success)

lemma DeleteDocument_Inr:
  "DeleteDocument p i userID db = (Inr d, db') \<Longrightarrow>
     uuid_in p i = Some (doc_ID d) \<and> uuid_in p userID = Some (doc_UserID d) \<and> d \<in> set (documents db) \<and>
     db' = delete_document (doc_ID d) db"
  by (auto simp: DeleteDocument_def auto_commit_success dest!: filter_hdD)

lemma FailStuckDocuments_Inr:
  "FailStuckDocuments p cutoff db = (Inr n, db') \<longleftrightarrow>
     \<not> fault p S_FailStuck \<and> n = length (filter (stuck cutoff) (documents db)) \<and>
     db' = db\<lparr>documents := sql_update (stuck cutoff)
        (\<lambda>d. d\<lparr>Status := StatusFailed, ErrorMessage := Some stuck_message, UpdatedAt := now p\<rparr>) (documents db)\<rparr>"
  by (auto simp: FailStuckDocuments_def auto_commit_success)

text \<open>A saved page replaces the row of its number or is a new one.\<close>

lemma page_sel [simp]:
  "page_ID (set_page path sz pg) = page_ID pg" "page_DocumentID (set_page path sz pg) = page_DocumentID pg"
  "PageNumber (set_page path sz pg) = PageNumber pg" "MinioPath (set_page path sz pg) = path"
  "page_SizeBytes (set_page path sz pg) = sz" "page_at i n (set_page path sz pg) = page_at i n pg"
  by (simp_all add: set_page_def page_at_def)

lemma upsert_page_Inr:
  assumes "upsert_page p i n path sz db = Inr (pg, db')"
  shows "int4_ok n \<and> page_at i n pg \<and> MinioPath pg = path \<and> page_SizeBytes pg = sz \<and>
    ((\<exists>pg0 \<in> set (document_pages db). page_at i n pg0) \<and>
       db' = db\<lparr>document_pages := sql_update (page_at i n) (set_page path sz) (document_pages db)\<rparr> \<or>
     (\<forall>pg0 \<in> set (document_pages db). \<not> page_at i n pg0) \<and> i \<in> doc_ID ` set (documents db) \<and>
       page_ID pg \<notin> page_ID ` set (document_pages db) \<and>
       db' = db\<lparr>document_pages := document_pages db @ [pg]\<rparr>)"
proof (cases "filter (page_at i n) (document_pages db)")
  case Nil
  with assms show ?thesis
    by (auto simp: upsert_page_def Let_def page_at_def filter_empty_conv split: if_splits)
next
  case (Cons pg0 rest)
  with assms filter_hdD[OF Cons] show ?thesis by (auto simp: upsert_page_def split: if_splits)
qed

lemma SavePage_Inr:
  "SavePage p docID n path sz db = (Inr pg, db') \<longleftrightarrow>
     \<not> fault p S_SavePage \<and> (\<exists>i. uuid_in p docID = Some i \<and> upsert_page p i n path sz db = Inr (pg, db'))"
  by (simp add: SavePage_def auto_commit_success)

lemma CreateWebhook_Inr:
  assumes "CreateWebhook p userID docID url secret db = (Inr w, db')"
  obtains u i where "uuid_in p userID = Some u" and "uuid_in p docID = Some i"
    and "u \<in> user_ID ` set (users db)" and "i \<in> doc_ID ` set (documents db)"
    and "gen_uuid p \<notin> hook_ID ` set (webhook_subscriptions db)"
    and "w = \<lparr>hook_ID = gen_uuid p, hook_UserID = u, hook_DocumentID = i, hook_URL = url,
              hook_Secret = secret, hook_CreatedAt = now p\<rparr>"
    and "db' = db\<lparr>webhook_subscriptions := webhook_subscriptions db @ [w]\<rparr>"
  using assms by (auto simp: CreateWebhook_def auto_commit_success Let_def split: if_splits)

lemma GetDocument_Inr:
  "GetDocument p i userID db = Inr d \<Longrightarrow>
     uuid_in p i = Some (doc_ID d) \<and> uuid_in p userID = Some (doc_UserID d) \<and> d \<in> set (documents db)"
  by (auto simp: GetDocument_def dest!: filter_hdD)

lemma GetDocumentByID_Inr:
  "GetDocumentByID p i db = Inr d \<Longrightarrow> uuid_in p i = Some (doc_ID d) \<and> d \<in> set (documents db)"
  by (auto simp: GetDocumentByID_def dest!: filter_hdD)

end
