(* ===== verification/DocumentProps.thy ===== *)
theory DocumentProps
  imports DocumentStore MetadataClaims ApiKeyStore
begin

text \<open>
  The invariant of the whole database under every operation that the program performs on
  it, on users, files, documents, pages, webhooks and API keys: the step relation
  \<open>store_step\<close> and the proof that each step keeps \<open>store_inv\<close>.
\<close>

section \<open>The invariant\<close>

text \<open>What a document's status says of its other columns.\<close>

definition lifecycle :: "document \<Rightarrow> bool" where
  "lifecycle d \<longleftrightarrow>
     (case Status d of
        StatusProcessing \<Rightarrow> TotalPages d = None \<and> ErrorMessage d = None
      | StatusReady \<Rightarrow> TotalPages d \<noteq> None
      | StatusFailed \<Rightarrow> ErrorMessage d \<noteq> None)"

text \<open>The recorded usage of a user covers what the user stores.\<close>

definition usage_covers :: "database \<Rightarrow> bool" where
  "usage_covers db \<longleftrightarrow>
     (\<forall>x \<in> set (users db). live_bytes db (user_ID x) + doc_bytes db (user_ID x) \<le> StorageBytesUsed x)"

definition core_inv :: "database \<Rightarrow> bool" where
  "core_inv db \<longleftrightarrow> db_constraints db \<and> sizes_ok db \<and> usage_covers db \<and> (\<forall>d \<in> set (documents db). lifecycle d)"

text \<open>With one object per content.\<close>

definition store_inv :: "database \<Rightarrow> bool" where
  "store_inv db \<longleftrightarrow> db_constraints db \<and> sizes_ok db \<and> one_object db \<and> usage_covers db \<and>
     (\<forall>d \<in> set (documents db). lifecycle d)"

lemma store_inv_core: "store_inv db \<longleftrightarrow> core_inv db \<and> one_object db"
  by (auto simp: store_inv_def core_inv_def)

lemma one_object_files: "files db' = files db \<Longrightarrow> one_object db' = one_object db"
  by (simp add: one_object_def live_def)

text \<open>Every operation on the database, on any server and with any failure.\<close>

inductive store_step :: "database \<Rightarrow> database \<Rightarrow> bool" where
  meta: "meta_step db db' \<Longrightarrow> store_step db db'"
| create: "0 \<le> sz \<Longrightarrow> CreateDocument p u name path h sz db = (r_doc, db') \<Longrightarrow> store_step db db'"
| ready: "MarkReady p i n db = (r_unit, db') \<Longrightarrow> store_step db db'"
| failed: "MarkFailed p i msg db = (r_unit, db') \<Longrightarrow> store_step db db'"
| path: "UpdateOriginalPath p i path db = (r_unit, db') \<Longrightarrow> store_step db db'"
| remove: "DeleteDocument p i u db = (r_doc, db') \<Longrightarrow> store_step db db'"
| stuck: "FailStuckDocuments p t db = (r_nat, db') \<Longrightarrow> store_step db db'"
| page: "SavePage p i n path sz db = (r_page, db') \<Longrightarrow> store_step db db'"
| hook: "CreateWebhook p u i url secret db = (r_hook, db') \<Longrightarrow> store_step db db'"
| key: "key_Create p rand u name e db = (r_key, db') \<Longrightarrow> store_step db db'"
| revoke: "key_Delete p i u db = (r_unit, db') \<Longrightarrow> store_step db db'"
| touch: "touch_key p i db = Inr db' \<Longrightarrow> store_step db db'"

inductive store_reachable :: "database \<Rightarrow> bool" where
  start: "store_reachable empty_db"
| step: "store_reachable db \<Longrightarrow> store_step db db' \<Longrightarrow> store_reachable db'"

lemma store_inv_empty: "store_inv empty_db"
  by (simp add: store_inv_def db_constraints_def sizes_ok_def one_object_def usage_covers_def empty_db_def live_def)

section \<open>Users and files\<close>

text \<open>It is enough that no user's stored bytes grow by more than the recorded usage.\<close>

lemma usage_covers_grow:
  assumes "usage_covers db" and users: "users db' = map g (users db)"
    and grow: "\<And>x. x \<in> set (users db) \<Longrightarrow> user_ID (g x) = user_ID x \<and>
      live_bytes db' (user_ID x) + doc_bytes db' (user_ID x) + StorageBytesUsed x
        \<le> live_bytes db (user_ID x) + doc_bytes db (user_ID x) + StorageBytesUsed (g x)"
  shows "usage_covers db'"
  unfolding usage_covers_def users
proof (clarsimp)
  fix x assume x: "x \<in> set (users db)"
  with assms(1) have "live_bytes db (user_ID x) + doc_bytes db (user_ID x) \<le> StorageBytesUsed x"
    by (simp add: usage_covers_def)
  with grow[OF x] show "live_bytes db' (user_ID (g x)) + doc_bytes db' (user_ID (g x)) \<le> StorageBytesUsed (g x)"
    by simp
qed

lemma usage_covers_after_save:
  assumes "usage_covers db" and "active f"
  shows "usage_covers (after_save found f db)"
proof (rule usage_covers_grow[OF assms(1)])
  show "users (after_save found f db) = map (\<lambda>x. if user_ID x = file_UserID f
      then x\<lparr>StorageBytesUsed := StorageBytesUsed x + Size f\<rparr> else x) (users db)"
    by (simp add: charge_def sql_update_def)
qed (simp add: live_bytes_after_save assms(2))

lemma usage_covers_after_delete:
  assumes "usage_covers db" and "distinct (map file_ID (files db))" and "f \<in> set (files db)" and "active f"
  shows "usage_covers (after_delete t f c db)"
proof (rule usage_covers_grow[OF assms(1)])
  show "users (after_delete t f c db) = map (\<lambda>x. if user_ID x = file_UserID f
      then x\<lparr>StorageBytesUsed := max 0 (StorageBytesUsed x - Size f)\<rparr> else x) (users db)"
    by (simp add: refund_def sql_update_def)
qed (simp add: live_bytes_after_delete[OF assms(2-4)])

lemma core_inv_create_user:
  assumes inv: "core_inv db" and run: "CreateUser p email pw q db = (r, db')"
  shows "core_inv db'"
proof (cases r)
  case (Inl e)
  with run inv show ?thesis using CreateUser_error by blast
next
  case (Inr u)
  with run have fresh: "gen_uuid p \<notin> user_ID ` set (users db)" "email \<notin> Email ` set (users db)"
    and u: "user_ID u = gen_uuid p" "Email u = email" "StorageBytesUsed u = 0"
    and db': "db' = db\<lparr>users := users db @ [u]\<rparr>"
    by (simp_all add: CreateUser_Inr)
  have c: "db_constraints db" using inv by (simp add: core_inv_def)
  have "\<forall>f \<in> set (files db). file_UserID f \<noteq> gen_uuid p"
    and "\<forall>d \<in> set (documents db). doc_UserID d \<noteq> gen_uuid p"
    using constraints_fk[OF c] fresh(1) by metis+
  then have "live_bytes db (gen_uuid p) = 0" and "doc_bytes db (gen_uuid p) = 0"
    by (simp_all add: live_bytes_def doc_bytes_def sum_list_0 cong: map_cong)
  then have "usage_covers db'"
    using inv u by (auto simp: core_inv_def usage_covers_def db' live_bytes_def doc_bytes_def)
  moreover have "db_constraints db'"
    using c fresh u by (auto simp: db_constraints_def db')
  ultimately show ?thesis
    using inv by (auto simp: core_inv_def sizes_ok_def db')
qed

lemma store_inv_save:
  assumes inv: "store_inv db" and sz: "0 \<le> sz" and run: "Save p userID key h ct nm sz db = (r, db')"
  shows "store_inv db'"
proof (cases r)
  case (Inl e)
  with run inv show ?thesis using Save_error by blast
next
  case (Inr res)
  with run have "Save p userID key h ct nm sz db = (Inr res, db')" by simp
  then obtain u x where u: "x \<in> set (users db)" "user_ID x = u"
    and fresh: "gen_uuid p \<notin> file_ID ` set (files db)"
    and f: "File res = new_row p u
           (case limit1 (scan p S_SaveFindCanonical) (live db h) of None \<Rightarrow> key | Some c \<Rightarrow> ObjectKey c)
           h ct nm sz"
    and db': "db' = after_save (limit1 (scan p S_SaveFindCanonical) (live db h)) (File res) db"
    by (rule Save_Inr) blast
  have sel: "file_ID (File res) = gen_uuid p" "file_UserID (File res) = u" "Size (File res) = sz"
    "active (File res)" "SHA256 (File res) = h"
    by (simp_all add: f new_row_def active_def)
  have "db_constraints db'"
    unfolding db' using inv fresh u sel by (intro constraints_after_save) (auto simp: store_inv_def)
  moreover have "one_object db'"
    unfolding db' using inv sel by (rule_tac n = "scan p S_SaveFindCanonical" in one_object_after_save)
      (simp_all add: f new_row_def store_inv_def)
  ultimately show ?thesis
    using inv sz sel by (simp add: store_inv_def db' sizes_after_save usage_covers_after_save)
qed

lemma store_inv_delete:
  assumes inv: "store_inv db" and run: "Delete p fileID userID db = (r, db')"
  shows "store_inv db'"
proof (cases r)
  case (Inl e)
  with run inv show ?thesis using Delete_error by blast
next
  case (Inr res)
  with run have "Delete p fileID userID db = (Inr res, db')" by simp
  then obtain f c where f: "f \<in> set (files db)" "active f"
    and db': "db' = after_delete (clock p) f c db"
    by (rule Delete_Inr) blast
  from inv have c: "db_constraints db" by (simp add: store_inv_def)
  show ?thesis
    using inv usage_covers_after_delete[OF _ constraints_file_ids[OF c] f]
    by (simp add: store_inv_def db' constraints_after_delete sizes_after_delete one_object_after_delete)
qed

lemma CreateUser_files: "CreateUser p email pw q db = (r, db') \<Longrightarrow> files db' = files db"
  by (cases r) (auto simp: CreateUser_Inr dest: CreateUser_error)

lemma store_inv_meta: "meta_step db db' \<Longrightarrow> store_inv db \<Longrightarrow> store_inv db'"
proof (induction rule: meta_step.induct)
  case (create q p email pw db r db')
  with core_inv_create_user one_object_files[OF CreateUser_files] show ?case by (metis store_inv_core)
qed (blast intro: store_inv_save store_inv_delete)+

section \<open>Documents, pages and webhooks\<close>

lemma live_frame [simp]:
  "live (db\<lparr>documents := ds\<rparr>) h = live db h" "live (db\<lparr>document_pages := ps\<rparr>) h = live db h"
  "live (db\<lparr>webhook_subscriptions := ws\<rparr>) h = live db h" "live (db\<lparr>api_keys := ks\<rparr>) h = live db h"
  "live (db\<lparr>users := us\<rparr>) h = live db h"
  by (simp_all add: live_def)

lemma bytes_frame [simp]:
  "live_bytes (db\<lparr>documents := ds\<rparr>) u = live_bytes db u"
  "live_bytes (db\<lparr>document_pages := ps\<rparr>) u = live_bytes db u"
  "live_bytes (db\<lparr>webhook_subscriptions := ws\<rparr>) u = live_bytes db u"
  "live_bytes (db\<lparr>api_keys := ks\<rparr>) u = live_bytes db u"
  "live_bytes (db\<lparr>users := us\<rparr>) u = live_bytes db u"
  "doc_bytes (db\<lparr>document_pages := ps\<rparr>) u = doc_bytes db u"
  "doc_bytes (db\<lparr>webhook_subscriptions := ws\<rparr>) u = doc_bytes db u"
  "doc_bytes (db\<lparr>api_keys := ks\<rparr>) u = doc_bytes db u"
  "doc_bytes (db\<lparr>users := us\<rparr>) u = doc_bytes db u"
  by (simp_all add: live_bytes_def doc_bytes_def)

lemma in_update_document:
  "d \<in> set (documents db) \<Longrightarrow> f d \<in> set (documents (update_document (doc_ID d) f db))"
  by (auto simp: update_document_def in_set_sql_update intro: bexI[of _ d])

lemma constraints_update_documents:
  assumes "db_constraints db" and "\<And>d. doc_ID (f d) = doc_ID d \<and> doc_UserID (f d) = doc_UserID d"
  shows "db_constraints (db\<lparr>documents := sql_update P f (documents db)\<rparr>)"
proof -
  have ids: "map doc_ID (sql_update P f (documents db)) = map doc_ID (documents db)"
    by (simp add: map_sql_update assms(2))
  then have "doc_ID ` set (sql_update P f (documents db)) = doc_ID ` set (documents db)" by (metis set_map)
  with assms ids show ?thesis by (auto simp: db_constraints_def in_set_sql_update)
qed

lemma constraints_add_document:
  assumes "db_constraints db" and "doc_UserID d \<in> user_ID ` set (users db)" and "doc_ID d \<notin> doc_ID ` set (documents db)"
  shows "db_constraints (db\<lparr>users := charge u sz (users db), documents := documents db @ [d]\<rparr>)"
  using assms by (auto simp: db_constraints_def)

lemma constraints_create_document:
  assumes "db_constraints db" and "CreateDocument p userID name path h sz db = (Inr d, db')"
  shows "db_constraints db'"
proof -
  from assms(2) obtain u where u: "u \<in> user_ID ` set (users db)"
    and fresh: "gen_uuid p \<notin> doc_ID ` set (documents db)"
    and d: "doc_ID d = gen_uuid p" "doc_UserID d = u"
    and db': "db' = db\<lparr>users := charge u sz (users db), documents := documents db @ [d]\<rparr>"
    unfolding charge_def by (rule CreateDocument_Inr) (fastforce intro: that)
  show ?thesis unfolding db' by (rule constraints_add_document) (use assms(1) u fresh d in simp_all)
qed

lemma CreateDocument_files: "CreateDocument p userID nm path h sz db = (r, db') \<Longrightarrow> files db' = files db"
  by (cases r) (auto dest: document_errors elim!: CreateDocument_Inr)

text \<open>An update of documents that touches neither identity nor size.\<close>

lemma core_inv_update_documents:
  assumes inv: "core_inv db"
    and frame: "\<And>d. doc_ID (f d) = doc_ID d \<and> doc_UserID (f d) = doc_UserID d \<and> doc_SizeBytes (f d) = doc_SizeBytes d"
    and life: "\<And>d. lifecycle d \<Longrightarrow> lifecycle (f d)"
  shows "core_inv (db\<lparr>documents := sql_update P f (documents db)\<rparr>)"
proof -
  let ?ds = "sql_update P f (documents db)"
  have "(\<Sum>d\<leftarrow>?ds. if doc_UserID d = u then doc_SizeBytes d else 0) =
      (\<Sum>d\<leftarrow>documents db. if doc_UserID d = u then doc_SizeBytes d else 0)" for u
    by (rule arg_cong[where f = sum_list], rule map_sql_update) (simp add: frame)
  moreover have "db_constraints (db\<lparr>documents := ?ds\<rparr>)"
    using inv frame by (intro constraints_update_documents) (auto simp: core_inv_def)
  ultimately show ?thesis
    using inv life by (auto simp: core_inv_def sizes_ok_def usage_covers_def doc_bytes_def
        in_set_sql_update frame)
qed

lemma core_inv_create_document:
  assumes inv: "core_inv db" and sz: "0 \<le> sz" and run: "CreateDocument p userID name path h sz db = (r, db')"
  shows "core_inv db'"
proof (cases r)
  case (Inl e)
  with run inv document_errors(1) show ?thesis by blast
next
  case (Inr d)
  with run have run: "CreateDocument p userID name path h sz db = (Inr d, db')" by simp
  then obtain u where d: "d = \<lparr>doc_ID = gen_uuid p, doc_UserID = u, Filename = name, OriginalMinioPath = path,
              doc_SHA256 = h, Status = StatusProcessing, TotalPages = None, ErrorMessage = None,
              doc_SizeBytes = sz, doc_CreatedAt = now p, UpdatedAt = now p\<rparr>"
    and db': "db' = db\<lparr>users := charge u sz (users db), documents := documents db @ [d]\<rparr>"
    unfolding charge_def by (rule CreateDocument_Inr) blast
  have "db_constraints db'"
    using inv constraints_create_document[OF _ run] by (simp add: core_inv_def)
  moreover have "usage_covers db'"
  proof (rule usage_covers_grow)
    show "usage_covers db" using inv by (simp add: core_inv_def)
    show "users db' = map (\<lambda>x. if user_ID x = u
        then x\<lparr>StorageBytesUsed := StorageBytesUsed x + sz\<rparr> else x) (users db)"
      by (simp add: db' charge_def sql_update_def)
  qed (simp add: db' d doc_bytes_def live_bytes_def)
  ultimately show ?thesis
    using inv sz by (auto simp: core_inv_def sizes_ok_def live_def db' d lifecycle_def)
qed

lemma constraints_fewer:
  assumes "db_constraints db" and "distinct (map page_ID ps)"
    and "distinct (map (\<lambda>p. (page_DocumentID p, PageNumber p)) ps)"
    and "distinct (map hook_ID ws)" and "distinct (map doc_ID ds)" and "set ds \<subseteq> set (documents db)"
    and "\<forall>p \<in> set ps. page_DocumentID p \<in> doc_ID ` set ds"
    and "\<forall>h \<in> set ws. hook_UserID h \<in> user_ID ` set (users db) \<and> hook_DocumentID h \<in> doc_ID ` set ds"
  shows "db_constraints (db\<lparr>documents := ds, document_pages := ps, webhook_subscriptions := ws\<rparr>)"
  using assms by (auto simp: db_constraints_def)

lemma doc_bytes_delete_le:
  assumes "sizes_ok db"
  shows "(\<Sum>d\<leftarrow>sql_delete P (documents db). if doc_UserID d = u then doc_SizeBytes d else 0) \<le> doc_bytes db u"
proof -
  have "(\<Sum>d\<leftarrow>filter (\<lambda>d. \<not> P d) ds. if doc_UserID d = u then doc_SizeBytes d else 0)
      \<le> (\<Sum>d\<leftarrow>ds. if doc_UserID d = u then doc_SizeBytes d else 0)"
    if "\<forall>d \<in> set ds. 0 \<le> doc_SizeBytes d" for ds
    using that by (induction ds) auto
  with assms show ?thesis by (simp add: doc_bytes_def sql_delete_def sizes_ok_def)
qed

lemma core_inv_delete_document:
  assumes inv: "core_inv db"
  shows "core_inv (delete_document i db)"
proof -
  have "db_constraints (delete_document i db)"
    unfolding delete_document_def using inv
    by (intro constraints_fewer) (auto simp: core_inv_def db_constraints_def distinct_map_sql_delete)
  moreover have "usage_covers (delete_document i db)"
  proof (rule usage_covers_grow)
    show "usage_covers db" using inv by (simp add: core_inv_def)
    show "users (delete_document i db) = map (\<lambda>x. x) (users db)" by (simp add: delete_document_def)
  qed (use inv doc_bytes_delete_le[of db] in \<open>simp add: delete_document_def core_inv_def doc_bytes_def live_bytes_def\<close>)
  ultimately show ?thesis
    using inv by (auto simp: core_inv_def sizes_ok_def live_def delete_document_def)
qed

lemma core_inv_pages:
  assumes inv: "core_inv db" and "distinct (map page_ID ps)"
    and "distinct (map (\<lambda>p. (page_DocumentID p, PageNumber p)) ps)"
    and "\<forall>p \<in> set ps. page_DocumentID p \<in> doc_ID ` set (documents db)"
  shows "core_inv (db\<lparr>document_pages := ps\<rparr>)"
  using assms by (simp add: core_inv_def db_constraints_def sizes_ok_def usage_covers_def)

lemma core_inv_save_page:
  assumes inv: "core_inv db" and run: "upsert_page p i n path sz db = Inr (pg, db')"
  shows "core_inv db'"
proof -
  have c: "distinct (map page_ID (document_pages db))"
    "distinct (map (\<lambda>p. (page_DocumentID p, PageNumber p)) (document_pages db))"
    "\<forall>p \<in> set (document_pages db). page_DocumentID p \<in> doc_ID ` set (documents db)"
    using inv by (simp_all add: core_inv_def db_constraints_def)
  from upsert_page_Inr[OF run] show ?thesis
  proof (elim conjE disjE)
    assume "db' = db\<lparr>document_pages := sql_update (page_at i n) (set_page path sz) (document_pages db)\<rparr>"
    with c show ?thesis
      by (auto intro!: core_inv_pages[OF inv] simp: map_sql_update in_set_sql_update)
  next
    assume "\<forall>pg0 \<in> set (document_pages db). \<not> page_at i n pg0" "page_at i n pg"
      "i \<in> doc_ID ` set (documents db)" "page_ID pg \<notin> page_ID ` set (document_pages db)"
      "db' = db\<lparr>document_pages := document_pages db @ [pg]\<rparr>"
    with c show ?thesis by (fastforce intro!: core_inv_pages[OF inv] simp: page_at_def)
  qed
qed

lemma core_inv_webhook:
  assumes inv: "core_inv db" and run: "CreateWebhook p userID docID url secret db = (Inr w, db')"
  shows "core_inv db'"
proof -
  from CreateWebhook_Inr[OF run] inv show ?thesis
    by (cases rule: CreateWebhook_Inr[OF run])
       (auto simp: core_inv_def db_constraints_def sizes_ok_def usage_covers_def)
qed

section \<open>API keys\<close>

lemma key_rows_only:
  "key_Create p rand u name e db = (r, db') \<Longrightarrow> \<exists>ks. db' = db\<lparr>api_keys := ks\<rparr>"
  "key_Delete p i u db = (r', db') \<Longrightarrow> \<exists>ks. db' = db\<lparr>api_keys := ks\<rparr>"
proof -
  have same: "\<exists>ks. db = db\<lparr>api_keys := ks\<rparr>" by (rule exI[of _ "api_keys db"]) simp
  show "key_Create p rand u name e db = (r, db') \<Longrightarrow> \<exists>ks. db' = db\<lparr>api_keys := ks\<rparr>"
    by (cases r) (use same in \<open>auto dest: key_Create_error elim: key_Create_Inr\<close>)
  show "key_Delete p i u db = (r', db') \<Longrightarrow> \<exists>ks. db' = db\<lparr>api_keys := ks\<rparr>"
    by (cases r') (use same in \<open>auto dest: key_Delete_error simp: key_Delete_Inr\<close>)
qed

lemma core_inv_keys:
  assumes "core_inv db" and "db_constraints (db\<lparr>api_keys := ks\<rparr>)"
  shows "core_inv (db\<lparr>api_keys := ks\<rparr>)"
  using assms by (auto simp: core_inv_def sizes_ok_def usage_covers_def)

lemma core_inv_key_ops:
  assumes inv: "core_inv db"
  shows "key_Create p rand u name e db = (r, db') \<Longrightarrow> core_inv db'"
    and "key_Delete p i u db = (r', db') \<Longrightarrow> core_inv db'"
    and "touch_key p i db = Inr db' \<Longrightarrow> core_inv db'"
proof -
  have c: "db_constraints db" using inv by (simp add: core_inv_def)
  show "key_Create p rand u name e db = (r, db') \<Longrightarrow> core_inv db'"
    using constraints_key_Create[OF c] key_rows_only(1) core_inv_keys[OF inv] by metis
  show "key_Delete p i u db = (r', db') \<Longrightarrow> core_inv db'"
    using constraints_key_Delete[OF c] key_rows_only(2) core_inv_keys[OF inv] by metis
  have d: "distinct (map key_ID (api_keys db))" "distinct (map KeyHash (api_keys db))"
    "key_UserID ` set (api_keys db) \<subseteq> user_ID ` set (users db)"
    using c by (auto simp: db_constraints_def)
  show "touch_key p i db = Inr db' \<Longrightarrow> core_inv db'"
    using d by (auto dest!: touch_key_Inr intro!: core_inv_keys[OF inv] constraints_keys_update[OF c]
        simp: map_sql_update in_set_sql_update image_subset_iff)
qed

section \<open>Every step keeps the invariant\<close>

lemma core_inv_doc_ops:
  assumes inv: "core_inv db"
  shows "MarkReady p i n db = (r_unit, db') \<Longrightarrow> core_inv db'"
    and "MarkFailed p i msg db = (r_unit, db') \<Longrightarrow> core_inv db'"
    and "UpdateOriginalPath p i path db = (r_unit, db') \<Longrightarrow> core_inv db'"
    and "FailStuckDocuments p t db = (r_nat, db') \<Longrightarrow> core_inv db'"
    and "DeleteDocument p i u db = (r_doc, db') \<Longrightarrow> core_inv db'"
    and "SavePage p i n path sz db = (r_page, db') \<Longrightarrow> core_inv db'"
    and "CreateWebhook p u i url secret db = (r_hook, db') \<Longrightarrow> core_inv db'"
proof -
  note upd = core_inv_update_documents[OF inv]
  show "MarkReady p i n db = (r_unit, db') \<Longrightarrow> core_inv db'"
    by (cases r_unit) (use inv in \<open>auto dest: document_errors simp: MarkReady_Inr update_document_def
        lifecycle_def intro!: upd split: document_status.splits\<close>)
  show "MarkFailed p i msg db = (r_unit, db') \<Longrightarrow> core_inv db'"
    by (cases r_unit) (use inv in \<open>auto dest: document_errors simp: MarkFailed_Inr update_document_def
        lifecycle_def intro!: upd split: document_status.splits\<close>)
  show "UpdateOriginalPath p i path db = (r_unit, db') \<Longrightarrow> core_inv db'"
    by (cases r_unit) (use inv in \<open>auto dest: document_errors simp: UpdateOriginalPath_Inr update_document_def
        lifecycle_def intro!: upd split: document_status.splits\<close>)
  show "FailStuckDocuments p t db = (r_nat, db') \<Longrightarrow> core_inv db'"
    by (cases r_nat) (use inv in \<open>auto dest: document_errors simp: FailStuckDocuments_Inr
        lifecycle_def intro!: upd split: document_status.splits\<close>)
  show "DeleteDocument p i u db = (r_doc, db') \<Longrightarrow> core_inv db'"
    by (cases r_doc) (use inv in \<open>auto dest: document_errors dest!: DeleteDocument_Inr
        intro: core_inv_delete_document\<close>)
  show "SavePage p i n path sz db = (r_page, db') \<Longrightarrow> core_inv db'"
    by (cases r_page) (use inv in \<open>auto dest: document_errors simp: SavePage_Inr
        intro: core_inv_save_page\<close>)
  show "CreateWebhook p u i url secret db = (r_hook, db') \<Longrightarrow> core_inv db'"
    by (cases r_hook) (use inv core_inv_webhook in \<open>blast dest: document_errors\<close>)+
qed

text \<open>The writes that are a single statement: all but the transactions on files and the creation
  of a document.\<close>

inductive single_step :: "database \<Rightarrow> database \<Rightarrow> bool" where
  user: "0 \<le> q \<Longrightarrow> CreateUser p email pw q db = (r, db') \<Longrightarrow> single_step db db'"
| ready: "MarkReady p i n db = (r_unit, db') \<Longrightarrow> single_step db db'"
| failed: "MarkFailed p i msg db = (r_unit, db') \<Longrightarrow> single_step db db'"
| path: "UpdateOriginalPath p i path db = (r_unit, db') \<Longrightarrow> single_step db db'"
| remove: "DeleteDocument p i u db = (r_doc, db') \<Longrightarrow> single_step db db'"
| stuck: "FailStuckDocuments p t db = (r_nat, db') \<Longrightarrow> single_step db db'"
| page: "SavePage p i n path sz db = (r_page, db') \<Longrightarrow> single_step db db'"
| hook: "CreateWebhook p u i url secret db = (r_hook, db') \<Longrightarrow> single_step db db'"
| key: "key_Create p rand u name e db = (r_key, db') \<Longrightarrow> single_step db db'"
| revoke: "key_Delete p i u db = (r_unit, db') \<Longrightarrow> single_step db db'"
| touch: "touch_key p i db = Inr db' \<Longrightarrow> single_step db db'"

lemma core_inv_single: "single_step db db' \<Longrightarrow> core_inv db \<Longrightarrow> core_inv db'"
  by (induction rule: single_step.induct)
     (blast intro: core_inv_create_user core_inv_doc_ops core_inv_key_ops)+

text \<open>They change no file, add no document, and change a user's row only by adding it.\<close>

definition quiet :: "database \<Rightarrow> database \<Rightarrow> bool" where
  "quiet db db' \<longleftrightarrow> files db' = files db \<and> users db' = users db \<and> doc_ID ` set (documents db') \<subseteq> doc_ID ` set (documents db)"

lemma quiet_refl: "quiet db db"
  by (simp add: quiet_def)

lemma quiet_update: "(\<And>d. doc_ID (f d) = doc_ID d) \<Longrightarrow> quiet db (db\<lparr>documents := sql_update P f (documents db)\<rparr>)"
  by (auto simp: quiet_def in_set_sql_update)

lemma quiet_ops:
  "MarkReady p i n db = (r_unit, db') \<Longrightarrow> quiet db db'"
  "MarkFailed p i msg db = (r_unit, db') \<Longrightarrow> quiet db db'"
  "UpdateOriginalPath p i path db = (r_unit, db') \<Longrightarrow> quiet db db'"
  "FailStuckDocuments p t db = (r_nat, db') \<Longrightarrow> quiet db db'"
  "SavePage p i n path sz db = (r_page, db') \<Longrightarrow> quiet db db'"
  "CreateWebhook p u i url secret db = (r_hook, db') \<Longrightarrow> quiet db db'"
  "DeleteDocument p i u db = (r_doc, db') \<Longrightarrow> quiet db db'"
proof -
  show "MarkReady p i n db = (r_unit, db') \<Longrightarrow> quiet db db'"
    by (cases r_unit) (auto dest: document_errors simp: quiet_refl MarkReady_Inr update_document_def intro!: quiet_update)
  show "MarkFailed p i msg db = (r_unit, db') \<Longrightarrow> quiet db db'"
    by (cases r_unit) (auto dest: document_errors simp: quiet_refl MarkFailed_Inr update_document_def intro!: quiet_update)
  show "UpdateOriginalPath p i path db = (r_unit, db') \<Longrightarrow> quiet db db'"
    by (cases r_unit) (auto dest: document_errors simp: quiet_refl UpdateOriginalPath_Inr update_document_def intro!: quiet_update)
  show "FailStuckDocuments p t db = (r_nat, db') \<Longrightarrow> quiet db db'"
    by (cases r_nat) (auto dest: document_errors simp: quiet_refl FailStuckDocuments_Inr intro!: quiet_update)
  show "SavePage p i n path sz db = (r_page, db') \<Longrightarrow> quiet db db'"
    by (cases r_page) (auto dest: document_errors dest!: upsert_page_Inr simp: quiet_def SavePage_Inr)
  show "CreateWebhook p u i url secret db = (r_hook, db') \<Longrightarrow> quiet db db'"
    by (cases r_hook) (auto dest: document_errors elim!: CreateWebhook_Inr simp: quiet_def)
  show "DeleteDocument p i u db = (r_doc, db') \<Longrightarrow> quiet db db'"
    by (cases r_doc) (auto dest: document_errors dest!: DeleteDocument_Inr simp: quiet_def delete_document_def sql_delete_def)
qed

lemma quiet_keys:
  "key_Create p rand u name e db = (r, db') \<Longrightarrow> quiet db db'"
  "key_Delete p i u db = (r', db') \<Longrightarrow> quiet db db'"
  "touch_key p i db = Inr db' \<Longrightarrow> quiet db db'"
  by (auto dest: key_rows_only dest!: touch_key_Inr simp: quiet_def)

text \<open>Or they add a user.\<close>

definition adds_user :: "database \<Rightarrow> database \<Rightarrow> bool" where
  "adds_user db db' \<longleftrightarrow> (\<exists>u. db' = db\<lparr>users := users db @ [u]\<rparr> \<and> StorageBytesUsed u = 0 \<and> 0 \<le> StorageQuotaBytes u)"

lemma CreateUser_adds:
  "CreateUser p email pw q db = (r, db') \<Longrightarrow> 0 \<le> q \<Longrightarrow> quiet db db' \<or> adds_user db db'"
  by (cases r) (auto simp: CreateUser_Inr adds_user_def quiet_refl dest: CreateUser_error)

lemma single_step_frame: "single_step db db' \<Longrightarrow> quiet db db' \<or> adds_user db db'"
proof (induction rule: single_step.induct)
  case (user q p email pw db r db')
  then show ?case by (intro CreateUser_adds)
qed (rule disjI1, rule quiet_ops quiet_keys, assumption)+

lemma single_step_files: "single_step db db' \<Longrightarrow> files db' = files db"
  using single_step_frame by (fastforce simp: quiet_def adds_user_def)

lemma store_step_cases:
  assumes "store_step db db'"
  obtains (single) "single_step db db'"
  | (save) p userID key h ct nm sz r where "0 \<le> sz" "Save p userID key h ct nm sz db = (r, db')"
  | (delete) p i userID r where "Delete p i userID db = (r, db')"
  | (create) p userID nm path h sz r where "0 \<le> sz" "CreateDocument p userID nm path h sz db = (r, db')"
  using assms
proof cases
  case meta
  then show thesis
  proof cases
    case (create q p email pw r)
    then show thesis by (intro single single_step.user)
  qed (rule save delete, assumption+)+
next
  case (create sz p u name path h r_doc)
  then show thesis by (rule that(4))
qed (rule single, rule single_step.intros, assumption)+

lemma store_inv_step:
  assumes "store_step db db'" and inv: "store_inv db"
  shows "store_inv db'"
  using assms(1)
proof (cases rule: store_step_cases)
  case single
  with inv show ?thesis
    using core_inv_single[OF single] one_object_files[OF single_step_files[OF single]] by (simp add: store_inv_core)
next
  case (create p userID nm path h sz r)
  with inv show ?thesis
    using core_inv_create_document[OF _ create] one_object_files[OF CreateDocument_files[OF create(2)]] by (simp add: store_inv_core)
qed (use inv store_inv_save store_inv_delete in blast)+

lemma store_reachable_inv: "store_reachable db \<Longrightarrow> store_inv db"
  by (induction rule: store_reachable.induct) (blast intro: store_inv_empty store_inv_step)+

end
