(* ===== verification/DocumentClaims.thy ===== *)
theory DocumentClaims
  imports DocumentProps
begin

text \<open>
  The properties of the document store: the invariant of the whole database, what quotas
  do not cover, and the upsert of pages.
\<close>

lemmas document_defs = CreateDocument_def create_document_tx_def insert_document_def in_tx_def exec_def
  update_usage_def uuid_arg_def MarkReady_def MarkFailed_def UpdateOriginalPath_def update_document_def
  DeleteDocument_def delete_document_def SavePage_def upsert_page_def GetPage_def
  no_rows_not_found_def query_row_def

text \<open>In every database that the program's operations can reach, in any order, on any
  server and with any failures, the schema's constraints hold, all active rows of a
  content share one object, no user stores more than the recorded usage, and a
  document's status tells what its other columns hold: a processing one has neither
  pages nor an error, a ready one has its page count, a failed one has its error.\<close>

theorem store_invariant:
  assumes "store_reachable db"
  shows "db_constraints db \<and> one_object db \<and> usage_covers db \<and> (\<forall>d \<in> set (documents db). lifecycle d)"
  using store_reachable_inv[OF assms] by (simp add: store_inv_def)

text \<open>A document with one page and a webhook, marked ready and then, by a late sweep, failed.\<close>

definition demo_doc_run :: database where
  "demo_doc_run =
     snd (MarkFailed (demo_pg ''x'' 6) ''d1'' ''late''
     (snd (MarkReady (demo_pg ''x'' 5) ''d1'' 1
     (snd (CreateWebhook (demo_pg ''w1'' 4) ''u1'' ''d1'' ''http://h'' ''s''
     (snd (SavePage (demo_pg ''p1'' 3) ''d1'' 1 ''documents/d1/pages/1.pdf'' 7
     (snd (CreateDocument (demo_pg ''d1'' 2) ''u1'' ''a.pdf'' '''' ''aa'' 9
     (snd (CreateUser (demo_pg ''u1'' 1) ''a@b.c'' ''h'' 12 empty_db)))))))))))"

lemma demo_doc_run_reachable: "store_reachable demo_doc_run"
  unfolding demo_doc_run_def
  by (intro store_reachable.step[OF _ store_step.failed[OF surjective_pairing]]
      store_reachable.step[OF _ store_step.ready[OF surjective_pairing]]
      store_reachable.step[OF _ store_step.hook[OF surjective_pairing]]
      store_reachable.step[OF _ store_step.page[OF surjective_pairing]]
      store_reachable.step[OF _ store_step.create[OF _ surjective_pairing]]
      store_reachable.step[OF _ store_step.meta[OF meta_step.create[OF _ surjective_pairing]]]
      store_reachable.start) simp_all

theorem store_invariant_witness:
  "map Status (documents demo_doc_run) = [StatusFailed] \<and> map TotalPages (documents demo_doc_run) = [Some 1] \<and>
   length (document_pages demo_doc_run) = 1 \<and>
   db_constraints demo_doc_run \<and> usage_covers demo_doc_run \<and> (\<forall>d \<in> set (documents demo_doc_run). lifecycle d)"
proof -
  have "map Status (documents demo_doc_run) = [StatusFailed]" and "map TotalPages (documents demo_doc_run) = [Some 1]"
    and "length (document_pages demo_doc_run) = 1"
    by code_simp+
  then show ?thesis using store_invariant[OF demo_doc_run_reachable] by simp
qed

section \<open>Quotas\<close>

lemma sql_delete_fresh:
  "k r \<notin> k ` set rs \<Longrightarrow> sql_delete (\<lambda>x. k x = k r) (rs @ [r]) = rs"
  by (auto simp: sql_delete_def filter_id_conv image_iff)

text \<open>C32: Documents escape the quota. Whatever the quota of a user is, the document is
  created and its bytes are charged; deleting it again takes the row away and leaves
  the charge, so the user ends with the same documents and less room for files.\<close>

theorem documents_escape_quota:
  assumes "db_constraints db" and "x \<in> set (users db)"
    and "uuid_in p userID = Some (user_ID x)" and "uuid_in p i = Some (gen_uuid p)"
    and "\<And>s. \<not> fault p s" and "gen_uuid p \<notin> doc_ID ` set (documents db)"
    and "int8_ok (StorageBytesUsed x + sz)"
  shows "\<exists>d db1 db2. CreateDocument p userID name path h sz db = (Inr d, db1) \<and>
     DeleteDocument p i userID db1 = (Inr d, db2) \<and>
     documents db2 = documents db \<and> users db2 = charge (user_ID x) sz (users db)"
proof -
  define d where "d = \<lparr>doc_ID = gen_uuid p, doc_UserID = user_ID x, Filename = name,
     OriginalMinioPath = path, doc_SHA256 = h, Status = StatusProcessing, TotalPages = None,
     ErrorMessage = None, doc_SizeBytes = sz, doc_CreatedAt = now p, UpdatedAt = now p\<rparr>"
  define db1 where "db1 = db\<lparr>documents := documents db @ [d], users := charge (user_ID x) sz (users db)\<rparr>"
  have "y = x" if "y \<in> set (users db)" "user_ID y = user_ID x" for y
    using unique_row[OF constraints_user_ids[OF assms(1)] that(1) assms(2)] that(2) by simp
  then have "list_all (\<lambda>y. user_ID y = user_ID x \<longrightarrow> int8_ok (StorageBytesUsed y + sz)) (users db)"
    using assms(7) by (auto simp: list_all_iff)
  then have create: "CreateDocument p userID name path h sz db = (Inr d, db1)"
    using assms(2-6) by (auto simp: in_tx_success CreateDocument_def create_document_tx_def insert_document_def
        exec_no_fault uuid_arg_Some update_usage_def d_def db1_def charge_def Let_def)
  have "filter (\<lambda>y. doc_ID y = gen_uuid p \<and> doc_UserID y = user_ID x) (documents db1) = [d]"
    using assms(6) by (auto simp: db1_def d_def filter_empty_conv image_iff)
  then have "DeleteDocument p i userID db1 = (Inr d, delete_document (gen_uuid p) db1)"
    using assms(3-5) by (simp add: DeleteDocument_def auto_commit_success exec_no_fault uuid_arg_Some)
  moreover have "documents (delete_document (gen_uuid p) db1) = documents db"
    using sql_delete_fresh[of doc_ID d "documents db"] assms(6) by (simp add: delete_document_def db1_def d_def)
  ultimately show ?thesis using create by (auto simp: delete_document_def db1_def)
qed

text \<open>A user whose quota of 10 bytes is full.\<close>

definition full_db :: database where
  "full_db = empty_db\<lparr>users := [demo_user ''u1'' 10 10]\<rparr>"

theorem documents_escape_quota_witness:
  "\<exists>d db1 db2. CreateDocument (demo_pg ''d1'' 1) ''u1'' ''a.pdf'' '''' ''aa'' 500 full_db = (Inr d, db1) \<and>
     DeleteDocument (demo_pg ''d1'' 1) ''d1'' ''u1'' db1 = (Inr d, db2) \<and>
     documents db2 = [] \<and> users db2 = [demo_user ''u1'' 510 10]"
proof -
  have "db_constraints full_db" by (simp add: full_db_def db_constraints_def empty_db_def)
  from documents_escape_quota[OF this, of "demo_user ''u1'' 10 10" "demo_pg ''d1'' 1" "''u1''" "''d1''" 500
      "''a.pdf''" "''''" "''aa''"]
  show ?thesis by (simp add: full_db_def empty_db_def demo_user_def int8_ok_def charge_def)
qed

section \<open>Pages\<close>

lemma pages_distinct:
  "db_constraints db \<Longrightarrow> distinct (map (\<lambda>p. (page_DocumentID p, PageNumber p)) (document_pages db))"
  by (simp add: db_constraints_def)

lemma filter_page_at:
  assumes "db_constraints db" and "pg \<in> set (document_pages db)" and "page_at i n pg"
  shows "filter (page_at i n) (document_pages db) = [pg]"
proof -
  have "page_at i n = (\<lambda>p. (page_DocumentID p, PageNumber p) = (page_DocumentID pg, PageNumber pg))"
    using assms(3) by (auto simp: page_at_def fun_eq_iff)
  then show ?thesis using filter_key_single[OF pages_distinct[OF assms(1)] assms(2)] by simp
qed

lemma GetPage_other:
  assumes "filter (page_at i n) (document_pages db') = filter (page_at i n) (document_pages db)"
    and "uuid_in q docID = Some i"
  shows "GetPage q docID n db' = GetPage q docID n db"
  using assms by (simp add: GetPage_def uuid_arg_Some)

lemma upsert_page_filter:
  assumes "db_constraints db" and "upsert_page p i n path sz db = Inr (pg, db')"
  shows "filter (page_at i n) (document_pages db') = [pg]"
    and "(j, m) \<noteq> (i, n) \<Longrightarrow> filter (page_at j m) (document_pages db') = filter (page_at j m) (document_pages db)"
    and "length (document_pages db') =
      length (document_pages db) + (if \<exists>pg0 \<in> set (document_pages db). page_at i n pg0 then 0 else 1)"
proof -
  have other: "page_at i n r \<Longrightarrow> \<not> page_at j m r" if "(j, m) \<noteq> (i, n)" for r j m
    using that by (auto simp: page_at_def)
  have "filter (page_at i n) (document_pages db') = [pg] \<and>
    (\<forall>j m. (j, m) \<noteq> (i, n) \<longrightarrow> filter (page_at j m) (document_pages db') = filter (page_at j m) (document_pages db)) \<and>
    length (document_pages db') =
      length (document_pages db) + (if \<exists>pg0 \<in> set (document_pages db). page_at i n pg0 then 0 else 1)"
  proof (cases "filter (page_at i n) (document_pages db)")
    case Nil
    with assms(2) show ?thesis
      by (auto simp: upsert_page_def page_at_def filter_empty_conv Let_def split: if_splits)
  next
    case (Cons pg0 rest)
    then have pg0: "pg0 \<in> set (document_pages db)" "page_at i n pg0" by (auto dest: filter_hdD)
    have rest: "filter (page_at i n) (document_pages db) = [pg0]" by (rule filter_page_at[OF assms(1) pg0])
    have "filter (page_at j m) (sql_update (page_at i n) (set_page path sz) (document_pages db))
        = filter (page_at j m) (document_pages db)" if "(j, m) \<noteq> (i, n)" for j m
      using other[OF that] by (auto simp: filter_sql_update intro!: sql_update_id)
    moreover have "filter (page_at i n) (sql_update (page_at i n) (set_page path sz) (document_pages db)) = [set_page path sz pg0]"
      using pg0 by (simp add: filter_sql_update rest)
    ultimately show ?thesis using assms(2) Cons pg0 by (auto simp: upsert_page_def split: if_splits)
  qed
  then show "filter (page_at i n) (document_pages db') = [pg]"
    and "(j, m) \<noteq> (i, n) \<Longrightarrow> filter (page_at j m) (document_pages db') = filter (page_at j m) (document_pages db)"
    and "length (document_pages db') =
      length (document_pages db) + (if \<exists>pg0 \<in> set (document_pages db). page_at i n pg0 then 0 else 1)"
    by blast+
qed

text \<open>C33: A saved page is read back as it was saved, on any server, and every other page
  reads as before; saving a number again replaces its row, so a retried extraction
  leaves one row for each page.\<close>

theorem SavePage_GetPage:
  assumes "db_constraints db" and "SavePage p docID n path sz db = (Inr pg, db')"
    and "uuid_in p docID = Some i" and "uuid_in q docID' = Some i" and "\<not> fault q S_GetPage"
  shows "GetPage q docID' n db' = Inr pg \<and> PageNumber pg = n \<and> MinioPath pg = path \<and> page_SizeBytes pg = sz \<and>
    length (document_pages db') =
      length (document_pages db) + (if \<exists>pg0 \<in> set (document_pages db). page_at i n pg0 then 0 else 1) \<and>
    (\<forall>r k j m. uuid_in r k = Some j \<longrightarrow> (j, m) \<noteq> (i, n) \<longrightarrow> GetPage r k m db' = GetPage r k m db)"
proof -
  have run: "upsert_page p i n path sz db = Inr (pg, db')"
    using assms(2,3) by (auto simp: SavePage_Inr)
  note rows = upsert_page_filter[OF assms(1) run] and eff = upsert_page_Inr[OF run]
  have "GetPage q docID' n db' = Inr pg"
    using rows(1) eff assms(4,5) by (simp add: GetPage_def exec_no_fault uuid_arg_Some)
  moreover have "GetPage r k m db' = GetPage r k m db" if "uuid_in r k = Some j" "(j, m) \<noteq> (i, n)" for r k j m
    by (rule GetPage_other[OF rows(2)[OF that(2)] that(1)])
  ultimately show ?thesis using rows(3) eff by (auto simp: page_at_def)
qed

definition demo_doc :: "uuid \<Rightarrow> uuid \<Rightarrow> document_status \<Rightarrow> int option \<Rightarrow> document" where
  "demo_doc i u st n = \<lparr>doc_ID = i, doc_UserID = u, Filename = ''a.pdf'',
     OriginalMinioPath = ''documents/'' @ i @ ''/original.pdf'', doc_SHA256 = ''aa'', Status = st,
     TotalPages = n, ErrorMessage = None, doc_SizeBytes = 9, doc_CreatedAt = 0, UpdatedAt = 0\<rparr>"

definition demo_page :: "uuid \<Rightarrow> uuid \<Rightarrow> int \<Rightarrow> document_page" where
  "demo_page i d n = \<lparr>page_ID = i, page_DocumentID = d, PageNumber = n, MinioPath = ''pages/'' @ i,
     page_SizeBytes = 3\<rparr>"

definition paged_db :: database where
  "paged_db = empty_db\<lparr>users := [demo_user ''u1'' 18 20, demo_user ''u2'' 0 20],
     documents := [demo_doc ''d1'' ''u1'' StatusProcessing None, demo_doc ''d2'' ''u1'' StatusReady (Some 2)],
     document_pages := [demo_page ''p1'' ''d1'' 1, demo_page ''p2'' ''d2'' 2, demo_page ''p3'' ''d2'' 1]\<rparr>"

lemmas paged_db_defs = paged_db_def empty_db_def demo_user_def demo_doc_def demo_page_def

lemma paged_db_constraints: "db_constraints paged_db"
  by (simp add: paged_db_defs db_constraints_def)

theorem SavePage_GetPage_witness:
  "\<exists>pg db'. SavePage (demo_pg ''p9'' 1) ''d1'' 1 ''new'' 4 paged_db = (Inr pg, db') \<and>
     GetPage (demo_pg ''x'' 2) ''d1'' 1 db' = Inr pg \<and> MinioPath pg = ''new'' \<and> page_SizeBytes pg = 4 \<and>
     length (document_pages db') = 3"
proof -
  obtain pg db' where run: "SavePage (demo_pg ''p9'' 1) ''d1'' 1 ''new'' 4 paged_db = (Inr pg, db')"
    by (simp add: SavePage_def auto_commit_def exec_no_fault uuid_arg_Some upsert_page_def int4_ok_def page_at_def
        paged_db_defs)
  from SavePage_GetPage[OF paged_db_constraints run, of "''d1''" "demo_pg ''x'' 2" "''d1''"] run
  show ?thesis by (auto simp: paged_db_defs page_at_def)
qed

end
