(* ===== verification/DocumentService.thy ===== *)
theory DocumentService
  imports DocumentClaims FileService
begin

text \<open>
  The document service, \<open>service/document_service.go\<close>: the upload pipeline of PDFs, page
  retrieval as presigned URLs or as a ZIP archive, webhooks and deletion, over the
  interfaces \<open>DocumentRepository\<close>, \<open>Storage\<close> and \<open>TaskEnqueuer\<close>; and the tasks of
  \<open>worker/tasks.go\<close> that it enqueues. The laws of the repository are the locale
  \<open>document_repository\<close>.
\<close>

section \<open>Interfaces and data\<close>

record 'm document_repository =
  dr_CreateDocument :: "string \<Rightarrow> string \<Rightarrow> string \<Rightarrow> string \<Rightarrow> int \<Rightarrow> 'm \<Rightarrow> (go_error + document) \<times> 'm"
  dr_GetDocument :: "string \<Rightarrow> string \<Rightarrow> 'm \<Rightarrow> go_error + document"
  dr_GetDocumentByID :: "string \<Rightarrow> 'm \<Rightarrow> go_error + document"
  dr_ListDocuments :: "string \<Rightarrow> 'm \<Rightarrow> go_error + document list"
  dr_MarkReady :: "string \<Rightarrow> int \<Rightarrow> 'm \<Rightarrow> (go_error + unit) \<times> 'm"
  dr_MarkFailed :: "string \<Rightarrow> string \<Rightarrow> 'm \<Rightarrow> (go_error + unit) \<times> 'm"
  dr_UpdateOriginalPath :: "string \<Rightarrow> string \<Rightarrow> 'm \<Rightarrow> (go_error + unit) \<times> 'm"
  dr_SavePage :: "string \<Rightarrow> int \<Rightarrow> string \<Rightarrow> int \<Rightarrow> 'm \<Rightarrow> (go_error + document_page) \<times> 'm"
  dr_GetPage :: "string \<Rightarrow> int \<Rightarrow> 'm \<Rightarrow> go_error + document_page"
  dr_GetPageRange :: "string \<Rightarrow> int \<Rightarrow> int \<Rightarrow> 'm \<Rightarrow> go_error + document_page list"
  dr_ListPages :: "string \<Rightarrow> 'm \<Rightarrow> go_error + document_page list"
  dr_CreateWebhook :: "string \<Rightarrow> string \<Rightarrow> string \<Rightarrow> string \<Rightarrow> 'm \<Rightarrow> (go_error + webhook_subscription) \<times> 'm"
  dr_GetWebhooksForDocument :: "string \<Rightarrow> 'm \<Rightarrow> go_error + webhook_subscription list"
  dr_DeleteDocument :: "string \<Rightarrow> string \<Rightarrow> 'm \<Rightarrow> (go_error + document) \<times> 'm"

definition postgres_docs :: "pg \<Rightarrow> database document_repository" where
  "postgres_docs p = \<lparr>dr_CreateDocument = CreateDocument p, dr_GetDocument = GetDocument p,
     dr_GetDocumentByID = GetDocumentByID p, dr_ListDocuments = ListDocuments p,
     dr_MarkReady = MarkReady p, dr_MarkFailed = MarkFailed p, dr_UpdateOriginalPath = UpdateOriginalPath p,
     dr_SavePage = SavePage p, dr_GetPage = GetPage p, dr_GetPageRange = GetPageRange p,
     dr_ListPages = ListPages p, dr_CreateWebhook = CreateWebhook p,
     dr_GetWebhooksForDocument = GetWebhooksForDocument p, dr_DeleteDocument = DeleteDocument p\<rparr>"

text \<open>The interface \<open>TaskEnqueuer\<close>.\<close>

record 'q task_enqueuer =
  EnqueueTask :: "string \<Rightarrow> string \<Rightarrow> 'q \<Rightarrow> (go_error + unit) \<times> 'q"

section \<open>Tasks\<close>

text \<open>A task's payload is the JSON value that \<open>json.Marshal\<close> writes and
  \<open>json.Unmarshal\<close> reads back.\<close>

record task =
  task_Type :: string
  task_Payload :: json

definition TypeExtractPages :: string where "TypeExtractPages = ''pdf:extract_pages''"
definition TypeFireWebhook :: string where "TypeFireWebhook = ''pdf:fire_webhook''"

record extract_pages_payload =
  ep_DocumentID :: string
  ep_UserID :: string

definition NewExtractPagesTask :: "string \<Rightarrow> string \<Rightarrow> go_error + task" where
  "NewExtractPagesTask docID userID =
     Inr \<lparr>task_Type = TypeExtractPages,
          task_Payload = JObj [(''document_id'', JStr docID), (''user_id'', JStr userID)]\<rparr>"

record fire_webhook_payload =
  fw_DocumentID :: string
  fw_WebhookURL :: string
  fw_Secret :: string
  fw_Status :: string
  fw_TotalPages :: int

definition NewFireWebhookTask :: "fire_webhook_payload \<Rightarrow> go_error + task" where
  "NewFireWebhookTask p =
     Inr \<lparr>task_Type = TypeFireWebhook,
          task_Payload = JObj [(''document_id'', JStr (fw_DocumentID p)), (''webhook_url'', JStr (fw_WebhookURL p)),
            (''secret'', JStr (fw_Secret p)), (''status'', JStr (fw_Status p)),
            (''total_pages'', JInt (fw_TotalPages p))]\<rparr>"

text \<open>The queue library: a client that enqueues a task with options.\<close>

datatype task_option = Queue string | MaxRetry int | Timeout duration

record 'q asynq_client =
  aq_Enqueue :: "task \<Rightarrow> task_option list \<Rightarrow> 'q \<Rightarrow> (go_error + unit) \<times> 'q"

definition asynq_EnqueueTask :: "'q asynq_client \<Rightarrow> string \<Rightarrow> string \<Rightarrow> 'q \<Rightarrow> (go_error + unit) \<times> 'q" where
  "asynq_EnqueueTask aq docID userID q =
     (case wrapf ''build task'' (NewExtractPagesTask docID userID) of
        Inl e \<Rightarrow> (Inl e, q)
      | Inr t \<Rightarrow> aq_Enqueue aq t [Queue ''default''] q)"

definition AsynqEnqueuer :: "'q asynq_client \<Rightarrow> 'q task_enqueuer" where
  "AsynqEnqueuer aq = \<lparr>EnqueueTask = asynq_EnqueueTask aq\<rparr>"

section \<open>Uploads\<close>

text \<open>The uploaded file: what the first \<open>Read\<close> into eight bytes gives, and after a seek
  back to the start each time, the bytes that the hash and that the storage read.\<close>

record pdf_file =
  read_head :: "bytes \<times> read_error option"
  rewind_head :: "go_error + unit"
  hash_pass :: "go_error + bytes"
  rewind_hash :: "go_error + unit"
  body_pass :: "go_error + bytes"

record pdf_header =
  pdf_Filename :: string
  pdf_Size :: int
  pdf_Open :: "go_error + pdf_file"

definition validatePDF :: "bytes \<times> read_error option \<Rightarrow> go_error + unit" where
  "validatePDF r =
     (let (hd, err) = r
      in case err of
           Some (ReadError e) \<Rightarrow> Inl (Errorf ''read header'' e)
         | _ \<Rightarrow>
             if length hd < 4 then Inl ErrInvalidPDF
             else if take 4 hd \<noteq> ''%PDF'' then Inl ErrInvalidPDF
             else Inr ())"

record doc_upload_result =
  upl_DocumentID :: string
  upl_Status :: document_status
  upl_Filename :: string

text \<open>The first part reads the file only: its hash, its name and the stream for the storage.\<close>

definition prepare_document :: "pdf_header \<Rightarrow> go_error + string \<times> string \<times> (go_error + bytes)" where
  "prepare_document hdr =
     and_then (wrapf ''open upload'' (pdf_Open hdr)) (\<lambda>src.
     and_then (validatePDF (read_head src)) (\<lambda>_.
     and_then (wrapf ''seek'' (rewind_head src)) (\<lambda>_.
     and_then (wrapf ''sha256'' (ComputeSHA256 (hash_pass src))) (\<lambda>hash.
     and_then (wrapf ''seek after hash'' (rewind_hash src)) (\<lambda>_.
       Inr (hash, path_base (pdf_Filename hdr), body_pass src))))))"

definition original_path :: "uuid \<Rightarrow> string" where
  "original_path i = ''documents/'' @ i @ ''/original.pdf''"

definition ds_Upload ::
  "'m document_repository \<Rightarrow> 's storage \<Rightarrow> 'q task_enqueuer \<Rightarrow> string \<Rightarrow> pdf_header \<Rightarrow>
     'm \<times> 's \<times> 'q \<Rightarrow> (go_error + doc_upload_result) \<times> 'm \<times> 's \<times> 'q" where
  "ds_Upload repo st enq userID hdr w =
     (case prepare_document hdr of
        Inl e \<Rightarrow> (Inl e, w)
      | Inr (hash, originalName, src) \<Rightarrow>
     (let (m, s, q) = w in
      case dr_CreateDocument repo userID originalName [] hash (pdf_Size hdr) m of
        (Inl e, m) \<Rightarrow> (Inl (Errorf ''create document record'' e), m, s, q)
      | (Inr doc, m) \<Rightarrow>
     (let minioPath = original_path (doc_ID doc) in
      case st_Upload st minioPath src (pdf_Size hdr) ''application/pdf'' s of
        (Inl e, s) \<Rightarrow>
          (let (_, m) = dr_MarkFailed repo (doc_ID doc) (''upload failed: '' @ err_text e) m
           in (Inl (Errorf ''store original'' e), m, s, q))
      | (Inr _, s) \<Rightarrow>
     (case dr_UpdateOriginalPath repo (doc_ID doc) minioPath m of
        (Inl e, m) \<Rightarrow> (Inl (Errorf ''update minio path'' e), m, s, q)
      | (Inr _, m) \<Rightarrow>
     (case EnqueueTask enq (doc_ID doc) userID q of
        (Inl e, q) \<Rightarrow> (Inl (Errorf ''enqueue extraction'' e), m, s, q)
      | (Inr _, q) \<Rightarrow>
          (Inr \<lparr>upl_DocumentID = doc_ID doc, upl_Status = StatusProcessing, upl_Filename = originalName\<rparr>,
           m, s, q))))))"

section \<open>Lookups\<close>

definition ds_GetDocument :: "'m document_repository \<Rightarrow> string \<Rightarrow> string \<Rightarrow> 'm \<Rightarrow> go_error + document" where
  "ds_GetDocument repo docID userID m = dr_GetDocument repo docID userID m"

definition ds_ListDocuments :: "'m document_repository \<Rightarrow> string \<Rightarrow> 'm \<Rightarrow> go_error + document list" where
  "ds_ListDocuments repo userID m = dr_ListDocuments repo userID m"

text \<open>The document when it is the user's and ready.\<close>

definition ready_document :: "'m document_repository \<Rightarrow> string \<Rightarrow> string \<Rightarrow> 'm \<Rightarrow> go_error + document" where
  "ready_document repo docID userID m =
     and_then (dr_GetDocument repo docID userID m) (\<lambda>doc.
       if Status doc \<noteq> StatusReady then Inl ErrDocumentNotReady else Inr doc)"

definition ds_GetPage ::
  "'m document_repository \<Rightarrow> 's storage \<Rightarrow> string \<Rightarrow> string \<Rightarrow> int \<Rightarrow> 'm \<times> 's \<Rightarrow> go_error + string" where
  "ds_GetPage repo st docID userID pageNumber w =
     (let (m, s) = w in
      and_then (ready_document repo docID userID m) (\<lambda>doc.
      and_then (dr_GetPage repo docID pageNumber m) (\<lambda>page.
        st_GetPresignedURL st (MinioPath page) s)))"

record page_with_url =
  pwu_PageNumber :: int
  pwu_SizeBytes :: int
  pwu_URL :: string

fun presign_pages :: "'s storage \<Rightarrow> 's \<Rightarrow> document_page list \<Rightarrow> go_error + page_with_url list" where
  "presign_pages st s [] = Inr []"
| "presign_pages st s (p # ps) =
     and_then (wrapf (''presign page '' @ itoa (PageNumber p)) (st_GetPresignedURL st (MinioPath p) s)) (\<lambda>url.
     and_then (presign_pages st s ps) (\<lambda>rest.
       Inr (\<lparr>pwu_PageNumber = PageNumber p, pwu_SizeBytes = page_SizeBytes p, pwu_URL = url\<rparr> # rest)))"

definition ds_ListPages ::
  "'m document_repository \<Rightarrow> 's storage \<Rightarrow> string \<Rightarrow> string \<Rightarrow> 'm \<times> 's \<Rightarrow> go_error + page_with_url list" where
  "ds_ListPages repo st docID userID w =
     (let (m, s) = w in
      and_then (ready_document repo docID userID m) (\<lambda>doc.
      and_then (dr_ListPages repo docID m) (\<lambda>pages.
        presign_pages st s pages)))"

section \<open>The ZIP archive of a page range\<close>

text \<open>\<open>net/http\<close>: building a request fails on an unusable URL; a performed one gives the
  status, the bytes of the body, and the error that ended the body early, if any.\<close>

record http_client =
  NewRequest :: "string \<Rightarrow> go_error + unit"
  http_Get :: "string \<Rightarrow> go_error + int \<times> bytes \<times> go_error option"

text \<open>The entries written to the archive, and the error that stopped the loop. The HTTP
  status of a fetched page is not looked at, as in the code. Writing to the client is
  taken not to fail.\<close>

fun zip_pages :: "'s storage \<Rightarrow> http_client \<Rightarrow> 's \<Rightarrow> document_page list \<Rightarrow> (string \<times> bytes) list \<times> go_error option" where
  "zip_pages st http s [] = ([], None)"
| "zip_pages st http s (p # ps) =
     (let n = itoa (PageNumber p) in
      case st_GetPresignedURL st (MinioPath p) s of
        Inl e \<Rightarrow> ([], Some (Errorf (''presign page '' @ n) e))
      | Inr url \<Rightarrow>
     (case NewRequest http url of
        Inl e \<Rightarrow> ([], Some (Errorf (''build request page '' @ n) e))
      | Inr _ \<Rightarrow>
     (case http_Get http url of
        Inl e \<Rightarrow> ([], Some (Errorf (''fetch page '' @ n) e))
      | Inr (status, body, err) \<Rightarrow>
     (let entry = (''page_'' @ n @ ''.pdf'', body) in
      case err of
        Some e \<Rightarrow> ([entry], Some (Errorf (''write zip page '' @ n) e))
      | None \<Rightarrow> (let (rest, err) = zip_pages st http s ps in (entry # rest, err))))))"

text \<open>The result is the error, and the archive when one was begun.\<close>

definition ds_GetPageRange ::
  "'m document_repository \<Rightarrow> 's storage \<Rightarrow> http_client \<Rightarrow> string \<Rightarrow> string \<Rightarrow> int \<Rightarrow> int \<Rightarrow> 'm \<times> 's \<Rightarrow>
     go_error option \<times> (string \<times> bytes) list option" where
  "ds_GetPageRange repo st http docID userID p_start p_end w =
     (let (m, s) = w in
      case ready_document repo docID userID m of
        Inl e \<Rightarrow> (Some e, None)
      | Inr doc \<Rightarrow>
     (let p_end = (case TotalPages doc of Some t \<Rightarrow> if p_end > t then t else p_end | None \<Rightarrow> p_end);
          p_start = (if p_start < 1 then 1 else p_start)
      in if p_start > p_end
         then (Some (Opaque (''start ('' @ itoa p_start @ '') must be <= end ('' @ itoa p_end @ '')'')), None)
         else (case dr_GetPageRange repo docID p_start p_end m of
                 Inl e \<Rightarrow> (Some e, None)
               | Inr pages \<Rightarrow>
                   if pages = [] then (Some ErrNotFound, None)
                   else (let (entries, err) = zip_pages st http s pages in (err, Some entries)))))"

section \<open>Webhooks and deletion\<close>

definition ds_RegisterWebhook ::
  "'m document_repository \<Rightarrow> string \<Rightarrow> string \<Rightarrow> string \<Rightarrow> string \<Rightarrow> 'm \<Rightarrow> (go_error + webhook_subscription) \<times> 'm" where
  "ds_RegisterWebhook repo userID docID url secret m =
     (case dr_GetDocument repo docID userID m of
        Inl e \<Rightarrow> (Inl e, m)
      | Inr _ \<Rightarrow> dr_CreateWebhook repo userID docID url secret m)"

text \<open>The answer, the repository, and the keys that the goroutine started by a successful
  deletion removes from the storage, in this order.\<close>

definition ds_DeleteDocument ::
  "'m document_repository \<Rightarrow> string \<Rightarrow> string \<Rightarrow> 'm \<Rightarrow> (go_error + unit) \<times> 'm \<times> string list" where
  "ds_DeleteDocument repo docID userID m =
     (case dr_ListPages repo docID m of
        Inl e \<Rightarrow> (Inl (Errorf ''list pages for delete'' e), m, [])
      | Inr pages \<Rightarrow>
          (case dr_DeleteDocument repo docID userID m of
             (Inl e, m) \<Rightarrow> (Inl e, m, [])
           | (Inr doc, m) \<Rightarrow> (Inr (), m, OriginalMinioPath doc # map MinioPath pages)))"

text \<open>The goroutine: a failed deletion is only logged.\<close>

fun delete_objects :: "'s storage \<Rightarrow> string list \<Rightarrow> 's \<Rightarrow> 's" where
  "delete_objects st [] s = s"
| "delete_objects st (k # ks) s = delete_objects st ks (snd (st_Delete st k s))"

section \<open>The laws of the repository\<close>

text \<open>
  \<open>ident\<close> is the identifier that a text names, \<open>docs\<close> and \<open>pages\<close> are the records that the
  repository holds. A lookup answers with a record of the named document and owner, a
  range or a list of pages is exactly what is stored for the document, and a change
  touches the named document only.
\<close>

locale document_repository =
  fixes repo :: "'m document_repository"
    and ident :: "string \<Rightarrow> uuid option"
    and inv :: "'m \<Rightarrow> bool"
    and docs :: "'m \<Rightarrow> document set"
    and pages :: "'m \<Rightarrow> document_page set"
  assumes get: "dr_GetDocument repo i u m = Inr d \<Longrightarrow> inv m \<Longrightarrow>
      d \<in> docs m \<and> ident i = Some (doc_ID d) \<and> ident u = Some (doc_UserID d)"
    and get_page: "dr_GetPage repo i n m = Inr pg \<Longrightarrow> inv m \<Longrightarrow>
      pg \<in> pages m \<and> ident i = Some (page_DocumentID pg) \<and> PageNumber pg = n"
    and get_range: "dr_GetPageRange repo i a b m = Inr ps \<Longrightarrow> inv m \<Longrightarrow> ident i = Some j \<Longrightarrow>
      set ps = {pg \<in> pages m. page_DocumentID pg = j \<and> a \<le> PageNumber pg \<and> PageNumber pg \<le> b} \<and>
      sorted_wrt (<) (map PageNumber ps)"
    and list_pages: "dr_ListPages repo i m = Inr ps \<Longrightarrow> inv m \<Longrightarrow> ident i = Some j \<Longrightarrow>
      set ps = {pg \<in> pages m. page_DocumentID pg = j}"
    and create_ok: "dr_CreateDocument repo u nm path h sz m = (Inr d, m') \<Longrightarrow> inv m \<Longrightarrow>
      inv m' \<and> d \<in> docs m' \<and> ident (doc_ID d) = Some (doc_ID d) \<and> ident u = Some (doc_UserID d) \<and>
      Status d = StatusProcessing \<and> doc_SHA256 d = h \<and> Filename d = nm \<and> doc_SizeBytes d = sz"
    and create_error: "dr_CreateDocument repo u nm path h sz m = (Inl e, m') \<Longrightarrow> m' = m"
    and path_ok: "dr_UpdateOriginalPath repo i path m = (Inr x, m') \<Longrightarrow> inv m \<Longrightarrow> d \<in> docs m \<Longrightarrow>
      ident i = Some (doc_ID d) \<Longrightarrow>
      inv m' \<and> (\<exists>t. d\<lparr>OriginalMinioPath := path, UpdatedAt := t\<rparr> \<in> docs m')"
    and path_error: "dr_UpdateOriginalPath repo i path m = (Inl e, m') \<Longrightarrow> m' = m"
    and failed_ok: "dr_MarkFailed repo i msg m = (Inr x, m') \<Longrightarrow> inv m \<Longrightarrow> d \<in> docs m \<Longrightarrow>
      ident i = Some (doc_ID d) \<Longrightarrow>
      inv m' \<and> (\<exists>t. d\<lparr>Status := StatusFailed, ErrorMessage := Some msg, UpdatedAt := t\<rparr> \<in> docs m')"
    and failed_error: "dr_MarkFailed repo i msg m = (Inl e, m') \<Longrightarrow> m' = m"
    and delete_ok: "dr_DeleteDocument repo i u m = (Inr d, m') \<Longrightarrow> inv m \<Longrightarrow>
      d \<in> docs m \<and> ident i = Some (doc_ID d) \<and> ident u = Some (doc_UserID d) \<and>
      docs m' = {d' \<in> docs m. doc_ID d' \<noteq> doc_ID d} \<and>
      pages m' = {pg \<in> pages m. page_DocumentID pg \<noteq> doc_ID d}"
    and delete_error: "dr_DeleteDocument repo i u m = (Inl e, m') \<Longrightarrow> m' = m"

text \<open>The file reads the same bytes \<open>c\<close> each time.\<close>

definition pdf_steady :: "pdf_header \<Rightarrow> bytes \<Rightarrow> bool" where
  "pdf_steady hdr c \<longleftrightarrow> (\<exists>src. pdf_Open hdr = Inr src \<and> hash_pass src = Inr c \<and> body_pass src = Inr c)"

lemma prepare_document_Inr:
  assumes "prepare_document hdr = Inr (hash, nm, src)" and "pdf_steady hdr c"
  shows "hash = hex_encode (sha256_sum c) \<and> nm = path_base (pdf_Filename hdr) \<and> src = Inr c"
  using assms by (auto simp: prepare_document_def pdf_steady_def)

lemma ready_document_Inr [simp]:
  "ready_document repo i u m = Inr d \<longleftrightarrow> dr_GetDocument repo i u m = Inr d \<and> Status d = StatusReady"
  by (auto simp: ready_document_def)

locale document_service =
  document_repository repo ident inv docs pages + object_storage st objects
  for repo :: "'m document_repository" and ident :: "string \<Rightarrow> uuid option" and inv :: "'m \<Rightarrow> bool"
    and docs :: "'m \<Rightarrow> document set" and pages :: "'m \<Rightarrow> document_page set"
    and st :: "'s storage" and objects :: "'s \<Rightarrow> string \<Rightarrow> bytes option"
begin

lemma upload_success:
  assumes "ds_Upload repo st enq userID hdr (m, s, q) = (Inr r, m', s', q')" and "inv m" and "pdf_steady hdr c"
  shows "\<exists>d \<in> docs m'. doc_ID d = upl_DocumentID r \<and> ident userID = Some (doc_UserID d) \<and>
     Status d = StatusProcessing \<and> upl_Status r = StatusProcessing \<and>
     doc_SHA256 d = hex_encode (sha256_sum c) \<and> Filename d = upl_Filename r \<and>
     OriginalMinioPath d = original_path (doc_ID d) \<and>
     objects s' = (objects s)(original_path (doc_ID d) \<mapsto> c) \<and>
     EnqueueTask enq (doc_ID d) userID q = (Inr (), q')"
proof -
  from assms(1) obtain hash nm src d m1 m2 k where prep: "prepare_document hdr = Inr (hash, nm, src)"
    and create: "dr_CreateDocument repo userID nm [] hash (pdf_Size hdr) m = (Inr d, m1)"
    and up: "st_Upload st (original_path (doc_ID d)) src (pdf_Size hdr) ''application/pdf'' s = (Inr k, s')"
    and path: "dr_UpdateOriginalPath repo (doc_ID d) (original_path (doc_ID d)) m1 = (Inr (), m')"
    and enq: "EnqueueTask enq (doc_ID d) userID q = (Inr (), q')"
    and r: "r = \<lparr>upl_DocumentID = doc_ID d, upl_Status = StatusProcessing, upl_Filename = nm\<rparr>"
    by (auto simp: ds_Upload_def Let_def split: sum.splits prod.splits)
  note p = prepare_document_Inr[OF prep assms(3)]
  note c = create_ok[OF create assms(2)]
  then obtain t where "d\<lparr>OriginalMinioPath := original_path (doc_ID d), UpdatedAt := t\<rparr> \<in> docs m'"
    using path_ok[OF path] by blast
  moreover have "objects s' = (objects s)(original_path (doc_ID d) \<mapsto> c)"
    using upload_stores up p by blast
  ultimately show ?thesis using c p enq r by (intro bexI) auto
qed

text \<open>A page is shown only to the owner of a ready document.\<close>

lemma get_page_guard:
  assumes "ds_GetPage repo st docID userID n (m, s) = Inr url" and "inv m"
  shows "\<exists>d \<in> docs m. \<exists>pg \<in> pages m. ident docID = Some (doc_ID d) \<and> ident userID = Some (doc_UserID d) \<and>
     Status d = StatusReady \<and> page_DocumentID pg = doc_ID d \<and> PageNumber pg = n \<and>
     st_GetPresignedURL st (MinioPath pg) s = Inr url"
  using assms get[OF _ assms(2)] get_page[OF _ assms(2)] by (fastforce simp: ds_GetPage_def)

lemma zip_pages_names:
  "zip_pages st http s ps = (es, None) \<Longrightarrow>
     map fst es = map (\<lambda>p. ''page_'' @ itoa (PageNumber p) @ ''.pdf'') ps \<and>
     list_all2 (\<lambda>p e. \<exists>url status. st_GetPresignedURL st (MinioPath p) s = Inr url \<and>
        http_Get http url = Inr (status, snd e, None)) ps es"
  by (induction ps arbitrary: es) (auto simp: Let_def split: sum.splits prod.splits option.splits)

text \<open>A complete archive holds the stored pages of the range, in ascending order.\<close>

lemma get_range_archive:
  assumes "ds_GetPageRange repo st http docID userID a b (m, s) = (None, Some es)" and "inv m"
  shows "\<exists>d ps. d \<in> docs m \<and> ident docID = Some (doc_ID d) \<and> ident userID = Some (doc_UserID d) \<and>
     Status d = StatusReady \<and>
     set ps = {pg \<in> pages m. page_DocumentID pg = doc_ID d \<and> max 1 a \<le> PageNumber pg \<and>
        PageNumber pg \<le> (case TotalPages d of Some t \<Rightarrow> min b t | None \<Rightarrow> b)} \<and>
     sorted_wrt (<) (map PageNumber ps) \<and> ps \<noteq> [] \<and>
     map fst es = map (\<lambda>p. ''page_'' @ itoa (PageNumber p) @ ''.pdf'') ps \<and>
     list_all2 (\<lambda>p e. \<exists>url status. st_GetPresignedURL st (MinioPath p) s = Inr url \<and>
        http_Get http url = Inr (status, snd e, None)) ps es"
proof -
  define hi where "hi = (\<lambda>d :: document. case TotalPages d of Some t \<Rightarrow> if b > t then t else b | None \<Rightarrow> b)"
  define lo where "lo = (if a < 1 then 1 else a)"
  from assms(1) obtain d ps where d: "dr_GetDocument repo docID userID m = Inr d" "Status d = StatusReady"
    and ps: "dr_GetPageRange repo docID lo (hi d) m = Inr ps" "ps \<noteq> []"
    and zip: "zip_pages st http s ps = (es, None)"
    unfolding ds_GetPageRange_def hi_def lo_def
    by (cases "ready_document repo docID userID m")
       (auto simp: Let_def split: sum.splits prod.splits if_splits)
  have "hi d = (case TotalPages d of Some t \<Rightarrow> min b t | None \<Rightarrow> b)" and "lo = max 1 a"
    by (auto simp: hi_def lo_def split: option.splits)
  then show ?thesis
    using get[OF d(1) assms(2)] d(2) ps get_range[OF ps(1) assms(2)] zip_pages_names[OF zip] by auto
qed

text \<open>A deletion removes the records, and its goroutine the objects of the original and of
  all pages that were listed; no other object changes.\<close>

lemma delete_objects_frame:
  "k \<notin> set ks \<Longrightarrow> objects (delete_objects st ks s) k = objects s k"
  by (induction ks arbitrary: s) (auto simp: delete_frame[OF surjective_pairing])

lemma delete_objects_gone:
  assumes "\<And>k s. \<exists>s'. st_Delete st k s = (Inr (), s')" and "k \<in> set ks"
  shows "objects (delete_objects st ks s) k = None"
  using assms(2)
proof (induction ks arbitrary: s)
  case Nil
  then show ?case by simp
next
  case (Cons k' ks)
  obtain s' where s': "st_Delete st k' s = (Inr (), s')" using assms(1) by blast
  show ?case
  proof (cases "k \<in> set ks")
    case True
    with Cons.IH show ?thesis by simp
  next
    case False
    with Cons.prems delete_removes[OF s'] show ?thesis by (simp add: s' delete_objects_frame)
  qed
qed

lemma delete_document:
  assumes "ds_DeleteDocument repo docID userID m = (Inr (), m', ks)" and "inv m"
  shows "\<exists>d \<in> docs m. ident docID = Some (doc_ID d) \<and> ident userID = Some (doc_UserID d) \<and>
     docs m' = {d' \<in> docs m. doc_ID d' \<noteq> doc_ID d} \<and>
     pages m' = {pg \<in> pages m. page_DocumentID pg \<noteq> doc_ID d} \<and>
     set ks = insert (OriginalMinioPath d) (MinioPath ` {pg \<in> pages m. page_DocumentID pg = doc_ID d})"
proof -
  from assms(1) obtain ps d where ps: "dr_ListPages repo docID m = Inr ps"
    and d: "dr_DeleteDocument repo docID userID m = (Inr d, m')"
    and ks: "ks = OriginalMinioPath d # map MinioPath ps"
    by (auto simp: ds_DeleteDocument_def split: sum.splits prod.splits)
  note del = delete_ok[OF d assms(2)]
  with list_pages[OF ps assms(2)] have "set ps = {pg \<in> pages m. page_DocumentID pg = doc_ID d}" by blast
  with del ks show ?thesis by auto
qed

end

section \<open>The PostgreSQL store is a repository\<close>

lemma postgres_docs_sel [simp]:
  "dr_CreateDocument (postgres_docs p) = CreateDocument p" "dr_GetDocument (postgres_docs p) = GetDocument p"
  "dr_GetDocumentByID (postgres_docs p) = GetDocumentByID p" "dr_ListDocuments (postgres_docs p) = ListDocuments p"
  "dr_MarkReady (postgres_docs p) = MarkReady p" "dr_MarkFailed (postgres_docs p) = MarkFailed p"
  "dr_UpdateOriginalPath (postgres_docs p) = UpdateOriginalPath p" "dr_SavePage (postgres_docs p) = SavePage p"
  "dr_GetPage (postgres_docs p) = GetPage p" "dr_GetPageRange (postgres_docs p) = GetPageRange p"
  "dr_ListPages (postgres_docs p) = ListPages p" "dr_CreateWebhook (postgres_docs p) = CreateWebhook p"
  "dr_GetWebhooksForDocument (postgres_docs p) = GetWebhooksForDocument p"
  "dr_DeleteDocument (postgres_docs p) = DeleteDocument p"
  by (simp_all add: postgres_docs_def)

definition pg_docs :: "database \<Rightarrow> document set" where
  "pg_docs db = set (documents db)"

definition pg_pages :: "database \<Rightarrow> document_page set" where
  "pg_pages db = set (document_pages db)"

lemma pg_page_range:
  assumes "db_constraints db" and "uuid_in p i = Some j" and "GetPageRange p i a b db = Inr ps"
  shows "set ps = {pg \<in> pg_pages db. page_DocumentID pg = j \<and> a \<le> PageNumber pg \<and> PageNumber pg \<le> b}"
    and "sorted_wrt (<) (map PageNumber ps)"
proof -
  define sel where "sel = filter (\<lambda>pg. page_DocumentID pg = j \<and> a \<le> PageNumber pg \<and> PageNumber pg \<le> b) (document_pages db)"
  have ps: "ps = order_asc PageNumber sel"
    using assms(2,3) by (auto simp: GetPageRange_def sel_def split: if_splits)
  then show "set ps = {pg \<in> pg_pages db. page_DocumentID pg = j \<and> a \<le> PageNumber pg \<and> PageNumber pg \<le> b}"
    by (auto simp: sel_def pg_pages_def)
  have "distinct (map (\<lambda>p. (page_DocumentID p, PageNumber p)) sel)"
    using pages_distinct[OF assms(1)] by (simp add: sel_def distinct_map_filter)
  then have "distinct (map PageNumber sel)"
    by (auto simp: distinct_map inj_on_def sel_def)
  then have "distinct (map PageNumber ps)" by (simp add: ps order_asc_def distinct_map)
  moreover have "sorted (map PageNumber ps)" by (simp add: ps order_asc_def)
  ultimately show "sorted_wrt (<) (map PageNumber ps)" by (simp add: strict_sorted_iff)
qed

interpretation pg_docs: document_repository "postgres_docs (first_row p)" "uuid_in (first_row p)" db_constraints pg_docs pg_pages for p
proof unfold_locales
  fix u nm path h sz and m m' :: database and d
  assume run: "dr_CreateDocument (postgres_docs (first_row p)) u nm path h sz m = (Inr d, m')" and c: "db_constraints m"
  then have "CreateDocument (first_row p) u nm path h sz m = (Inr d, m')" by simp
  with constraints_create_document[OF c this] show "db_constraints m' \<and> d \<in> pg_docs m' \<and> uuid_in (first_row p) (doc_ID d) = Some (doc_ID d) \<and>
      uuid_in (first_row p) u = Some (doc_UserID d) \<and>
      Status d = StatusProcessing \<and> doc_SHA256 d = h \<and> Filename d = nm \<and> doc_SizeBytes d = sz"
    by (elim CreateDocument_Inr) (auto simp: pg_docs_def)
next
  fix i path and m m' :: database and x d
  assume "dr_UpdateOriginalPath (postgres_docs (first_row p)) i path m = (Inr x, m')" "db_constraints m"
    "d \<in> pg_docs m" "uuid_in (first_row p) i = Some (doc_ID d)"
  then show "db_constraints m' \<and> (\<exists>t. d\<lparr>OriginalMinioPath := path, UpdatedAt := t\<rparr> \<in> pg_docs m')"
    using in_update_document[of d m "\<lambda>d. d\<lparr>OriginalMinioPath := path, UpdatedAt := now (first_row p)\<rparr>"]
    by (auto simp: UpdateOriginalPath_Inr pg_docs_def update_document_def intro!: constraints_update_documents)
next
  fix i msg and m m' :: database and x d
  assume "dr_MarkFailed (postgres_docs (first_row p)) i msg m = (Inr x, m')" "db_constraints m"
    "d \<in> pg_docs m" "uuid_in (first_row p) i = Some (doc_ID d)"
  then show "db_constraints m' \<and> (\<exists>t. d\<lparr>Status := StatusFailed, ErrorMessage := Some msg, UpdatedAt := t\<rparr> \<in> pg_docs m')"
    using in_update_document[of d m "\<lambda>d. d\<lparr>Status := StatusFailed, ErrorMessage := Some msg, UpdatedAt := now (first_row p)\<rparr>"]
    by (auto simp: MarkFailed_Inr pg_docs_def update_document_def intro!: constraints_update_documents)
qed (auto simp: pg_docs_def pg_pages_def GetPage_def ListPages_def page_at_def delete_document_def
      pg_page_range[unfolded pg_pages_def]
      dest: GetDocument_Inr document_errors dest!: DeleteDocument_Inr filter_hdD split: if_splits)

interpretation pg_mock_docs: document_service "postgres_docs (first_row p)" "uuid_in (first_row p)" db_constraints
    pg_docs pg_pages MockStorage mock_objects for p
  by unfold_locales

lemma pg_minio_docs:
  assumes "s3_semantics (client mc) (bucketName mc) objects"
  shows "document_service (postgres_docs (first_row p)) (uuid_in (first_row p)) db_constraints pg_docs pg_pages
    (minio_as_storage mc) objects"
  by (intro document_service.intro minio_object_storage[OF assms] pg_docs.document_repository_axioms)

end
