(* ===== verification/DocumentServiceClaims.thy ===== *)
theory DocumentServiceClaims
  imports DocumentService FileServiceClaims
begin

text \<open>
  The properties of the document service on the PostgreSQL store, the MinIO adapter and
  the task queue: what an accepted and what a failed upload leave behind, what an archive
  of pages holds, and what a deletion removes.
\<close>

section \<open>Examples\<close>

definition demo_pdf :: "bytes \<Rightarrow> pdf_header" where
  "demo_pdf c = \<lparr>pdf_Filename = ''dir/a.pdf'', pdf_Size = int (length c),
     pdf_Open = Inr \<lparr>read_head = (take 8 c, None), rewind_head = Inr (), hash_pass = Inr c,
       rewind_hash = Inr (), body_pass = Inr c\<rparr>\<rparr>"

text \<open>A queue that is the list of its tasks, or is down.\<close>

definition demo_queue :: "(task \<times> task_option list) list asynq_client" where
  "demo_queue = \<lparr>aq_Enqueue = (\<lambda>t opts q. (Inr (), q @ [(t, opts)]))\<rparr>"

definition broken_queue :: "(task \<times> task_option list) list asynq_client" where
  "broken_queue = \<lparr>aq_Enqueue = (\<lambda>t opts q. (Inl (Opaque ''redis down''), q))\<rparr>"

lemma demo_pdf_steady: "pdf_steady (demo_pdf c) c"
  by (simp add: pdf_steady_def demo_pdf_def)

lemma demo_pdf_Size: "pdf_Size (demo_pdf c) = int (length c)"
  by (simp add: demo_pdf_def)

lemma prepare_demo_pdf:
  assumes "take 4 c = ''%PDF''"
  shows "prepare_document (demo_pdf c) = Inr (hash_of c, ''a.pdf'', Inr c)"
proof -
  have "length (take 4 c) = 4" by (simp add: assms)
  then have "\<not> length c < 4" by simp
  moreover have "path_base ''dir/a.pdf'' = ''a.pdf''" by code_simp
  moreover have "take 4 (take 8 c) = ''%PDF''" using assms by (simp add: min_def)
  ultimately show ?thesis
    by (simp add: prepare_document_def demo_pdf_def validatePDF_def hash_of_def)
qed

section \<open>Uploads\<close>

text \<open>C24: An accepted upload leaves all that the worker needs: the file starts with
  %PDF, the caller owns a new document in the state processing that names its original,
  the bucket has exactly this object more, with the uploaded content, and the extraction
  task of the document has been put into the default queue.\<close>

theorem Document_upload_accepted:
  assumes "s3_semantics (client mc) (bucketName mc) objects" and "first_row p = p" and "db_constraints db"
    and "pdf_steady hdr c"
    and run: "ds_Upload (postgres_docs p) (minio_as_storage mc) (AsynqEnqueuer aq) userID hdr (db, s, q) = (Inr r, db', s', q')"
  shows "(\<exists>src. pdf_Open hdr = Inr src \<and> take 4 (fst (read_head src)) = ''%PDF'') \<and>
    (\<exists>d \<in> set (documents db'). doc_ID d = upl_DocumentID r \<and> uuid_in p userID = Some (doc_UserID d) \<and>
       Status d = StatusProcessing \<and> upl_Status r = StatusProcessing \<and> doc_SHA256 d = hash_of c \<and>
       Filename d = upl_Filename r \<and> OriginalMinioPath d = original_path (doc_ID d) \<and>
       objects s' = (objects s)(original_path (doc_ID d) \<mapsto> c) \<and>
       aq_Enqueue aq \<lparr>task_Type = TypeExtractPages,
          task_Payload = JObj [(''document_id'', JStr (doc_ID d)), (''user_id'', JStr userID)]\<rparr>
          [Queue ''default''] q = (Inr (), q'))"
proof -
  have docs: "document_service (postgres_docs p) (uuid_in p) db_constraints pg_docs pg_pages (minio_as_storage mc) objects"
    using pg_minio_docs[OF assms(1), of p] by (simp add: assms(2))
  have "take 4 (fst (read_head src)) = ''%PDF''" if "pdf_Open hdr = Inr src" for src
    using run that by (auto simp: ds_Upload_def prepare_document_def validatePDF_def
        split: sum.splits prod.splits if_splits option.splits read_error.splits)
  moreover have "\<exists>src. pdf_Open hdr = Inr src" using assms(4) by (auto simp: pdf_steady_def)
  ultimately show ?thesis
    using document_service.upload_success[OF docs run assms(3,4)]
    by (auto simp: pg_docs_def hash_of_def AsynqEnqueuer_def asynq_EnqueueTask_def NewExtractPagesTask_def)
qed

lemmas ds_demo_defs = minio_as_storage_def minio_Upload_def demo_minio_def mock_client_def mock_storage_defs
  mock_with_def NewMockStorage_def AsynqEnqueuer_def asynq_EnqueueTask_def NewExtractPagesTask_def

theorem Document_upload_accepted_witness:
  "\<exists>r db' s' q'. ds_Upload (postgres_docs (demo_pg ''d1'' 1)) (minio_as_storage demo_minio) (AsynqEnqueuer demo_queue) ''u1''
       (demo_pdf ''%PDF-1.4 x'') (demo_users, mock_with (\<lambda>_. None), []) = (Inr r, db', s', q') \<and>
     upl_DocumentID r = ''d1'' \<and> length q' = 1 \<and>
     mock_objects s' = [''documents/d1/original.pdf'' \<mapsto> ''%PDF-1.4 x'']"
proof -
  let ?run = "ds_Upload (postgres_docs (demo_pg ''d1'' 1)) (minio_as_storage demo_minio) (AsynqEnqueuer demo_queue) ''u1''
       (demo_pdf ''%PDF-1.4 x'') (demo_users, mock_with (\<lambda>_. None), [])"
  have prep: "prepare_document (demo_pdf ''%PDF-1.4 x'') = Inr (hash_of ''%PDF-1.4 x'', ''a.pdf'', Inr ''%PDF-1.4 x'')"
    by (rule prepare_demo_pdf) simp
  have "\<exists>r db' s' q'. ?run = (Inr r, db', s', q') \<and> upl_DocumentID r = ''d1'' \<and> length q' = 1"
    by (simp add: ds_Upload_def prep ds_demo_defs demo_queue_def document_defs auto_commit_def file_demo_defs
        demo_pdf_Size int8_ok_def list_all_iff Let_def)
  then obtain r db' s' q' where r: "?run = (Inr r, db', s', q')" "upl_DocumentID r = ''d1''" "length q' = 1"
    by blast
  have "db_constraints demo_users" by (simp add: db_constraints_def file_demo_defs)
  from Document_upload_accepted[OF demo_minio_s3 demo_pg_first_row this demo_pdf_steady r(1)] r show ?thesis
    by (auto simp: original_path_def mock_with_def NewMockStorage_def)
qed

text \<open>Where an upload can fail.\<close>

lemma ds_Upload_error:
  assumes "ds_Upload repo st enq userID hdr (m, s, q) = (Inl e, m', s', q')"
  obtains (reading) "m' = m" and "s' = s" and "q' = q"
  | (create) nm h e' where "dr_CreateDocument repo userID nm [] h (pdf_Size hdr) m = (Inl e', m')" and "s' = s" and "q' = q"
  | (store) nm h d m1 e' r where "dr_CreateDocument repo userID nm [] h (pdf_Size hdr) m = (Inr d, m1)"
      and "e = Errorf ''store original'' e'" and "dr_MarkFailed repo (doc_ID d) (''upload failed: '' @ err_text e') m1 = (r, m')" and "q' = q"
  | (path) nm h d m1 e' where "dr_CreateDocument repo userID nm [] h (pdf_Size hdr) m = (Inr d, m1)"
      and "e = Errorf ''update minio path'' e'"
      and "dr_UpdateOriginalPath repo (doc_ID d) (original_path (doc_ID d)) m1 = (Inl e', m')" and "q' = q"
  | (queue) nm h d m1 e' where "dr_CreateDocument repo userID nm [] h (pdf_Size hdr) m = (Inr d, m1)"
      and "e = Errorf ''enqueue extraction'' e'"
      and "dr_UpdateOriginalPath repo (doc_ID d) (original_path (doc_ID d)) m1 = (Inr (), m')"
  using assms by (auto simp: ds_Upload_def Let_def split: sum.splits prod.splits)

text \<open>C31: A failed upload leaves either nothing at all, or, once the record exists, a
  document: failed with the storage's error as its message when the storage refused the
  file, and still in the state processing when the path could not be recorded or the
  queue was down. No task is queued for the first kind, and the caller gets an error
  in every case.\<close>

theorem Document_upload_failed:
  assumes "first_row p = p" and "db_constraints db" and "\<not> fault p S_MarkFailed"
    and run: "ds_Upload (postgres_docs p) st enq userID hdr (db, s, q) = (Inl e, db', s', q')"
  shows "db' = db \<and> s' = s \<and> q' = q \<or>
    (\<exists>d \<in> set (documents db'). \<exists>e'. doc_ID d \<notin> doc_ID ` set (documents db) \<and>
       (e = Errorf ''store original'' e' \<and> Status d = StatusFailed \<and>
          ErrorMessage d = Some (''upload failed: '' @ err_text e') \<and> q' = q \<or>
        e = Errorf ''update minio path'' e' \<and> Status d = StatusProcessing \<and> q' = q \<or>
        e = Errorf ''enqueue extraction'' e' \<and> Status d = StatusProcessing))"
proof -
  have id: "uuid_in p (gen_uuid p) = Some (gen_uuid p)" using first_row_sel(5)[of p] by (simp add: assms(1))
  have new: "doc_ID d = gen_uuid p \<and> Status d = StatusProcessing \<and> gen_uuid p \<notin> doc_ID ` set (documents db) \<and>
      d \<in> set (documents db1)" if "CreateDocument p userID nm [] h sz db = (Inr d, db1)" for nm h sz d db1
    using that by (elim CreateDocument_Inr) auto
  from run show ?thesis
  proof (cases rule: ds_Upload_error)
    case reading
    then show ?thesis by simp
  next
    case create
    then show ?thesis using document_errors(1) by auto
  next
    case (store nm h d db1 e' r)
    let ?f = "\<lambda>d. d\<lparr>Status := StatusFailed, ErrorMessage := Some (''upload failed: '' @ err_text e'), UpdatedAt := now p\<rparr>"
    from store(1) new have d: "doc_ID d = gen_uuid p" "gen_uuid p \<notin> doc_ID ` set (documents db)" "d \<in> set (documents db1)"
      by auto
    have "MarkFailed p (doc_ID d) (''upload failed: '' @ err_text e') db1 = (Inr (), update_document (doc_ID d) ?f db1)"
      using assms(3) d(1) id by (simp add: MarkFailed_Inr)
    with store(3) have "?f d \<in> set (documents db')" using in_update_document[OF d(3), of ?f] by simp
    with store d show ?thesis by (intro disjI2 bexI[of _ "?f d"] exI[of _ e']) simp_all
  next
    case (path nm h d db1 e')
    then have "db' = db1" using document_errors(4) by auto
    with path new show ?thesis by (intro disjI2 bexI[of _ d] exI[of _ e']) auto
  next
    case (queue nm h d db1 e')
    let ?f = "\<lambda>d. d\<lparr>OriginalMinioPath := original_path (gen_uuid p), UpdatedAt := now p\<rparr>"
    from queue(1) new have d: "doc_ID d = gen_uuid p" "Status d = StatusProcessing"
      "gen_uuid p \<notin> doc_ID ` set (documents db)" "d \<in> set (documents db1)" by auto
    with queue(3) id have "db' = update_document (doc_ID d) ?f db1" by (simp add: UpdateOriginalPath_Inr)
    then have "?f d \<in> set (documents db')" using in_update_document[OF d(4), of ?f] by simp
    with queue d show ?thesis by (intro disjI2 bexI[of _ "?f d"] exI[of _ e']) simp_all
  qed
qed

theorem Document_upload_failed_witness:
  "\<exists>e db' s' q'. ds_Upload (postgres_docs (demo_pg ''d1'' 1)) (minio_as_storage demo_minio) (AsynqEnqueuer broken_queue) ''u1''
       (demo_pdf ''%PDF-1.4 x'') (demo_users, mock_with (\<lambda>_. None), []) = (Inl e, db', s', q') \<and>
     e = Errorf ''enqueue extraction'' (Opaque ''redis down'') \<and>
     (\<exists>d \<in> set (documents db'). Status d = StatusProcessing)"
proof -
  let ?run = "ds_Upload (postgres_docs (demo_pg ''d1'' 1)) (minio_as_storage demo_minio) (AsynqEnqueuer broken_queue) ''u1''
       (demo_pdf ''%PDF-1.4 x'') (demo_users, mock_with (\<lambda>_. None), [])"
  have prep: "prepare_document (demo_pdf ''%PDF-1.4 x'') = Inr (hash_of ''%PDF-1.4 x'', ''a.pdf'', Inr ''%PDF-1.4 x'')"
    by (rule prepare_demo_pdf) simp
  have "\<exists>db' s' q'. ?run = (Inl (Errorf ''enqueue extraction'' (Opaque ''redis down'')), db', s', q') \<and> db' \<noteq> demo_users"
    by (simp add: ds_Upload_def prep ds_demo_defs broken_queue_def document_defs auto_commit_def file_demo_defs
        demo_pdf_Size int8_ok_def list_all_iff Let_def)
  then obtain db' s' q' where r: "?run = (Inl (Errorf ''enqueue extraction'' (Opaque ''redis down'')), db', s', q')" "db' \<noteq> demo_users"
    by blast
  have "db_constraints demo_users" by (simp add: db_constraints_def file_demo_defs)
  from Document_upload_failed[OF demo_pg_first_row this _ r(1)] r show ?thesis by auto
qed

section \<open>Archives\<close>

text \<open>C26: An archive that was delivered without an error has exactly one entry for each stored
  page of the requested range, cut at the page count, of a ready document of the caller,
  named by the page's number, in strictly ascending order. The body of an entry is what the
  page's presigned URL answered, whatever the HTTP status of that answer was; it is the
  stored page if a URL that answers at all answers with the object it was made for.\<close>

theorem Document_archive:
  assumes "db_constraints db" and "first_row p = p" and "s3_semantics (client mc) (bucketName mc) objects"
    and run: "ds_GetPageRange (postgres_docs p) (minio_as_storage mc) http docID userID a b (db, s) = (None, Some es)"
  shows "\<exists>d ps. d \<in> set (documents db) \<and> uuid_in p docID = Some (doc_ID d) \<and> uuid_in p userID = Some (doc_UserID d) \<and>
     Status d = StatusReady \<and>
     set ps = {pg \<in> set (document_pages db). page_DocumentID pg = doc_ID d \<and> max 1 a \<le> PageNumber pg \<and>
        PageNumber pg \<le> (case TotalPages d of Some t \<Rightarrow> min b t | None \<Rightarrow> b)} \<and>
     sorted_wrt (<) (map PageNumber ps) \<and> ps \<noteq> [] \<and>
     map fst es = map (\<lambda>p. ''page_'' @ itoa (PageNumber p) @ ''.pdf'') ps \<and>
     list_all2 (\<lambda>p e. \<exists>url status. minio_GetPresignedURL mc (MinioPath p) s = Inr url \<and>
        http_Get http url = Inr (status, snd e, None)) ps es \<and>
     ((\<forall>key url status body. minio_GetPresignedURL mc key s = Inr url \<and> http_Get http url = Inr (status, body, None) \<longrightarrow>
         objects s key = Some body) \<longrightarrow>
      list_all2 (\<lambda>p e. objects s (MinioPath p) = Some (snd e)) ps es)"
proof -
  have docs: "document_service (postgres_docs p) (uuid_in p) db_constraints pg_docs pg_pages (minio_as_storage mc) objects"
    using pg_minio_docs[OF assms(3), of p] by (simp add: assms(2))
  have served: "list_all2 (\<lambda>p e. objects s (MinioPath p) = Some (snd e)) ps es"
    if "list_all2 (\<lambda>p e. \<exists>url status. minio_GetPresignedURL mc (MinioPath p) s = Inr url \<and>
        http_Get http url = Inr (status, snd e, None)) ps es"
      and "\<forall>key url status body. minio_GetPresignedURL mc key s = Inr url \<and> http_Get http url = Inr (status, body, None) \<longrightarrow>
         objects s key = Some body" for ps
    using that(1) by (rule list_all2_mono) (use that(2) in blast)
  from document_service.get_range_archive[OF docs run assms(1)] obtain d ps where
    "d \<in> set (documents db)" "uuid_in p docID = Some (doc_ID d)" "uuid_in p userID = Some (doc_UserID d)" "Status d = StatusReady"
    "set ps = {pg \<in> set (document_pages db). page_DocumentID pg = doc_ID d \<and> max 1 a \<le> PageNumber pg \<and>
        PageNumber pg \<le> (case TotalPages d of Some t \<Rightarrow> min b t | None \<Rightarrow> b)}"
    "sorted_wrt (<) (map PageNumber ps)" "ps \<noteq> []" "map fst es = map (\<lambda>p. ''page_'' @ itoa (PageNumber p) @ ''.pdf'') ps"
    and urls: "list_all2 (\<lambda>p e. \<exists>url status. minio_GetPresignedURL mc (MinioPath p) s = Inr url \<and>
        http_Get http url = Inr (status, snd e, None)) ps es"
    by (auto simp: pg_docs_def pg_pages_def minio_as_storage_def)
  with served[OF urls] show ?thesis by (intro exI[of _ d] exI[of _ ps] conjI impI)
qed

definition demo_http :: http_client where
  "demo_http = \<lparr>NewRequest = (\<lambda>_. Inr ()), http_Get = (\<lambda>url. Inr (200, url, None))\<rparr>"

lemma pair_option: "fst x = a \<Longrightarrow> map_option f (snd x) = Some y \<Longrightarrow> \<exists>z. x = (a, Some z) \<and> f z = y"
  by (cases x) auto

theorem Document_archive_witness:
  "\<exists>es. ds_GetPageRange (postgres_docs (demo_pg ''x'' 1)) (minio_as_storage demo_minio) demo_http ''d2'' ''u1'' 1 9
      (paged_db, mock_with (\<lambda>_. None)) = (None, Some es) \<and> map fst es = [''page_1.pdf'', ''page_2.pdf''] \<and>
    (\<exists>d \<in> set (documents paged_db). Status d = StatusReady)"
proof -
  let ?run = "ds_GetPageRange (postgres_docs (demo_pg ''x'' 1)) (minio_as_storage demo_minio) demo_http ''d2'' ''u1'' 1 9
      (paged_db, mock_with (\<lambda>_. None))"
  have a: "fst ?run = None" and b: "map_option (map fst) (snd ?run) = Some [''page_1.pdf'', ''page_2.pdf'']"
    by code_simp+
  obtain es where r: "?run = (None, Some es)" "map fst es = [''page_1.pdf'', ''page_2.pdf'']"
    using pair_option[OF a b] by (elim exE conjE)
  from Document_archive[OF paged_db_constraints demo_pg_first_row demo_minio_s3 r(1)]
  have "\<exists>d \<in> set (documents paged_db). Status d = StatusReady" by (elim exE conjE) (rule bexI)
  with r show ?thesis by (intro exI[of _ es] conjI)
qed

section \<open>Deletion\<close>

text \<open>C25: A deletion removes a document of the caller with all its pages and webhooks, and
  nothing else from the database; its goroutine removes the original and every page
  object of the document if the storage removes what it is asked to, and touches no
  other object in any case.\<close>

theorem Document_delete:
  assumes "db_constraints db" and "first_row p = p" and "s3_semantics (client mc) (bucketName mc) objects"
    and run: "ds_DeleteDocument (postgres_docs p) docID userID db = (Inr (), db', ks)"
  shows "\<exists>d \<in> set (documents db). uuid_in p docID = Some (doc_ID d) \<and> uuid_in p userID = Some (doc_UserID d) \<and>
     db' = delete_document (doc_ID d) db \<and>
     (\<forall>d' \<in> set (documents db'). doc_ID d' \<noteq> doc_ID d) \<and>
     (\<forall>pg \<in> set (document_pages db'). page_DocumentID pg \<noteq> doc_ID d) \<and>
     (\<forall>w \<in> set (webhook_subscriptions db'). hook_DocumentID w \<noteq> doc_ID d) \<and>
     (let owned = insert (OriginalMinioPath d) (MinioPath ` {pg \<in> set (document_pages db). page_DocumentID pg = doc_ID d});
          s' = delete_objects (minio_as_storage mc) ks s
      in (\<forall>k. k \<notin> owned \<longrightarrow> objects s' k = objects s k) \<and>
         ((\<forall>k s. \<exists>s'. minio_Delete mc k s = (Inr (), s')) \<longrightarrow> (\<forall>k \<in> owned. objects s' k = None)))"
proof -
  have docs: "document_service (postgres_docs p) (uuid_in p) db_constraints pg_docs pg_pages (minio_as_storage mc) objects"
    using pg_minio_docs[OF assms(3), of p] by (simp add: assms(2))
  from document_service.delete_document[OF docs run assms(1)] obtain d where d: "d \<in> set (documents db)"
    "uuid_in p docID = Some (doc_ID d)" "uuid_in p userID = Some (doc_UserID d)"
    and ks: "set ks = insert (OriginalMinioPath d) (MinioPath ` {pg \<in> set (document_pages db). page_DocumentID pg = doc_ID d})"
    by (auto simp: pg_docs_def pg_pages_def)
  have "db' = delete_document (doc_ID d) db"
    using run d by (auto simp: ds_DeleteDocument_def split: sum.splits prod.splits dest!: DeleteDocument_Inr)
  then show ?thesis
    using d document_service.delete_objects_frame[OF docs] document_service.delete_objects_gone[OF docs]
    by (intro bexI[of _ d]) (auto simp: Let_def ks[symmetric] delete_document_def minio_as_storage_def)
qed

theorem Document_delete_witness:
  "\<exists>db' ks. ds_DeleteDocument (postgres_docs (demo_pg ''x'' 1)) ''d2'' ''u1'' paged_db = (Inr (), db', ks) \<and>
     map doc_ID (documents db') = [''d1''] \<and> map page_ID (document_pages db') = [''p1''] \<and>
     (\<forall>pg \<in> set (document_pages db'). page_DocumentID pg \<noteq> ''d2'') \<and> length ks = 3"
proof -
  let ?run = "ds_DeleteDocument (postgres_docs (demo_pg ''x'' 1)) ''d2'' ''u1'' paged_db"
  have "fst ?run = Inr ()" "map doc_ID (documents (fst (snd ?run))) = [''d1'']"
    "map page_ID (document_pages (fst (snd ?run))) = [''p1'']" "length (snd (snd ?run)) = 3"
    by code_simp+
  then obtain db' ks where r: "?run = (Inr (), db', ks)" "map doc_ID (documents db') = [''d1'']"
    "map page_ID (document_pages db') = [''p1'']" "length ks = 3"
    by (metis prod.collapse)
  from Document_delete[OF paged_db_constraints demo_pg_first_row demo_minio_s3 r(1), of "mock_with (\<lambda>_. None)"]
  have "\<forall>pg \<in> set (document_pages db'). page_DocumentID pg \<noteq> ''d2''" by auto
  with r show ?thesis by (intro exI conjI)
qed

end
