(* ===== verification/DocumentHandlers.thy ===== *)
theory DocumentHandlers
  imports DocumentService FileHandlers
begin

text \<open>
  The HTTP handlers of documents, \<open>handlers/documents.go\<close>, over the document service, and
  the profile handler, \<open>handlers/users.go\<close>. What \<open>c.FormFile\<close> and \<open>c.ShouldBindJSON\<close> find
  in a request body are parameters.
\<close>

section \<open>Documents\<close>

definition json_upload_result :: "doc_upload_result \<Rightarrow> json" where
  "json_upload_result r = JObj [(''document_id'', JStr (upl_DocumentID r)),
     (''status'', JStr (status_text (upl_Status r))), (''filename'', JStr (upl_Filename r))]"

definition json_page_with_url :: "page_with_url \<Rightarrow> json" where
  "json_page_with_url p = JObj [(''page'', JInt (pwu_PageNumber p)), (''size_bytes'', JInt (pwu_SizeBytes p)),
     (''url'', JStr (pwu_URL p))]"

definition doc_Upload ::
  "(string \<Rightarrow> bytes \<Rightarrow> go_error + pdf_header) \<Rightarrow> 'm document_repository \<Rightarrow> 's storage \<Rightarrow> 'q task_enqueuer \<Rightarrow>
     ('m \<times> 's \<times> 'q) handler" where
  "doc_Upload FormFile repo st enq c w =
     (let userID = GetUserID c
      in case FormFile ''file'' (req_body c) of
           Inl e \<Rightarrow> (error_response 400 ''field 'file' is required'', w)
         | Inr hdr \<Rightarrow>
             (case ds_Upload repo st enq userID hdr w of
                (Inl e, w') \<Rightarrow>
                  (unless_panic e
                    (if errors_is e ErrInvalidPDF then error_response 422 ''uploaded file is not a valid PDF''
                     else if errors_is e ErrQuotaExceeded then error_response 429 ''storage quota exceeded''
                     else error_response 500 (err_text e)), w')
              | (Inr result, w') \<Rightarrow> (json_response 202 (json_upload_result result), w')))"

definition doc_GetDocument :: "'m document_repository \<Rightarrow> 'm handler" where
  "doc_GetDocument repo c m =
     (let userID = GetUserID c; docID = param c ''id''
      in case ds_GetDocument repo docID userID m of
           Inl e \<Rightarrow> (not_found_or_500 ''document not found'' e, m)
         | Inr doc \<Rightarrow> (json_response 200 (json_document doc), m))"

definition doc_ListDocuments :: "'m document_repository \<Rightarrow> 'm handler" where
  "doc_ListDocuments repo c m =
     (let userID = GetUserID c
      in case ds_ListDocuments repo userID m of
           Inl e \<Rightarrow> (unless_panic e (error_response 500 (err_text e)), m)
         | Inr docs \<Rightarrow>
             (json_response 200 (JObj [(''documents'', json_slice json_document docs),
                (''count'', JInt (int (length docs)))]), m))"

definition still_processing :: json where
  "still_processing = JObj [(''error'', JStr ''document is still processing''), (''status'', JStr ''processing'')]"

text \<open>The answer to an error of a page lookup.\<close>

definition page_error :: "string \<Rightarrow> go_error \<Rightarrow> response" where
  "page_error what e =
     unless_panic e
       (if errors_is e ErrNotFound then error_response 404 what
        else if errors_is e ErrDocumentNotReady then json_response 409 still_processing
        else error_response 500 (err_text e))"

definition doc_GetPage :: "'m document_repository \<Rightarrow> 's storage \<Rightarrow> ('m \<times> 's) handler" where
  "doc_GetPage repo st c w =
     (let userID = GetUserID c; docID = param c ''id'';
          bad = error_response 400 ''page must be a positive integer''
      in case parse_int64 (param c ''page'') of
           None \<Rightarrow> (bad, w)
         | Some pageNum \<Rightarrow>
             if pageNum < 1 then (bad, w)
             else (case ds_GetPage repo st docID userID pageNum w of
                     Inl e \<Rightarrow> (page_error (''page '' @ itoa pageNum @ '' not found'') e, w)
                   | Inr url \<Rightarrow>
                       (json_response 200 (JObj [(''url'', JStr url), (''page'', JInt pageNum),
                          (''document_id'', JStr docID)]), w)))"

text \<open>
  The ZIP handler sets the headers of an attachment before it calls the service, so they
  go with every later answer. A document that does not exist makes the handler abort
  with nothing written. Once the archive has been begun, the status 200 has gone out and
  an error can only be appended to the body. \<open>docID[:8]\<close> panics on a shorter id.
\<close>

definition zip_name :: "string \<Rightarrow> int \<Rightarrow> int \<Rightarrow> string" where
  "zip_name docID p_start p_end =
     ''document_'' @ take 8 docID @ ''_pages_'' @ itoa p_start @ ''-'' @ itoa p_end @ ''.zip''"

definition zip_answer :: "string \<Rightarrow> go_error option \<times> (string \<times> bytes) list option \<Rightarrow> response" where
  "zip_answer name r =
     (let (err, archive) = r;
          answer = (\<lambda>code body. \<lparr>resp_status = (if archive = None then code else 200), resp_payload = Zip name archive body\<rparr>)
      in case err of
           None \<Rightarrow> answer 200 None
         | Some e \<Rightarrow>
             unless_panic e
               (if errors_is e ErrNotFound then answer 200 None
                else if errors_is e ErrDocumentNotReady then answer 409 (Some still_processing)
                else answer 500 (Some (JObj [(''error'', JStr (err_text e))]))))"

definition doc_GetPageRange :: "'m document_repository \<Rightarrow> 's storage \<Rightarrow> http_client \<Rightarrow> ('m \<times> 's) handler" where
  "doc_GetPageRange repo st http c w =
     (let userID = GetUserID c; docID = param c ''id'';
          bad_start = error_response 400 ''start must be a positive integer'';
          bad_end = error_response 400 ''end must be a positive integer''
      in case parse_int64 (DefaultQuery c ''start'' ''1'') of
           None \<Rightarrow> (bad_start, w)
         | Some p_start \<Rightarrow>
             if p_start < 1 then (bad_start, w)
             else (case parse_int64 (Query c ''end'') of
                     None \<Rightarrow> (bad_end, w)
                   | Some p_end \<Rightarrow>
                       if p_end < 1 then (bad_end, w)
                       else if p_start > p_end then (error_response 400 ''start must be <= end'', w)
                       else if length docID < 8
                       then (unless_panic (Panic ''slice bounds out of range'') silent_response, w)
                       else (zip_answer (zip_name docID p_start p_end)
                               (ds_GetPageRange repo st http docID userID p_start p_end w), w)))"

record webhook_request =
  wreq_URL :: string
  wreq_Secret :: string

definition doc_RegisterWebhook ::
  "(bytes \<Rightarrow> go_error + webhook_request) \<Rightarrow> 'm document_repository \<Rightarrow> 'm handler" where
  "doc_RegisterWebhook ShouldBindJSON repo c m =
     (let userID = GetUserID c; docID = param c ''id''
      in case ShouldBindJSON (req_body c) of
           Inl e \<Rightarrow> (error_response 400 (err_text e), m)
         | Inr req \<Rightarrow>
             (case ds_RegisterWebhook repo userID docID (wreq_URL req) (wreq_Secret req) m of
                (Inl e, m') \<Rightarrow> (not_found_or_500 ''document not found'' e, m')
              | (Inr hook, m') \<Rightarrow> (json_response 201 (json_webhook hook), m')))"

definition doc_ListPages :: "'m document_repository \<Rightarrow> 's storage \<Rightarrow> ('m \<times> 's) handler" where
  "doc_ListPages repo st c w =
     (let userID = GetUserID c; docID = param c ''id''
      in case ds_ListPages repo st docID userID w of
           Inl e \<Rightarrow> (page_error ''document not found'' e, w)
         | Inr pages \<Rightarrow>
             (json_response 200 (JObj [(''document_id'', JStr docID), (''count'', JInt (int (length pages))),
                (''pages'', JArr (map json_page_with_url pages))]), w))"

text \<open>The state has, beside the repository, the object keys that deletion goroutines still
  have to remove.\<close>

definition doc_DeleteDocument :: "'m document_repository \<Rightarrow> ('m \<times> string list) handler" where
  "doc_DeleteDocument repo c w =
     (let userID = GetUserID c; docID = param c ''id''
      in case ds_DeleteDocument repo docID userID (fst w) of
           (Inl e, m', _) \<Rightarrow> (not_found_or_500 ''document not found'' e, m', snd w)
         | (Inr _, m', ks) \<Rightarrow> (json_response 200 (JObj [(''message'', JStr ''document deleted'')]), m', snd w @ ks))"

section \<open>The profile\<close>

text \<open>\<open>used_pct\<close> is a 64-bit float: \<open>pct\<close> stands for Go's conversion and division of the
  two counters, with the guard against a zero quota as in the code.\<close>

definition usedPct :: "(int \<Rightarrow> int \<Rightarrow> json) \<Rightarrow> int \<Rightarrow> int \<Rightarrow> json" where
  "usedPct pct used quota = (if quota = 0 then JInt 0 else pct used quota)"

definition count_status :: "document_status \<Rightarrow> document list \<Rightarrow> int" where
  "count_status st docs = int (length (filter (\<lambda>d. Status d = st) docs))"

definition Me :: "pg \<Rightarrow> (int \<Rightarrow> int \<Rightarrow> json) \<Rightarrow> database handler" where
  "Me p pct c db =
     (let userID = GetUserID c
      in case GetUserByID p userID db of
           Inl e \<Rightarrow> (not_found_or_500 ''user not found'' e, db)
         | Inr u \<Rightarrow>
             (case ListDocuments p userID db of
                Inl e \<Rightarrow> (unless_panic e (error_response 500 (err_text e)), db)
              | Inr docs \<Rightarrow>
                  (json_response 200 (JObj [
                     (''id'', JStr (user_ID u)),
                     (''email'', JStr (Email u)),
                     (''storage'', JObj [
                        (''used_bytes'', JInt (StorageBytesUsed u)),
                        (''quota_bytes'', JInt (StorageQuotaBytes u)),
                        (''used_pct'', usedPct pct (StorageBytesUsed u) (StorageQuotaBytes u))]),
                     (''documents'', JObj [
                        (''total'', JInt (int (length docs))),
                        (''ready'', JInt (count_status StatusReady docs)),
                        (''processing'', JInt (count_status StatusProcessing docs)),
                        (''failed'', JInt (count_status StatusFailed docs))]),
                     (''created_at'', JTime (user_CreatedAt u))]), db)))"

section \<open>Lemmas\<close>

lemma page_error_status:
  "resp_status (page_error what e) =
     (if errors_is e ErrNotFound then 404 else if errors_is e ErrDocumentNotReady then 409 else 500)"
  by (cases e) (simp_all add: page_error_def unless_panic_def)

lemma page_error_names: "response_names (page_error what e) \<subseteq> {''error'', ''status''}"
  by (cases e) (simp_all add: page_error_def unless_panic_def still_processing_def)

text \<open>The three counts of the profile add up.\<close>

lemma count_status_total:
  "count_status StatusReady ds + count_status StatusProcessing ds + count_status StatusFailed ds = int (length ds)"
proof (induction ds)
  case Nil
  then show ?case by (simp add: count_status_def)
next
  case (Cons d ds)
  then show ?case by (cases "Status d") (simp_all add: count_status_def)
qed

end
