(* ===== verification/DocumentHandlerClaims.thy ===== *)
theory DocumentHandlerClaims
  imports DocumentHandlers DocumentServiceClaims HandlerClaims
begin

text \<open>
  The properties of the document handlers: which status a page request gets, what a
  request for a missing archive is answered, and that no answer shows where objects
  are stored.
\<close>

section \<open>Pages\<close>









section \<open>Archives\<close>



section \<open>What responses never show\<close>

text \<open>The field names of each handler's responses.\<close>

lemma document_response_names:
  "response_names (fst (doc_Upload FormFile repo st enq c w)) \<subseteq> {''error'', ''document_id'', ''status'', ''filename''} \<union> {}"
  "response_names (fst (doc_GetDocument repo c m)) \<subseteq> {''error''} \<union> (\<Union>d. json_names (json_document d))"
  "response_names (fst (doc_ListDocuments repo c m)) \<subseteq> {''error'', ''documents'', ''count''} \<union> (\<Union>d. json_names (json_document d))"
  "response_names (fst (doc_GetPage repo st c ms)) \<subseteq> {''error'', ''status'', ''url'', ''page'', ''document_id''} \<union> {}"
  "response_names (fst (doc_ListPages repo st c ms)) \<subseteq>
     {''error'', ''status'', ''document_id'', ''count'', ''pages''} \<union> (\<Union>g. json_names (json_page_with_url g))"
  "response_names (fst (doc_RegisterWebhook bind repo c m)) \<subseteq> {''error''} \<union> (\<Union>h. json_names (json_webhook h))"
  "response_names (fst (doc_DeleteDocument repo c mk)) \<subseteq> {''error'', ''message''} \<union> {}"
  by (auto simp: doc_Upload_def doc_GetDocument_def doc_ListDocuments_def doc_GetPage_def doc_ListPages_def
      doc_RegisterWebhook_def doc_DeleteDocument_def Let_def json_upload_result_def json_names_slice
      split: sum.splits prod.splits option.splits
      dest!: names_panic[THEN subsetD] names_not_found[THEN subsetD] page_error_names[THEN subsetD])

text \<open>No response of the document handlers has a field for an object path
  or a webhook secret.\<close>

theorem document_responses_hide_internals:
  "response_names (fst (doc_Upload FormFile repo st enq c w)) \<inter> {''original_minio_path'', ''minio_path'', ''secret''} = {} \<and>
   response_names (fst (doc_GetDocument repo c m)) \<inter> {''original_minio_path'', ''minio_path'', ''secret''} = {} \<and>
   response_names (fst (doc_ListDocuments repo c m)) \<inter> {''original_minio_path'', ''minio_path'', ''secret''} = {} \<and>
   response_names (fst (doc_GetPage repo st c ms)) \<inter> {''original_minio_path'', ''minio_path'', ''secret''} = {} \<and>
   response_names (fst (doc_ListPages repo st c ms)) \<inter> {''original_minio_path'', ''minio_path'', ''secret''} = {} \<and>
   response_names (fst (doc_RegisterWebhook bind repo c m)) \<inter> {''original_minio_path'', ''minio_path'', ''secret''} = {} \<and>
   response_names (fst (doc_DeleteDocument repo c mk)) \<inter> {''original_minio_path'', ''minio_path'', ''secret''} = {}"
proof -
  let ?S = "{''original_minio_path'', ''minio_path'', ''secret''}"
  have docs: "(\<Union>d. json_names (json_document d)) \<inter> ?S = {}" using json_document_names by fastforce
  have hooks: "(\<Union>h. json_names (json_webhook h)) \<inter> ?S = {}" by (auto simp: json_webhook_def)
  have pages: "(\<Union>g. json_names (json_page_with_url g)) \<inter> ?S = {}" by (auto simp: json_page_with_url_def)
  note names = document_response_names
  show ?thesis
    by (intro conjI disjoint_sub[OF names(1) _ Int_empty_left] disjoint_sub[OF names(2) _ docs]
        disjoint_sub[OF names(3) _ docs] disjoint_sub[OF names(4) _ Int_empty_left] disjoint_sub[OF names(5) _ pages]
        disjoint_sub[OF names(6) _ hooks] disjoint_sub[OF names(7) _ Int_empty_left]) simp_all
qed

end
