(* ===== verification/TestDoubles.thy ===== *)
theory TestDoubles
  imports DocumentService AuthHandlers "HOL-Library.AList"
begin

text \<open>
  The in-memory test doubles of \<open>testutil/testutil.go\<close> next to \<open>MockStorage\<close> (theory
  ObjectStore): \<open>MockMeta\<close>, \<open>MockDocStore\<close> and \<open>MockEnqueuer\<close>. A Go map that is iterated
  over is an association list without repeated keys; \<open>it\<close> is the order in which an
  iteration visits its values, which the language leaves open. \<open>MockDocStore\<close> and the
  users of \<open>MockMeta\<close> satisfy the laws of the interfaces they stand in for.
\<close>

definition zero_time :: time where
  "zero_time = - 62135596800 * second"

text \<open>\<open>s[:8]\<close>, which panics on a shorter string.\<close>

definition first8 :: "string \<Rightarrow> go_error + string" where
  "first8 s = (if length s < 8 then Inl (Panic ''slice bounds out of range'') else Inr (take 8 s))"

section \<open>MockMeta\<close>

record mock_meta =
  mm_users :: "(string \<times> user) list"
  mm_files :: "(string \<times> file_meta) list"
  mm_byHash :: "string \<Rightarrow> file_meta option"
  SaveErr :: "go_error option"
  mm_DeleteErr :: "go_error option"

definition NewMockMeta :: mock_meta where
  "NewMockMeta = \<lparr>mm_users = [], mm_files = [], mm_byHash = (\<lambda>_. None), SaveErr = None, mm_DeleteErr = None\<rparr>"

definition mm_AddUser :: "user \<Rightarrow> mock_meta \<Rightarrow> mock_meta" where
  "mm_AddUser u m = m\<lparr>mm_users := AList.update (user_ID u) u (mm_users m)\<rparr>"

definition mm_AddFile :: "file_meta \<Rightarrow> mock_meta \<Rightarrow> mock_meta" where
  "mm_AddFile f m = m\<lparr>mm_files := AList.update (file_ID f) f (mm_files m),
                      mm_byHash := (mm_byHash m)(SHA256 f \<mapsto> f)\<rparr>"

definition mm_GetByHash :: "string \<Rightarrow> mock_meta \<Rightarrow> go_error + file_meta" where
  "mm_GetByHash hash m = (case mm_byHash m hash of None \<Rightarrow> Inl ErrNotFound | Some f \<Rightarrow> Inr f)"

definition mm_GetByID :: "string \<Rightarrow> string \<Rightarrow> mock_meta \<Rightarrow> go_error + file_meta" where
  "mm_GetByID i userID m =
     (case map_of (mm_files m) i of
        None \<Rightarrow> Inl ErrNotFound
      | Some f \<Rightarrow> if file_UserID f \<noteq> userID \<or> DeletedAt f \<noteq> None then Inl ErrNotFound else Inr f)"

definition mm_ListByUser :: "(file_meta list \<Rightarrow> file_meta list) \<Rightarrow> string \<Rightarrow> mock_meta \<Rightarrow> go_error + file_meta list" where
  "mm_ListByUser it userID m =
     Inr (filter (\<lambda>f. file_UserID f = userID \<and> DeletedAt f = None) (it (map snd (mm_files m))))"

text \<open>\<open>t\<close> is what \<open>time.Now\<close> gives.\<close>

definition mm_Save ::
  "time \<Rightarrow> string \<Rightarrow> string \<Rightarrow> string \<Rightarrow> string \<Rightarrow> string \<Rightarrow> int \<Rightarrow> mock_meta \<Rightarrow> (go_error + save_result) \<times> mock_meta" where
  "mm_Save t userID objectKey sha256Hash contentType originalName sz m =
     (case SaveErr m of
        Some e \<Rightarrow> (Inl e, m)
      | None \<Rightarrow>
          (let isDup = (mm_byHash m sha256Hash \<noteq> None)
           in case first8 sha256Hash of
                Inl e \<Rightarrow> (Inl e, m)
              | Inr h8 \<Rightarrow>
                  (let f = \<lparr>file_ID = ''file-'' @ h8, file_UserID = userID, ObjectKey = objectKey,
                        SHA256 = sha256Hash, Size = sz, ContentType = contentType, RefCount = 0,
                        OriginalName = originalName, file_CreatedAt = t, DeletedAt = None\<rparr>
                   in (Inr \<lparr>File = f, Duplicate = isDup\<rparr>,
                       m\<lparr>mm_files := AList.update (file_ID f) f (mm_files m),
                         mm_byHash := (mm_byHash m)(sha256Hash \<mapsto> f)\<rparr>))))"

definition mm_Delete :: "string \<Rightarrow> string \<Rightarrow> mock_meta \<Rightarrow> (go_error + delete_result) \<times> mock_meta" where
  "mm_Delete fileID userID m =
     (case mm_DeleteErr m of
        Some e \<Rightarrow> (Inl e, m)
      | None \<Rightarrow>
          (case map_of (mm_files m) fileID of
             None \<Rightarrow> (Inl ErrNotFound, m)
           | Some f \<Rightarrow>
               if file_UserID f \<noteq> userID then (Inl ErrNotFound, m)
               else (Inr \<lparr>res_ObjectKey = ObjectKey f, ShouldDeleteObject = True\<rparr>,
                     m\<lparr>mm_files := AList.delete fileID (mm_files m),
                       mm_byHash := (mm_byHash m)(SHA256 f := None)\<rparr>)))"

definition mm_CreateUser :: "time \<Rightarrow> string \<Rightarrow> string \<Rightarrow> int \<Rightarrow> mock_meta \<Rightarrow> (go_error + user) \<times> mock_meta" where
  "mm_CreateUser t email passwordHash quotaBytes m =
     (if \<exists>u \<in> snd ` set (mm_users m). Email u = email then (Inl (Opaque ''duplicate email''), m)
      else let u = \<lparr>user_ID = ''user-'' @ email, Email = email, PasswordHash = passwordHash,
                    StorageBytesUsed = 0, StorageQuotaBytes = quotaBytes, user_CreatedAt = t\<rparr>
           in (Inr u, m\<lparr>mm_users := AList.update (user_ID u) u (mm_users m)\<rparr>))"

definition mm_GetUserByEmail :: "(user list \<Rightarrow> user list) \<Rightarrow> string \<Rightarrow> mock_meta \<Rightarrow> go_error + user" where
  "mm_GetUserByEmail it email m =
     (case filter (\<lambda>u. Email u = email) (it (map snd (mm_users m))) of
        [] \<Rightarrow> Inl ErrNotFound
      | u # _ \<Rightarrow> Inr u)"

definition MockMeta_users :: "time \<Rightarrow> (user list \<Rightarrow> user list) \<Rightarrow> mock_meta user_repository" where
  "MockMeta_users t it = \<lparr>repo_CreateUser = mm_CreateUser t, repo_GetUserByEmail = mm_GetUserByEmail it\<rparr>"

definition MockMeta_files :: "time \<Rightarrow> (file_meta list \<Rightarrow> file_meta list) \<Rightarrow> mock_meta metadata_repository" where
  "MockMeta_files t it = \<lparr>repo_GetByHash = mm_GetByHash, repo_GetByID = mm_GetByID,
     repo_ListByUser = mm_ListByUser it, repo_Save = mm_Save t, repo_Delete = mm_Delete\<rparr>"

section \<open>MockDocStore\<close>

record mock_doc_store =
  md_docs :: "(string \<times> document) list"
  md_pages :: "string \<Rightarrow> (int \<times> document_page) list option"
  md_webhooks :: "string \<Rightarrow> webhook_subscription list"
  CreateErr :: "go_error option"
  GetErr :: "go_error option"
  UpdatePathErr :: "go_error option"
  MarkFailedErr :: "go_error option"
  SavePageErr :: "go_error option"

definition NewMockDocStore :: mock_doc_store where
  "NewMockDocStore = \<lparr>md_docs = [], md_pages = (\<lambda>_. None), md_webhooks = (\<lambda>_. []), CreateErr = None,
     GetErr = None, UpdatePathErr = None, MarkFailedErr = None, SavePageErr = None\<rparr>"

text \<open>The injected failure, if one is set, and else the operation.\<close>

definition hooked :: "go_error option \<Rightarrow> (go_error + 'a) \<times> 'm \<Rightarrow> 'm \<Rightarrow> (go_error + 'a) \<times> 'm" where
  "hooked h r m = (case h of Some e \<Rightarrow> (Inl e, m) | None \<Rightarrow> r)"

definition md_CreateDocument ::
  "string \<Rightarrow> string \<Rightarrow> string \<Rightarrow> string \<Rightarrow> int \<Rightarrow> mock_doc_store \<Rightarrow> (go_error + document) \<times> mock_doc_store" where
  "md_CreateDocument userID filename minioPath sha256 sizeBytes m =
     hooked (CreateErr m)
       (case first8 sha256 of
          Inl e \<Rightarrow> (Inl e, m)
        | Inr h8 \<Rightarrow>
            (let doc = \<lparr>doc_ID = ''doc-'' @ h8, doc_UserID = userID, Filename = filename,
                  OriginalMinioPath = minioPath, doc_SHA256 = sha256, Status = StatusProcessing,
                  TotalPages = None, ErrorMessage = None, doc_SizeBytes = sizeBytes,
                  doc_CreatedAt = zero_time, UpdatedAt = zero_time\<rparr>
             in (Inr doc, m\<lparr>md_docs := AList.update (doc_ID doc) doc (md_docs m)\<rparr>))) m"

definition md_GetDocument :: "string \<Rightarrow> string \<Rightarrow> mock_doc_store \<Rightarrow> go_error + document" where
  "md_GetDocument i userID m =
     (case GetErr m of
        Some e \<Rightarrow> Inl e
      | None \<Rightarrow>
          (case map_of (md_docs m) i of
             None \<Rightarrow> Inl ErrNotFound
           | Some d \<Rightarrow> if doc_UserID d \<noteq> userID then Inl ErrNotFound else Inr d))"

definition md_GetDocumentByID :: "string \<Rightarrow> mock_doc_store \<Rightarrow> go_error + document" where
  "md_GetDocumentByID i m = (case map_of (md_docs m) i of None \<Rightarrow> Inl ErrNotFound | Some d \<Rightarrow> Inr d)"

definition md_ListDocuments :: "(document list \<Rightarrow> document list) \<Rightarrow> string \<Rightarrow> mock_doc_store \<Rightarrow> go_error + document list" where
  "md_ListDocuments it userID m = Inr (filter (\<lambda>d. doc_UserID d = userID) (it (map snd (md_docs m))))"

text \<open>\<open>if d, ok := m.docs[docID]; ok { ... }\<close>: an assignment to fields of a document, if it exists.\<close>

definition md_update :: "string \<Rightarrow> (document \<Rightarrow> document) \<Rightarrow> mock_doc_store \<Rightarrow> mock_doc_store" where
  "md_update docID f m =
     (case map_of (md_docs m) docID of
        None \<Rightarrow> m
      | Some d \<Rightarrow> m\<lparr>md_docs := AList.update docID (f d) (md_docs m)\<rparr>)"

definition md_MarkReady :: "string \<Rightarrow> int \<Rightarrow> mock_doc_store \<Rightarrow> (go_error + unit) \<times> mock_doc_store" where
  "md_MarkReady docID totalPages m =
     (Inr (), md_update docID (\<lambda>d. d\<lparr>Status := StatusReady, TotalPages := Some totalPages\<rparr>) m)"

definition md_MarkFailed :: "string \<Rightarrow> string \<Rightarrow> mock_doc_store \<Rightarrow> (go_error + unit) \<times> mock_doc_store" where
  "md_MarkFailed docID errMsg m =
     hooked (MarkFailedErr m)
       (Inr (), md_update docID (\<lambda>d. d\<lparr>Status := StatusFailed, ErrorMessage := Some errMsg\<rparr>) m) m"

definition md_UpdateOriginalPath :: "string \<Rightarrow> string \<Rightarrow> mock_doc_store \<Rightarrow> (go_error + unit) \<times> mock_doc_store" where
  "md_UpdateOriginalPath docID path m =
     hooked (UpdatePathErr m) (Inr (), md_update docID (\<lambda>d. d\<lparr>OriginalMinioPath := path\<rparr>) m) m"

definition mock_page :: "string \<Rightarrow> int \<Rightarrow> string \<Rightarrow> int \<Rightarrow> document_page" where
  "mock_page docID n path sz =
     \<lparr>page_ID = ''page-'' @ docID @ ''-'' @ itoa n, page_DocumentID = docID, PageNumber = n,
      MinioPath = path, page_SizeBytes = sz\<rparr>"

text \<open>A missing inner map is made before it is written to.\<close>

definition md_put_page :: "string \<Rightarrow> document_page \<Rightarrow> mock_doc_store \<Rightarrow> mock_doc_store" where
  "md_put_page docID p m =
     (let ps = (case md_pages m docID of None \<Rightarrow> [] | Some ps \<Rightarrow> ps)
      in m\<lparr>md_pages := (md_pages m)(docID \<mapsto> AList.update (PageNumber p) p ps)\<rparr>)"

definition md_SavePage ::
  "string \<Rightarrow> int \<Rightarrow> string \<Rightarrow> int \<Rightarrow> mock_doc_store \<Rightarrow> (go_error + document_page) \<times> mock_doc_store" where
  "md_SavePage docID pageNumber minioPath sizeBytes m =
     hooked (SavePageErr m)
       (let p = mock_page docID pageNumber minioPath sizeBytes in (Inr p, md_put_page docID p m)) m"

definition md_GetPage :: "string \<Rightarrow> int \<Rightarrow> mock_doc_store \<Rightarrow> go_error + document_page" where
  "md_GetPage docID pageNumber m =
     (case md_pages m docID of
        None \<Rightarrow> Inl ErrNotFound
      | Some ps \<Rightarrow> (case map_of ps pageNumber of None \<Rightarrow> Inl ErrNotFound | Some p \<Rightarrow> Inr p))"

text \<open>The loop \<open>for n := start; n <= end; n++\<close>.\<close>

definition md_GetPageRange :: "string \<Rightarrow> int \<Rightarrow> int \<Rightarrow> mock_doc_store \<Rightarrow> go_error + document_page list" where
  "md_GetPageRange docID p_start p_end m =
     Inr (case md_pages m docID of
            None \<Rightarrow> []
          | Some ps \<Rightarrow> List.map_filter (map_of ps) [p_start..p_end])"

definition md_ListPages :: "(document_page list \<Rightarrow> document_page list) \<Rightarrow> string \<Rightarrow> mock_doc_store \<Rightarrow> go_error + document_page list" where
  "md_ListPages it docID m =
     Inr (case md_pages m docID of None \<Rightarrow> [] | Some ps \<Rightarrow> it (map snd ps))"

definition md_CreateWebhook ::
  "string \<Rightarrow> string \<Rightarrow> string \<Rightarrow> string \<Rightarrow> mock_doc_store \<Rightarrow> (go_error + webhook_subscription) \<times> mock_doc_store" where
  "md_CreateWebhook userID docID url secret m =
     (let w = \<lparr>hook_ID = ''hook-'' @ docID, hook_UserID = userID, hook_DocumentID = docID, hook_URL = url,
               hook_Secret = secret, hook_CreatedAt = zero_time\<rparr>
      in (Inr w, m\<lparr>md_webhooks := (md_webhooks m)(docID := md_webhooks m docID @ [w])\<rparr>))"

definition md_GetWebhooksForDocument :: "string \<Rightarrow> mock_doc_store \<Rightarrow> go_error + webhook_subscription list" where
  "md_GetWebhooksForDocument docID m = Inr (md_webhooks m docID)"

definition md_DeleteDocument :: "string \<Rightarrow> string \<Rightarrow> mock_doc_store \<Rightarrow> (go_error + document) \<times> mock_doc_store" where
  "md_DeleteDocument i userID m =
     (case map_of (md_docs m) i of
        None \<Rightarrow> (Inl ErrNotFound, m)
      | Some d \<Rightarrow>
          if doc_UserID d \<noteq> userID then (Inl ErrNotFound, m)
          else (Inr d, m\<lparr>md_docs := AList.delete i (md_docs m), md_pages := (md_pages m)(i := None)\<rparr>))"

text \<open>The helper that prepares a ready document with its pages.\<close>

definition md_SetReady :: "string \<Rightarrow> int \<Rightarrow> mock_doc_store \<Rightarrow> mock_doc_store" where
  "md_SetReady docID pageCount m =
     (let m = md_update docID (\<lambda>d. d\<lparr>Status := StatusReady, TotalPages := Some pageCount\<rparr>) m;
          m = m\<lparr>md_pages := (md_pages m)(docID \<mapsto> (case md_pages m docID of None \<Rightarrow> [] | Some ps \<Rightarrow> ps))\<rparr>
      in fold (\<lambda>i. md_put_page docID
             (mock_page docID i (''documents/'' @ docID @ ''/pages/'' @ itoa i @ ''.pdf'') 1024)) [1..pageCount] m)"

definition MockDocStore ::
  "(document list \<Rightarrow> document list) \<Rightarrow> (document_page list \<Rightarrow> document_page list) \<Rightarrow> mock_doc_store document_repository" where
  "MockDocStore itd itp = \<lparr>dr_CreateDocument = md_CreateDocument, dr_GetDocument = md_GetDocument,
     dr_GetDocumentByID = md_GetDocumentByID, dr_ListDocuments = md_ListDocuments itd,
     dr_MarkReady = md_MarkReady, dr_MarkFailed = md_MarkFailed, dr_UpdateOriginalPath = md_UpdateOriginalPath,
     dr_SavePage = md_SavePage, dr_GetPage = md_GetPage, dr_GetPageRange = md_GetPageRange,
     dr_ListPages = md_ListPages itp, dr_CreateWebhook = md_CreateWebhook,
     dr_GetWebhooksForDocument = md_GetWebhooksForDocument, dr_DeleteDocument = md_DeleteDocument\<rparr>"

section \<open>MockEnqueuer\<close>

record mock_enqueuer =
  Tasks :: "(string \<times> string) list"
  EnqueueErr :: "go_error option"

definition NewMockEnqueuer :: mock_enqueuer where
  "NewMockEnqueuer = \<lparr>Tasks = [], EnqueueErr = None\<rparr>"

definition me_EnqueueTask :: "string \<Rightarrow> string \<Rightarrow> mock_enqueuer \<Rightarrow> (go_error + unit) \<times> mock_enqueuer" where
  "me_EnqueueTask docID userID q = hooked (EnqueueErr q) (Inr (), q\<lparr>Tasks := Tasks q @ [(docID, userID)]\<rparr>) q"

definition me_Count :: "mock_enqueuer \<Rightarrow> int" where
  "me_Count q = int (length (Tasks q))"

definition MockEnqueuer :: "mock_enqueuer task_enqueuer" where
  "MockEnqueuer = \<lparr>EnqueueTask = me_EnqueueTask\<rparr>"

section \<open>The laws hold\<close>

text \<open>In whatever order a map is iterated over: the interpretations take every rotation
  of the entries.\<close>

lemma hooked_eq:
  "hooked h r m = (Inr x, m') \<longleftrightarrow> h = None \<and> r = (Inr x, m')"
  "hooked h r m = (Inl e, m') \<longleftrightarrow> h = Some e \<and> m' = m \<or> h = None \<and> r = (Inl e, m')"
  by (auto simp: hooked_def split: option.splits)

interpretation mock_users: user_repo "MockMeta_users t (rotate n)" "\<lambda>_. True" for t n
proof unfold_locales
  fix em pw q and m m' :: mock_meta and u
  assume "repo_CreateUser (MockMeta_users t (rotate n)) em pw q m = (Inr u, m')"
  then have none: "\<forall>u \<in> snd ` set (mm_users m). Email u \<noteq> em" and u: "Email u = em" "PasswordHash u = pw" "StorageQuotaBytes u = q"
    and m': "m' = m\<lparr>mm_users := AList.update (user_ID u) u (mm_users m)\<rparr>"
    by (auto simp: MockMeta_users_def mm_CreateUser_def Let_def split: if_splits)
  have "v = u" if "v \<in> snd ` set (AList.update (user_ID u) u us)" "Email v = em"
    "\<forall>u \<in> snd ` set us. Email u \<noteq> em" for v us
    using that by (induction us) (auto split: if_splits)
  with none have "v = u" if "v \<in> snd ` set (mm_users m')" "Email v = em" for v
    using that by (simp add: m')
  then show "True \<and> Email u = em \<and> PasswordHash u = pw \<and> StorageQuotaBytes u = q \<and>
      (\<forall>v. repo_GetUserByEmail (MockMeta_users t (rotate n)) em m' = Inr v \<longrightarrow> v = u)"
    using u by (auto simp: MockMeta_users_def mm_GetUserByEmail_def split: list.splits dest!: filter_hdD)
qed (auto simp: MockMeta_users_def mm_CreateUser_def mm_GetUserByEmail_def Let_def
      split: if_splits list.splits dest!: filter_hdD)

definition md_inv :: "mock_doc_store \<Rightarrow> bool" where
  "md_inv m \<longleftrightarrow> distinct (map fst (md_docs m)) \<and> (\<forall>(k, d) \<in> set (md_docs m). doc_ID d = k) \<and>
     (\<forall>k ps. md_pages m k = Some ps \<longrightarrow>
        distinct (map fst ps) \<and> (\<forall>(n, p) \<in> set ps. page_DocumentID p = k \<and> PageNumber p = n))"

definition md_doc_set :: "mock_doc_store \<Rightarrow> document set" where
  "md_doc_set m = ran (map_of (md_docs m))"

definition md_page_set :: "mock_doc_store \<Rightarrow> document_page set" where
  "md_page_set m = {p. \<exists>k ps. md_pages m k = Some ps \<and> p \<in> ran (map_of ps)}"

lemma md_doc_key: "md_inv m \<Longrightarrow> map_of (md_docs m) k = Some d \<Longrightarrow> doc_ID d = k"
  by (auto simp: md_inv_def dest!: map_of_SomeD)

lemma md_doc_set_iff: "md_inv m \<Longrightarrow> d \<in> md_doc_set m \<longleftrightarrow> map_of (md_docs m) (doc_ID d) = Some d"
  by (auto simp: md_doc_set_def ran_def dest: md_doc_key)

lemma md_page_key:
  "md_inv m \<Longrightarrow> md_pages m k = Some ps \<Longrightarrow> map_of ps n = Some p \<Longrightarrow> page_DocumentID p = k \<and> PageNumber p = n"
  unfolding md_inv_def by (fastforce dest: map_of_SomeD)

lemma md_page_set_iff: "md_inv m \<Longrightarrow> p \<in> md_page_set m \<longleftrightarrow>
    (\<exists>ps. md_pages m (page_DocumentID p) = Some ps \<and> map_of ps (PageNumber p) = Some p)"
  by (auto simp: md_page_set_def ran_def dest: md_page_key)

lemma md_inv_docs:
  assumes "md_inv m" and "distinct (map fst ds)" and "\<And>k d. map_of ds k = Some d \<Longrightarrow> doc_ID d = k"
  shows "md_inv (m\<lparr>md_docs := ds\<rparr>)"
  using assms by (auto simp: md_inv_def)

lemma md_inv_put: "md_inv m \<Longrightarrow> doc_ID d = k \<Longrightarrow> md_inv (m\<lparr>md_docs := AList.update k d (md_docs m)\<rparr>)"
  by (rule md_inv_docs)
     (auto simp: update_conv' distinct_update md_inv_def dest: md_doc_key split: if_splits)

lemma md_inv_update: "md_inv m \<Longrightarrow> (\<And>d. doc_ID (f d) = doc_ID d) \<Longrightarrow> md_inv (md_update k f m)"
  by (auto simp: md_update_def md_doc_key split: option.splits intro: md_inv_put)

lemma md_update_in:
  "md_inv m \<Longrightarrow> d \<in> md_doc_set m \<Longrightarrow> f d \<in> md_doc_set (md_update (doc_ID d) f m)"
  by (simp add: md_doc_set_iff md_update_def) (auto simp: md_doc_set_def update_conv' ran_def)

lemma mock_range:
  assumes "md_inv m" and "md_pages m j = Some ps"
  shows "set (List.map_filter (map_of ps) [a..b]) =
      {pg \<in> md_page_set m. page_DocumentID pg = j \<and> a \<le> PageNumber pg \<and> PageNumber pg \<le> b}"
    and "sorted_wrt (<) (map PageNumber (List.map_filter (map_of ps) [a..b]))"
proof -
  have key: "map_of ps n = Some p \<Longrightarrow> page_DocumentID p = j \<and> PageNumber p = n" for n p
    using md_page_key[OF assms] by blast
  show "set (List.map_filter (map_of ps) [a..b]) =
      {pg \<in> md_page_set m. page_DocumentID pg = j \<and> a \<le> PageNumber pg \<and> PageNumber pg \<le> b}"
  proof (intro set_eqI iffI)
    fix p assume "p \<in> set (List.map_filter (map_of ps) [a..b])"
    then obtain n where n: "map_of ps n = Some p" "a \<le> n" "n \<le> b" by (auto simp: map_filter_def)
    with key[OF n(1)] assms show "p \<in> {pg \<in> md_page_set m. page_DocumentID pg = j \<and> a \<le> PageNumber pg \<and> PageNumber pg \<le> b}"
      by (simp add: md_page_set_iff)
  next
    fix p assume "p \<in> {pg \<in> md_page_set m. page_DocumentID pg = j \<and> a \<le> PageNumber pg \<and> PageNumber pg \<le> b}"
    with assms have "map_of ps (PageNumber p) = Some p" "a \<le> PageNumber p" "PageNumber p \<le> b"
      by (auto simp: md_page_set_iff)
    then show "p \<in> set (List.map_filter (map_of ps) [a..b])"
      by (auto simp: map_filter_def image_iff intro!: bexI[of _ "PageNumber p"])
  qed
  have "map PageNumber (List.map_filter (map_of ps) ns) = filter (\<lambda>n. map_of ps n \<noteq> None) ns" for ns
    using key by (induction ns) (auto simp: map_filter_def)
  moreover have "sorted_wrt (<) (filter P [a..b])" for P
    by (rule sorted_wrt_filter) (simp add: sorted_wrt_upto)
  ultimately show "sorted_wrt (<) (map PageNumber (List.map_filter (map_of ps) [a..b]))" by simp
qed

lemma mock_list:
  assumes "md_inv m" and "md_pages m j = Some ps"
  shows "set (map snd ps) = {pg \<in> md_page_set m. page_DocumentID pg = j}"
proof -
  have ps: "distinct (map fst ps)" "\<And>n p. (n, p) \<in> set ps \<Longrightarrow> page_DocumentID p = j \<and> PageNumber p = n"
    using assms unfolding md_inv_def by fastforce+
  then have "(n, p) \<in> set ps \<longleftrightarrow> page_DocumentID p = j \<and> PageNumber p = n \<and> map_of ps n = Some p" for n p
    using map_of_eq_Some_iff[OF ps(1)] by auto
  then show ?thesis using assms(2) by (force simp: md_page_set_iff[OF assms(1)])
qed

lemmas mock_doc_defs = MockDocStore_def md_CreateDocument_def md_GetDocument_def md_UpdateOriginalPath_def
  md_MarkFailed_def md_GetPage_def md_GetPageRange_def md_ListPages_def md_DeleteDocument_def

interpretation mock_docs: document_repository "MockDocStore (rotate n) (rotate n')" Some md_inv md_doc_set md_page_set for n n'
proof unfold_locales
  fix i a b and m :: mock_doc_store and ps j
  assume "dr_GetPageRange (MockDocStore (rotate n) (rotate n')) i a b m = Inr ps" and inv: "md_inv m" and "Some i = Some j"
  then show "set ps = {pg \<in> md_page_set m. page_DocumentID pg = j \<and> a \<le> PageNumber pg \<and> PageNumber pg \<le> b} \<and>
      sorted_wrt (<) (map PageNumber ps)"
    using mock_range[OF inv, of j] md_page_set_iff[OF inv]
    by (cases "md_pages m j") (auto simp: mock_doc_defs)
next
  fix i and m :: mock_doc_store and ps j
  assume "dr_ListPages (MockDocStore (rotate n) (rotate n')) i m = Inr ps" and inv: "md_inv m" and "Some i = Some j"
  then show "set ps = {pg \<in> md_page_set m. page_DocumentID pg = j}"
    using mock_list[OF inv, of j] md_page_set_iff[OF inv]
    by (cases "md_pages m j") (auto simp: mock_doc_defs)
next
  fix u nm path h sz and m m' :: mock_doc_store and d
  assume "dr_CreateDocument (MockDocStore (rotate n) (rotate n')) u nm path h sz m = (Inr d, m')" and inv: "md_inv m"
  then show "md_inv m' \<and> d \<in> md_doc_set m' \<and> Some (doc_ID d) = Some (doc_ID d) \<and> Some u = Some (doc_UserID d) \<and>
      Status d = StatusProcessing \<and> doc_SHA256 d = h \<and> Filename d = nm \<and> doc_SizeBytes d = sz"
    by (auto simp: mock_doc_defs hooked_eq Let_def md_inv_put md_doc_set_def update_conv' ran_def split: sum.splits)
next
  fix i path and m m' :: mock_doc_store and x d
  assume run: "dr_UpdateOriginalPath (MockDocStore (rotate n) (rotate n')) i path m = (Inr x, m')"
    and inv: "md_inv m" and d: "d \<in> md_doc_set m" "Some i = Some (doc_ID d)"
  then have "m' = md_update (doc_ID d) (\<lambda>d. d\<lparr>OriginalMinioPath := path\<rparr>) m"
    by (simp add: mock_doc_defs hooked_eq)
  then show "md_inv m' \<and> (\<exists>t. d\<lparr>OriginalMinioPath := path, UpdatedAt := t\<rparr> \<in> md_doc_set m')"
    using md_inv_update[OF inv] md_update_in[OF inv d(1), of "\<lambda>d. d\<lparr>OriginalMinioPath := path\<rparr>"]
    by (auto intro!: exI[of _ "UpdatedAt d"])
next
  fix i msg and m m' :: mock_doc_store and x d
  assume run: "dr_MarkFailed (MockDocStore (rotate n) (rotate n')) i msg m = (Inr x, m')"
    and inv: "md_inv m" and d: "d \<in> md_doc_set m" "Some i = Some (doc_ID d)"
  then have "m' = md_update (doc_ID d) (\<lambda>d. d\<lparr>Status := StatusFailed, ErrorMessage := Some msg\<rparr>) m"
    by (simp add: mock_doc_defs hooked_eq)
  then show "md_inv m' \<and> (\<exists>t. d\<lparr>Status := StatusFailed, ErrorMessage := Some msg, UpdatedAt := t\<rparr> \<in> md_doc_set m')"
    using md_inv_update[OF inv] md_update_in[OF inv d(1), of "\<lambda>d. d\<lparr>Status := StatusFailed, ErrorMessage := Some msg\<rparr>"]
    by (auto intro!: exI[of _ "UpdatedAt d"])
next
  fix i u and m m' :: mock_doc_store and d
  assume "dr_DeleteDocument (MockDocStore (rotate n) (rotate n')) i u m = (Inr d, m')" and inv: "md_inv m"
  then have d: "map_of (md_docs m) i = Some d" "u = doc_UserID d"
    and m': "m' = m\<lparr>md_docs := AList.delete i (md_docs m), md_pages := (md_pages m)(i := None)\<rparr>"
    by (auto simp: mock_doc_defs split: option.splits if_splits)
  have i: "i = doc_ID d" using md_doc_key[OF inv d(1)] by simp
  have inv': "md_inv m'" using inv
    by (auto simp: md_inv_def m' distinct_map_filter AList.delete_eq split: if_splits)
  have "md_doc_set m' = {d' \<in> md_doc_set m. doc_ID d' \<noteq> doc_ID d}"
    by (simp add: set_eq_iff md_doc_set_iff[OF inv'] md_doc_set_iff[OF inv]) (auto simp: m' delete_conv' i)
  moreover have "md_page_set m' = {pg \<in> md_page_set m. page_DocumentID pg \<noteq> doc_ID d}"
    by (simp add: set_eq_iff md_page_set_iff[OF inv'] md_page_set_iff[OF inv]) (auto simp: m' i)
  moreover have "d \<in> md_doc_set m" using d by (simp add: md_doc_set_def ranI)
  ultimately show "d \<in> md_doc_set m \<and> Some i = Some (doc_ID d) \<and> Some u = Some (doc_UserID d) \<and>
      md_doc_set m' = {d' \<in> md_doc_set m. doc_ID d' \<noteq> doc_ID d} \<and>
      md_page_set m' = {pg \<in> md_page_set m. page_DocumentID pg \<noteq> doc_ID d}"
    using i d by simp
qed (auto simp: mock_doc_defs hooked_eq md_doc_set_def md_page_set_iff ranI Let_def
      dest: md_doc_key md_page_key split: option.splits if_splits sum.splits)

interpretation mock_service: document_service "MockDocStore (rotate n) (rotate n')" Some md_inv md_doc_set md_page_set
    MockStorage mock_objects for n n'
  by unfold_locales

end
