(* ===== verification/JsonText.thy ===== *)
theory JsonText
  imports Json
begin

text \<open>
  The text that \<open>json.Marshal\<close> writes: strings are escaped as by the encoder with HTML
  escaping, and bytes outside valid UTF-8 become the escaped U+FFFD. The text of a time
  is a parameter.
\<close>

abbreviation backslash :: char where
  "backslash \<equiv> CHR 0x5C"

abbreviation quote :: char where
  "quote \<equiv> CHR 0x22"

definition escape_byte :: "char \<Rightarrow> string" where
  "escape_byte c =
     (let b = of_char c :: nat
      in if c = quote \<or> c = backslash then [backslash, c]
         else if b = 8 then [backslash, CHR ''b'']
         else if b = 12 then [backslash, CHR ''f'']
         else if b = 10 then [backslash, CHR ''n'']
         else if b = 13 then [backslash, CHR ''r'']
         else if b = 9 then [backslash, CHR ''t'']
         else if b < 32 \<or> c = CHR ''<'' \<or> c = CHR ''>'' \<or> c = CHR ''&''
         then backslash # ''u00'' @ [hex_digit (b div 16), hex_digit (b mod 16)]
         else [c])"

text \<open>U+2028 and U+2029 are the bytes E2 80 A8 and E2 80 A9.\<close>

definition escape_rune :: "string \<Rightarrow> string" where
  "escape_rune r =
     (if map of_char r = [0xE2, 0x80, 0xA8 :: nat] then backslash # ''u2028''
      else if map of_char r = [0xE2, 0x80, 0xA9 :: nat] then backslash # ''u2029''
      else r)"

function json_escape :: "string \<Rightarrow> string" where
  "json_escape s =
     (case s of
        [] \<Rightarrow> []
      | c # t \<Rightarrow>
          (case rune_length s of
             None \<Rightarrow> backslash # ''ufffd'' @ json_escape t
           | Some n \<Rightarrow>
               if n = 1 then escape_byte c @ json_escape t
               else escape_rune (take n s) @ json_escape (drop n s)))"
  by pat_completeness auto
termination
  by (relation "measure length") (auto simp: rune_length_def Let_def split: list.splits if_splits)

declare json_escape.simps [simp del]

definition json_string :: "string \<Rightarrow> string" where
  "json_string s = quote # json_escape s @ [quote]"

fun join :: "string \<Rightarrow> string list \<Rightarrow> string" where
  "join sep [] = []"
| "join sep [x] = x"
| "join sep (x # xs) = x @ sep @ join sep xs"

fun json_text :: "(time \<Rightarrow> string) \<Rightarrow> json \<Rightarrow> string" where
  "json_text ft JNull = ''null''"
| "json_text ft (JBool b) = (if b then ''true'' else ''false'')"
| "json_text ft (JInt i) = itoa i"
| "json_text ft (JStr s) = json_string s"
| "json_text ft (JTime t) = quote # ft t @ [quote]"
| "json_text ft (JArr xs) = CHR ''['' # join '','' (map (json_text ft) xs) @ '']''"
| "json_text ft (JObj fs) =
     CHR ''{'' # join '','' (map (\<lambda>f. json_string (fst f) @ '':'' @ json_text ft (snd f)) fs) @ ''}''"

end
