(* ===== verification/Processor.thy ===== *)
theory Processor
  imports DocumentService JsonText "HOL-Library.List_Lexorder" "HOL-Library.Char_ord"
begin

text \<open>
  The background worker, \<open>worker/processor.go\<close>: the extraction of a document's pages by
  goroutines that share a semaphore of five, as steps of single goroutines in any order;
  the handler around it; and the delivery of webhooks. The PDF library, the queue
  library, the network and the failures of the file system are parameters.
\<close>

section \<open>The environment\<close>

text \<open>
  \<open>pdf_PageCountFile\<close> and \<open>pdf_ExtractPagesFile\<close> are the PDF library's functions on the
  bytes of the original; the second gives the files that it writes for one page and its
  result. The \<open>os_\<close> fields say which calls of the file system fail, per page where there
  is one call per page. \<open>wk_Post\<close> performs a POST request with its headers and body and
  gives the status; \<open>wk_FormatTime\<close> is the RFC 3339 text of a time.
\<close>

record worker_env =
  pdf_PageCountFile :: "bytes \<Rightarrow> go_error + int"
  pdf_ExtractPagesFile :: "bytes \<Rightarrow> int \<Rightarrow> (string \<times> bytes) list \<times> (go_error + unit)"
  os_MkdirTemp :: "string \<Rightarrow> go_error option"
  os_MkdirAll :: "go_error option"
  os_Create :: "go_error option"
  os_Write :: "bytes \<Rightarrow> go_error option"
  os_Rename :: "int \<Rightarrow> bool"
  os_Open :: "int \<Rightarrow> go_error option"
  os_Stat :: "int \<Rightarrow> go_error option"
  os_Read :: "int \<Rightarrow> go_error option"
  wk_http :: http_client
  wk_Post :: "string \<Rightarrow> (string \<times> string) list \<Rightarrow> bytes \<Rightarrow> go_error + int"
  wk_FormatTime :: "time \<Rightarrow> string"

definition pageExtractionConcurrency :: nat where "pageExtractionConcurrency = 5"
definition webhookTimeout :: duration where "webhookTimeout = 10 * second"
definition webhookMaxRetries :: int where "webhookMaxRetries = 3"

section \<open>The extraction of one page\<close>

text \<open>The directory of extracted pages maps file names to contents. \<open>filepath.Glob\<close> with
  the pattern \<open>*_n.pdf\<close> gives the matching names in order.\<close>

type_synonym pages_dir = "(string \<times> bytes) list"

definition has_suffix :: "string \<Rightarrow> string \<Rightarrow> bool" where
  "has_suffix s suf \<longleftrightarrow> length suf \<le> length s \<and> drop (length s - length suf) s = suf"

definition page_suffix :: "int \<Rightarrow> string" where
  "page_suffix n = ''_'' @ itoa n @ ''.pdf''"

definition findExtractedPage :: "pages_dir \<Rightarrow> int \<Rightarrow> go_error + string" where
  "findExtractedPage dir n =
     (case sort (remdups (filter (\<lambda>f. has_suffix f (page_suffix n)) (map fst dir))) of
        [] \<Rightarrow> Inl (Opaque (''no file found matching *'' @ page_suffix n))
      | f # _ \<Rightarrow> Inr f)"

definition page_path :: "string \<Rightarrow> int \<Rightarrow> string" where
  "page_path docID n = ''documents/'' @ docID @ ''/pages/'' @ itoa n @ ''.pdf''"

text \<open>Where a page's goroutine stands: before the semaphore, at each call inside
  \<open>extractAndUploadPage\<close>, at its return, and after the semaphore was given back.\<close>

datatype page_job =
    Waiting
  | Extract
  | Locate
  | Opening string
  | Uploading "go_error + bytes" int
  | Saving int
  | Returned "go_error option"
  | Done "go_error option"

text \<open>Writing a file replaces one of the same name; renaming moves a file over another.\<close>

definition write_file :: "string \<times> bytes \<Rightarrow> pages_dir \<Rightarrow> pages_dir" where
  "write_file f dir = f # filter (\<lambda>g. fst g \<noteq> fst f) dir"

definition rename_file :: "string \<Rightarrow> string \<Rightarrow> pages_dir \<Rightarrow> pages_dir option" where
  "rename_file from to dir =
     (case map_of dir from of
        None \<Rightarrow> None
      | Some c \<Rightarrow> Some ((to, c) # filter (\<lambda>g. fst g \<noteq> from \<and> fst g \<noteq> to) dir))"

text \<open>One call of \<open>extractAndUploadPage\<close> at a time, each with the directory, the storage
  and the database as they are then.\<close>

definition fail_job :: "string \<Rightarrow> int \<Rightarrow> go_error \<Rightarrow> page_job" where
  "fail_job msg n e = Returned (Some (Errorf (msg @ itoa n) e))"

fun page_step ::
  "worker_env \<Rightarrow> 's storage \<Rightarrow> pg \<Rightarrow> string \<Rightarrow> bytes \<Rightarrow> int \<Rightarrow> page_job \<Rightarrow> pages_dir \<times> 's \<times> database \<Rightarrow>
     page_job \<times> pages_dir \<times> 's \<times> database" where
  "page_step W st p docID orig n Extract (dir, s, db) =
     (let (fs, r) = pdf_ExtractPagesFile W orig n; dir = fold write_file fs dir
      in case r of
           Inl e \<Rightarrow> (fail_job ''pdfcpu extract page '' n e, dir, s, db)
         | Inr _ \<Rightarrow> (Locate, dir, s, db))"
| "page_step W st p docID orig n Locate (dir, s, db) =
     (let pageFile = ''page_'' @ itoa n @ ''.pdf'';
          renamed = (if os_Rename W n then None else rename_file (''original_'' @ itoa n @ ''.pdf'') pageFile dir)
      in case renamed of
           Some dir \<Rightarrow> (Opening pageFile, dir, s, db)
         | None \<Rightarrow>
             (case findExtractedPage dir n of
                Inl e \<Rightarrow> (fail_job ''locate extracted page '' n e, dir, s, db)
              | Inr f \<Rightarrow> (Opening f, dir, s, db)))"
| "page_step W st p docID orig n (Opening f) (dir, s, db) =
     (case (os_Open W n, map_of dir f) of
        (Some e, _) \<Rightarrow> (Returned (Some (Errorf ''open page file'' e)), dir, s, db)
      | (None, None) \<Rightarrow> (Returned (Some (Errorf ''open page file'' (Opaque ''no such file or directory''))), dir, s, db)
      | (None, Some c) \<Rightarrow>
          (case os_Stat W n of
             Some e \<Rightarrow> (Returned (Some (Errorf ''stat page file'' e)), dir, s, db)
           | None \<Rightarrow>
               (Uploading (case os_Read W n of Some e \<Rightarrow> Inl e | None \<Rightarrow> Inr c) (int (length c)), dir, s, db)))"
| "page_step W st p docID orig n (Uploading body sz) (dir, s, db) =
     (case st_Upload st (page_path docID n) body sz ''application/pdf'' s of
        (Inl e, s) \<Rightarrow> (fail_job ''upload page '' n e, dir, s, db)
      | (Inr _, s) \<Rightarrow> (Saving sz, dir, s, db))"
| "page_step W st p docID orig n (Saving sz) (dir, s, db) =
     (case SavePage p docID n (page_path docID n) sz db of
        (Inl e, db) \<Rightarrow> (fail_job ''save page metadata '' n e, dir, s, db)
      | (Inr _, db) \<Rightarrow> (Returned None, dir, s, db))"
| "page_step W st p docID orig n j w = (j, w)"

section \<open>All pages at once\<close>

record 's extraction =
  jobs :: "page_job list"
  ex_dir :: pages_dir
  ex_store :: 's
  ex_db :: database
  firstErr :: "go_error option"

definition is_done :: "page_job \<Rightarrow> bool" where
  "is_done j \<longleftrightarrow> (case j of Done _ \<Rightarrow> True | _ \<Rightarrow> False)"

definition holds_sem :: "page_job \<Rightarrow> bool" where
  "holds_sem j \<longleftrightarrow> j \<noteq> Waiting \<and> \<not> is_done j"

definition running :: "'s extraction \<Rightarrow> nat" where
  "running x = length (filter holds_sem (jobs x))"

text \<open>A goroutine can move: it can always do its next call, but it enters only when the
  semaphore has room.\<close>

definition can_move :: "'s extraction \<Rightarrow> nat \<Rightarrow> bool" where
  "can_move x i \<longleftrightarrow> i < length (jobs x) \<and> \<not> is_done (jobs x ! i) \<and>
     (jobs x ! i = Waiting \<longrightarrow> running x < pageExtractionConcurrency)"

text \<open>The move of goroutine \<open>i\<close>, which works on page \<open>i + 1\<close>: it enters, does its next
  call, or, at its return, records the first error under the mutex and gives the
  semaphore back.\<close>

definition next_call ::
  "worker_env \<Rightarrow> 's storage \<Rightarrow> pg \<Rightarrow> string \<Rightarrow> bytes \<Rightarrow> nat \<Rightarrow> 's extraction \<Rightarrow> 's extraction" where
  "next_call W st p docID orig i x =
     (let (j, dir, s, db) = page_step W st p docID orig (int i + 1) (jobs x ! i) (ex_dir x, ex_store x, ex_db x)
      in x\<lparr>jobs := (jobs x)[i := j], ex_dir := dir, ex_store := s, ex_db := db\<rparr>)"

definition move ::
  "worker_env \<Rightarrow> 's storage \<Rightarrow> pg \<Rightarrow> string \<Rightarrow> bytes \<Rightarrow> nat \<Rightarrow> 's extraction \<Rightarrow> 's extraction" where
  "move W st p docID orig i x =
     (case jobs x ! i of
        Waiting \<Rightarrow> x\<lparr>jobs := (jobs x)[i := Extract]\<rparr>
      | Returned e \<Rightarrow> x\<lparr>jobs := (jobs x)[i := Done e], firstErr := (if firstErr x = None then e else firstErr x)\<rparr>
      | Done e \<Rightarrow> x
      | _ \<Rightarrow> next_call W st p docID orig i x)"

inductive ex_step :: "worker_env \<Rightarrow> 's storage \<Rightarrow> string \<Rightarrow> bytes \<Rightarrow> 's extraction \<Rightarrow> 's extraction \<Rightarrow> bool"
  for W st docID orig where
  "can_move x i \<Longrightarrow> ex_step W st docID orig x (move W st p docID orig i x)"

inductive_cases ex_stepE: "ex_step W st docID orig x y"

definition start_extraction :: "int \<Rightarrow> 's \<Rightarrow> database \<Rightarrow> 's extraction" where
  "start_extraction pageCount s db =
     \<lparr>jobs = replicate (nat pageCount) Waiting, ex_dir = [], ex_store = s, ex_db = db, firstErr = None\<rparr>"

text \<open>
  A run to the end under a schedule: at the \<open>k\<close>-th move, \<open>ch k\<close> chooses among the
  goroutines that can move, and the database server of the call. Every order is some
  schedule. The rank of a job counts its moves to the end.
\<close>

fun rank :: "page_job \<Rightarrow> nat" where
  "rank Waiting = 7"
| "rank Extract = 6"
| "rank Locate = 5"
| "rank (Opening _) = 4"
| "rank (Uploading _ _) = 3"
| "rank (Saving _) = 2"
| "rank (Returned _) = 1"
| "rank (Done _) = 0"

definition work_left :: "'s extraction \<Rightarrow> nat" where
  "work_left x = sum_list (map rank (jobs x))"

definition movable :: "'s extraction \<Rightarrow> nat list" where
  "movable x = filter (can_move x) [0..<length (jobs x)]"

lemma rank_page_step:
  "page_step W st p docID orig n j w = (j', w') \<Longrightarrow> holds_sem j \<Longrightarrow> (\<forall>e. j \<noteq> Returned e) \<Longrightarrow> rank j' < rank j"
  by (cases "(W, st, p, docID, orig, n, j, w)" rule: page_step.cases)
     (auto simp: fail_job_def holds_sem_def is_done_def Let_def
        split: sum.splits prod.splits option.splits if_splits)

lemma work_left_update:
  assumes "i < length js" and "rank j < rank (js ! i)"
  shows "sum_list (map rank (js[i := j])) < sum_list (map rank js)"
  using assms
proof (induction js arbitrary: i)
  case Nil
  then show ?case by simp
next
  case (Cons a js)
  then show ?case by (cases i) auto
qed

lemma next_call_sel:
  assumes "page_step W st p docID orig (int i + 1) (jobs x ! i) (ex_dir x, ex_store x, ex_db x) = (j, dir, s, db)"
  shows "next_call W st p docID orig i x = x\<lparr>jobs := (jobs x)[i := j], ex_dir := dir, ex_store := s, ex_db := db\<rparr>"
  using assms by (simp add: next_call_def)

text \<open>The three kinds of moves.\<close>

lemma move_cases:
  assumes "can_move x i"
  obtains (enter) "jobs x ! i = Waiting" and "running x < pageExtractionConcurrency"
      and "move W st p docID orig i x = x\<lparr>jobs := (jobs x)[i := Extract]\<rparr>"
  | (call) j dir s db where "holds_sem (jobs x ! i)" and "\<forall>e. jobs x ! i \<noteq> Returned e"
      and "page_step W st p docID orig (int i + 1) (jobs x ! i) (ex_dir x, ex_store x, ex_db x) = (j, dir, s, db)"
      and "move W st p docID orig i x = x\<lparr>jobs := (jobs x)[i := j], ex_dir := dir, ex_store := s, ex_db := db\<rparr>"
  | (leave) e where "jobs x ! i = Returned e"
      and "move W st p docID orig i x =
        x\<lparr>jobs := (jobs x)[i := Done e], firstErr := (if firstErr x = None then e else firstErr x)\<rparr>"
proof -
  obtain j dir s db where ps: "page_step W st p docID orig (int i + 1) (jobs x ! i) (ex_dir x, ex_store x, ex_db x) = (j, dir, s, db)"
    by (metis prod_cases4)
  note nc = next_call_sel[OF ps]
  show thesis
    by (cases "jobs x ! i")
       (use assms enter leave call[OF _ _ ps] nc in \<open>auto simp: can_move_def move_def holds_sem_def is_done_def\<close>)
qed

lemma move_decreases:
  assumes "can_move x i"
  shows "work_left (move W st p docID orig i x) < work_left x"
proof -
  have i: "i < length (jobs x)" using assms by (simp add: can_move_def)
  from assms show ?thesis
    by (cases rule: move_cases[of x i W st p docID orig])
       (auto simp: work_left_def intro!: work_left_update[OF i] dest: rank_page_step)
qed

lemma movable_nth: "movable x \<noteq> [] \<Longrightarrow> can_move x (movable x ! (c mod length (movable x)))"
  using nth_mem[of "c mod length (movable x)" "movable x"] by (simp add: movable_def)

function run_jobs ::
  "worker_env \<Rightarrow> 's storage \<Rightarrow> string \<Rightarrow> bytes \<Rightarrow> (nat \<Rightarrow> nat \<times> pg) \<Rightarrow> nat \<Rightarrow> 's extraction \<Rightarrow> 's extraction" where
  "run_jobs W st docID orig ch k x =
     (case movable x of
        [] \<Rightarrow> x
      | is \<Rightarrow> run_jobs W st docID orig ch (Suc k)
                (move W st (snd (ch k)) docID orig (is ! (fst (ch k) mod length is)) x))"
  by pat_completeness auto

termination
proof (relation "measure (\<lambda>(W, st, docID, orig, ch, k, x). work_left x)")
  fix W st docID orig k and x :: "'a extraction" and ch :: "nat \<Rightarrow> nat \<times> pg" and a rest
  assume m: "movable x = a # rest"
  then have "can_move x ((a # rest) ! (fst (ch k) mod length (a # rest)))"
    using movable_nth[of x "fst (ch k)"] by simp
  then show "((W, st, docID, orig, ch, Suc k, move W st (snd (ch k)) docID orig
        ((a # rest) ! (fst (ch k) mod length (a # rest))) x), W, st, docID, orig, ch, k, x)
      \<in> measure (\<lambda>(W, st, docID, orig, ch, k, x). work_left x)"
    by (simp add: move_decreases)
qed simp

declare run_jobs.simps [simp del]

section \<open>Webhook tasks\<close>

fun enqueue_hooks ::
  "'q asynq_client \<Rightarrow> string \<Rightarrow> string \<Rightarrow> int \<Rightarrow> webhook_subscription list \<Rightarrow> 'q \<Rightarrow> 'q" where
  "enqueue_hooks aq docID status totalPages [] q = q"
| "enqueue_hooks aq docID status totalPages (hook # hooks) q =
     (case NewFireWebhookTask \<lparr>fw_DocumentID = docID, fw_WebhookURL = hook_URL hook, fw_Secret = hook_Secret hook,
             fw_Status = status, fw_TotalPages = totalPages\<rparr> of
        Inl e \<Rightarrow> enqueue_hooks aq docID status totalPages hooks q
      | Inr t \<Rightarrow>
          (let (_, q) = aq_Enqueue aq t [MaxRetry webhookMaxRetries, Timeout webhookTimeout] q
           in enqueue_hooks aq docID status totalPages hooks q))"

definition enqueueWebhooks ::
  "'q asynq_client \<Rightarrow> pg \<Rightarrow> string \<Rightarrow> string \<Rightarrow> int \<Rightarrow> database \<Rightarrow> 'q \<Rightarrow> 'q" where
  "enqueueWebhooks aq p docID status totalPages db q =
     (case GetWebhooksForDocument p docID db of
        Inl e \<Rightarrow> q
      | Inr hooks \<Rightarrow> enqueue_hooks aq docID status totalPages hooks q)"

text \<open>\<open>fail\<close>: the error of marking the document is dropped.\<close>

definition worker_fail ::
  "'q asynq_client \<Rightarrow> pg \<Rightarrow> string \<Rightarrow> go_error \<Rightarrow> 's \<times> database \<times> 'q \<Rightarrow> go_error option \<times> 's \<times> database \<times> 'q" where
  "worker_fail aq p docID e w =
     (let (s, db, q) = w; (_, db) = MarkFailed p docID (err_text e) db
      in (Some e, s, db, enqueueWebhooks aq p docID ''failed'' 0 db q))"

section \<open>The extraction task\<close>

text \<open>\<open>json.Unmarshal\<close> into a struct: a missing field keeps its zero value, one of another
  type is an error.\<close>

definition str_field :: "(string \<times> json) list \<Rightarrow> string \<Rightarrow> go_error + string" where
  "str_field fs k =
     (case map_of (rev fs) k of
        None \<Rightarrow> Inr []
      | Some JNull \<Rightarrow> Inr []
      | Some (JStr v) \<Rightarrow> Inr v
      | Some _ \<Rightarrow> Inl (Opaque ''json: cannot unmarshal''))"

definition int_field :: "(string \<times> json) list \<Rightarrow> string \<Rightarrow> go_error + int" where
  "int_field fs k =
     (case map_of (rev fs) k of
        None \<Rightarrow> Inr 0
      | Some JNull \<Rightarrow> Inr 0
      | Some (JInt v) \<Rightarrow> if int8_ok v then Inr v else Inl (Opaque ''json: cannot unmarshal'')
      | Some _ \<Rightarrow> Inl (Opaque ''json: cannot unmarshal''))"

definition object_fields :: "json \<Rightarrow> go_error + (string \<times> json) list" where
  "object_fields v =
     (case v of JObj fs \<Rightarrow> Inr fs | JNull \<Rightarrow> Inr [] | _ \<Rightarrow> Inl (Opaque ''json: cannot unmarshal''))"

definition unmarshal_extract :: "json \<Rightarrow> go_error + extract_pages_payload" where
  "unmarshal_extract v =
     and_then (object_fields v) (\<lambda>fs.
     and_then (str_field fs ''document_id'') (\<lambda>d.
     and_then (str_field fs ''user_id'') (\<lambda>u.
       Inr \<lparr>ep_DocumentID = d, ep_UserID = u\<rparr>)))"

definition downloadToFile :: "worker_env \<Rightarrow> 's storage \<Rightarrow> string \<Rightarrow> 's \<Rightarrow> go_error + bytes" where
  "downloadToFile W st minioKey s =
     and_then (wrapf ''presign download'' (st_GetPresignedURL st minioKey s)) (\<lambda>url.
     and_then (wrapf ''build download request'' (NewRequest (wk_http W) url)) (\<lambda>_.
     and_then (wrapf ''download request'' (http_Get (wk_http W) url)) (\<lambda>(status, body, err).
       if status \<noteq> 200 then Inl (Opaque (''download returned '' @ itoa status))
       else case os_Create W of
              Some e \<Rightarrow> Inl (Errorf ''create dest file'' e)
            | None \<Rightarrow>
                (case (err, os_Write W body) of
                   (Some e, _) \<Rightarrow> Inl (Errorf ''write to disk'' e)
                 | (None, Some e) \<Rightarrow> Inl (Errorf ''write to disk'' e)
                 | (None, None) \<Rightarrow> Inr body))))"

text \<open>Steps 2, 3 and the directory of step 4: the bytes of the original and its page count.
  Every error in here fails the document.\<close>

definition prepare_extraction :: "worker_env \<Rightarrow> 's storage \<Rightarrow> string \<Rightarrow> document \<Rightarrow> 's \<Rightarrow> go_error + bytes \<times> int" where
  "prepare_extraction W st docID doc s =
     (case os_MkdirTemp W (''pdfextract-'' @ docID @ ''-*'') of
        Some e \<Rightarrow> Inl (Errorf ''create temp dir'' e)
      | None \<Rightarrow>
          and_then (wrapf ''download original'' (downloadToFile W st (OriginalMinioPath doc) s)) (\<lambda>orig.
          and_then (wrapf ''count pages'' (pdf_PageCountFile W orig)) (\<lambda>pageCount.
            if pageCount = 0 then Inl (Opaque ''PDF has 0 pages'')
            else case os_MkdirAll W of
                   Some e \<Rightarrow> Inl (Errorf ''create pages dir'' e)
                 | None \<Rightarrow> Inr (orig, pageCount))))"

text \<open>The whole handler under the schedule \<open>ch\<close>; a result \<open>None\<close> is Go's nil, after which
  the queue does not retry.\<close>

definition finish_extraction ::
  "'q asynq_client \<Rightarrow> pg \<Rightarrow> string \<Rightarrow> int \<Rightarrow> 's extraction \<Rightarrow> 'q \<Rightarrow> go_error option \<times> 's \<times> database \<times> 'q" where
  "finish_extraction aq p docID pageCount x q =
     (case firstErr x of
        Some e \<Rightarrow> worker_fail aq p docID e (ex_store x, ex_db x, q)
      | None \<Rightarrow>
          (case MarkReady p docID pageCount (ex_db x) of
             (Inl e, db) \<Rightarrow> (Some (Errorf ''mark ready'' e), ex_store x, db, q)
           | (Inr _, db) \<Rightarrow> (None, ex_store x, db, enqueueWebhooks aq p docID ''ready'' pageCount db q)))"

definition HandleExtractPages ::
  "worker_env \<Rightarrow> 's storage \<Rightarrow> 'q asynq_client \<Rightarrow> pg \<Rightarrow> (nat \<Rightarrow> nat \<times> pg) \<Rightarrow> task \<Rightarrow> 's \<times> database \<times> 'q \<Rightarrow>
     go_error option \<times> 's \<times> database \<times> 'q" where
  "HandleExtractPages W st aq p ch t w =
     (let (s, db, q) = w in
      case unmarshal_extract (task_Payload t) of
        Inl e \<Rightarrow> (Some (Errorf ''unmarshal payload'' e), w)
      | Inr payload \<Rightarrow>
     (let docID = ep_DocumentID payload in
      case GetDocumentByID p docID db of
        Inl e \<Rightarrow> if errors_is e ErrNotFound then (None, w) else (Some (Errorf (''get document '' @ docID) e), w)
      | Inr doc \<Rightarrow>
     (case prepare_extraction W st docID doc s of
        Inl e \<Rightarrow> worker_fail aq p docID e w
      | Inr (orig, pageCount) \<Rightarrow>
          (let x = run_jobs W st docID orig ch 0 (start_extraction pageCount s db)
           in finish_extraction aq p docID pageCount x q))))"

section \<open>The delivery of a webhook\<close>

definition unmarshal_webhook :: "json \<Rightarrow> go_error + fire_webhook_payload" where
  "unmarshal_webhook v =
     and_then (object_fields v) (\<lambda>fs.
     and_then (str_field fs ''document_id'') (\<lambda>d.
     and_then (str_field fs ''webhook_url'') (\<lambda>u.
     and_then (str_field fs ''secret'') (\<lambda>sec.
     and_then (str_field fs ''status'') (\<lambda>st.
     and_then (int_field fs ''total_pages'') (\<lambda>n.
       Inr \<lparr>fw_DocumentID = d, fw_WebhookURL = u, fw_Secret = sec, fw_Status = st, fw_TotalPages = n\<rparr>))))))"

text \<open>A marshalled map has its keys in order.\<close>

definition webhook_body :: "worker_env \<Rightarrow> time \<Rightarrow> fire_webhook_payload \<Rightarrow> bytes" where
  "webhook_body W t payload =
     json_text (wk_FormatTime W) (JObj [(''document_id'', JStr (fw_DocumentID payload)), (''status'', JStr (fw_Status payload)),
       (''timestamp'', JTime t), (''total_pages'', JInt (fw_TotalPages payload))])"

definition webhook_signature :: "string \<Rightarrow> bytes \<Rightarrow> string" where
  "webhook_signature secret body =
     (if secret \<noteq> [] then ''sha256='' @ hex_encode (hmac_sha256 secret body) else [])"

definition webhook_headers :: "string \<Rightarrow> (string \<times> string) list" where
  "webhook_headers sig =
     [(''Content-Type'', ''application/json'')] @ (if sig \<noteq> [] then [(''X-Signature-SHA256'', sig)] else [])"

text \<open>The result and the request that was sent, if any.\<close>

definition HandleFireWebhook ::
  "worker_env \<Rightarrow> time \<Rightarrow> task \<Rightarrow> go_error option \<times> (string \<times> (string \<times> string) list \<times> bytes) option" where
  "HandleFireWebhook W t tsk =
     (case unmarshal_webhook (task_Payload tsk) of
        Inl e \<Rightarrow> (Some (Errorf ''unmarshal webhook payload'' e), None)
      | Inr payload \<Rightarrow>
          (let body = webhook_body W t payload;
               sig = webhook_signature (fw_Secret payload) body;
               url = fw_WebhookURL payload
           in case NewRequest (wk_http W) url of
                Inl e \<Rightarrow> (Some (Errorf ''build webhook request'' e), None)
              | Inr _ \<Rightarrow>
                  (let headers = webhook_headers sig; sent = Some (url, headers, body)
                   in case wk_Post W url headers body of
                        Inl e \<Rightarrow> (Some (Errorf ''deliver webhook'' e), sent)
                      | Inr status \<Rightarrow>
                          if status < 200 \<or> status \<ge> 300
                          then (Some (Opaque (''webhook returned non-2xx: '' @ itoa status)), sent)
                          else (None, sent))))"

end
