(* ===== verification/ProcessorProps.thy ===== *)
theory ProcessorProps
  imports Processor
begin

text \<open>
  Lemmas on the worker: the interleavings of the page goroutines end, never get stuck and
  are exactly the schedules; and the invariant that ties each goroutine's position to the
  files, objects and rows it has produced.
\<close>

section \<open>Interleavings\<close>

lemma jobs_move_length [simp]: "length (jobs (move W st p docID orig i x)) = length (jobs x)"
  by (simp add: move_def next_call_def Let_def split: page_job.splits prod.splits)

lemma ex_step_jobs: "ex_step W st docID orig x y \<Longrightarrow> length (jobs y) = length (jobs x)"
  by (auto elim: ex_stepE)

lemma ex_steps_jobs: "(ex_step W st docID orig)\<^sup>*\<^sup>* x y \<Longrightarrow> length (jobs y) = length (jobs x)"
  by (induction rule: rtranclp_induct) (simp_all add: ex_step_jobs)

lemma filter_update_le:
  assumes "i < length xs"
  shows "length (filter P (xs[i := y])) + (if P (xs ! i) then 1 else 0) = length (filter P xs) + (if P y then 1 else 0)"
  using assms
proof (induction xs arbitrary: i)
  case Nil
  then show ?case by simp
next
  case (Cons a xs)
  then show ?case by (cases i) auto
qed

text \<open>The semaphore: at most five goroutines are between its two operations.\<close>

lemma running_step:
  assumes "ex_step W st docID orig x y" and "running x \<le> pageExtractionConcurrency"
  shows "running y \<le> pageExtractionConcurrency"
proof -
  from assms(1) obtain p i where i: "can_move x i" and y: "y = move W st p docID orig i x" by (auto elim: ex_stepE)
  have len: "i < length (jobs x)" using i by (simp add: can_move_def)
  note upd = filter_update_le[OF len, of holds_sem]
  from i show ?thesis
  proof (cases rule: move_cases[of x i W st p docID orig])
    case enter
    then show ?thesis using y upd[of Extract] by (simp add: running_def holds_sem_def is_done_def)
  next
    case (call j dir s db)
    then show ?thesis using y upd[of j] assms(2) by (auto simp: running_def split: if_splits)
  next
    case (leave e)
    then show ?thesis using y upd[of "Done e"] assms(2) by (auto simp: running_def holds_sem_def is_done_def)
  qed
qed

lemma running_start: "running (start_extraction n s db) = 0"
  by (simp add: running_def start_extraction_def holds_sem_def)

text \<open>A goroutine inside can always go on; when none is inside, a waiting one can enter.\<close>

lemma no_deadlock:
  assumes "\<not> (\<forall>j \<in> set (jobs x). is_done j)"
  shows "\<exists>i. can_move x i"
proof (cases "running x = 0")
  case True
  from assms obtain i where i: "i < length (jobs x)" "\<not> is_done (jobs x ! i)" by (auto simp: in_set_conv_nth)
  with True have "can_move x i" by (simp add: can_move_def pageExtractionConcurrency_def)
  then show ?thesis by blast
next
  case False
  then obtain j where "j \<in> set (jobs x)" "holds_sem j" by (auto simp: running_def filter_empty_conv)
  then obtain i where "i < length (jobs x)" "holds_sem (jobs x ! i)" by (auto simp: in_set_conv_nth)
  then have "can_move x i" by (simp add: can_move_def holds_sem_def)
  then show ?thesis by blast
qed

lemma all_done_stuck: "(\<forall>j \<in> set (jobs x). is_done j) \<longleftrightarrow> movable x = []"
proof
  assume "\<forall>j \<in> set (jobs x). is_done j"
  then show "movable x = []" by (simp add: movable_def can_move_def filter_empty_conv)
next
  assume "movable x = []"
  then have "\<not> can_move x i" for i by (auto simp: movable_def filter_empty_conv can_move_def)
  then show "\<forall>j \<in> set (jobs x). is_done j" using no_deadlock by blast
qed

lemma work_left_step: "ex_step W st docID orig x y \<Longrightarrow> work_left y < work_left x"
  by (auto elim!: ex_stepE intro: move_decreases)

lemma work_left_steps: "(ex_step W st docID orig ^^ k) x y \<Longrightarrow> work_left y + k \<le> work_left x"
  by (induction k arbitrary: y) (fastforce dest: work_left_step)+

lemma work_left_start: "work_left (start_extraction n s db) = 7 * nat n"
  by (simp add: work_left_def start_extraction_def sum_list_replicate)

text \<open>A schedule is one interleaving, and every complete interleaving is a schedule.\<close>

lemma run_jobs_done: "movable x = [] \<Longrightarrow> run_jobs W st docID orig ch k x = x"
  by (simp add: run_jobs.simps)

lemma run_jobs_move:
  "movable x \<noteq> [] \<Longrightarrow> run_jobs W st docID orig ch k x =
     run_jobs W st docID orig ch (Suc k)
       (move W st (snd (ch k)) docID orig (movable x ! (fst (ch k) mod length (movable x))) x)"
  by (subst run_jobs.simps) (auto split: list.splits)

lemma run_jobs_steps:
  "(ex_step W st docID orig)\<^sup>*\<^sup>* x (run_jobs W st docID orig ch k x) \<and>
     movable (run_jobs W st docID orig ch k x) = []"
proof (induction "work_left x" arbitrary: x k rule: less_induct)
  case less
  show ?case
  proof (cases "movable x = []")
    case True
    then show ?thesis by (simp add: run_jobs_done)
  next
    case False
    let ?i = "movable x ! (fst (ch k) mod length (movable x))"
    let ?y = "move W st (snd (ch k)) docID orig ?i x"
    have i: "can_move x ?i" by (rule movable_nth[OF False])
    then have "ex_step W st docID orig x ?y" by (rule ex_step.intros)
    moreover have "(ex_step W st docID orig)\<^sup>*\<^sup>* ?y (run_jobs W st docID orig ch (Suc k) ?y) \<and>
        movable (run_jobs W st docID orig ch (Suc k) ?y) = []"
      by (rule less[OF move_decreases[OF i]])
    ultimately show ?thesis
      using run_jobs_move[OF False, of W st docID orig ch k] by (auto intro: converse_rtranclp_into_rtranclp)
  qed
qed

lemma run_jobs_cong:
  "(\<And>j. k \<le> j \<Longrightarrow> ch j = ch' j) \<Longrightarrow> run_jobs W st docID orig ch k x = run_jobs W st docID orig ch' k x"
proof (induction "work_left x" arbitrary: x k rule: less_induct)
  case less
  show ?case
  proof (cases "movable x = []")
    case True
    then show ?thesis by (simp add: run_jobs_done)
  next
    case False
    let ?y = "move W st (snd (ch' k)) docID orig (movable x ! (fst (ch' k) mod length (movable x))) x"
    have "ch k = ch' k" using less.prems by simp
    moreover have "run_jobs W st docID orig ch (Suc k) ?y = run_jobs W st docID orig ch' (Suc k) ?y"
      by (rule less.hyps[OF move_decreases[OF movable_nth[OF False]]]) (simp add: less.prems)
    ultimately show ?thesis
      using run_jobs_move[OF False, of W st docID orig ch k] run_jobs_move[OF False, of W st docID orig ch' k] by simp
  qed
qed

lemma steps_run_jobs:
  assumes "(ex_step W st docID orig)\<^sup>*\<^sup>* x y" and "movable y = []"
  shows "\<exists>ch. run_jobs W st docID orig ch k x = y"
  using assms(1)
proof (induction arbitrary: k rule: converse_rtranclp_induct)
  case base
  with assms(2) show ?case by (simp add: run_jobs_done)
next
  case (step x z)
  then obtain ch where ch: "run_jobs W st docID orig ch (Suc k) z = y" by blast
  from step(1) obtain p i where i: "can_move x i" and z: "z = move W st p docID orig i x" by (auto elim: ex_stepE)
  then have "i \<in> set (movable x)" by (simp add: movable_def can_move_def)
  then obtain c where c: "c < length (movable x)" "movable x ! c = i" by (auto simp: in_set_conv_nth)
  then have ne: "movable x \<noteq> []" by auto
  have "run_jobs W st docID orig (ch(k := (c, p))) k x = run_jobs W st docID orig (ch(k := (c, p))) (Suc k) z"
    using run_jobs_move[OF ne, of W st docID orig "ch(k := (c, p))" k] c z by simp
  also have "\<dots> = y" using run_jobs_cong[of "Suc k" "ch(k := (c, p))" ch W st docID orig z] ch by simp
  finally show ?case by blast
qed

section \<open>File names\<close>

lemma nat_digits_inj: "nat_digits m = nat_digits n \<Longrightarrow> m = n"
  by (metis option.inject parse_nat_digits)

lemma nat_digits_chars: "c \<in> set (nat_digits n) \<Longrightarrow> \<exists>d<10. c = char_of (48 + d :: nat)"
proof (induction n rule: nat_digits.induct)
  case (1 n)
  show ?case
  proof (cases "n < 10")
    case True
    with "1.prems" show ?thesis by (subst (asm) nat_digits.simps) auto
  next
    case False
    with "1.prems" have "c \<in> set (nat_digits (n div 10)) \<or> c = char_of (48 + n mod 10)"
      by (subst (asm) nat_digits.simps) auto
    moreover have "n mod 10 < 10" by simp
    ultimately show ?thesis using "1.IH"[OF False] by blast
  qed
qed

lemma nat_digits_no: "of_char c < (48::nat) \<or> 57 < (of_char c :: nat) \<Longrightarrow> c \<notin> set (nat_digits n)"
  by (auto dest!: nat_digits_chars)

lemma itoa_inj: "itoa m = itoa n \<Longrightarrow> m = n"
proof (induction m n rule: linorder_wlog)
  case (le a b)
  have minus: "nat_digits k \<noteq> CHR ''-'' # s" "CHR ''-'' # s \<noteq> nat_digits k" for k s
    using nat_digits_not_sign(1)[of k "CHR ''-''" s] by auto
  from le show ?case
    by (cases "a < 0"; cases "b < 0") (auto simp: itoa_def minus dest!: nat_digits_inj)
next
  case (sym a b)
  then show ?case by simp
qed

lemma itoa_no: "of_char c < (48::nat) \<or> 57 < (of_char c :: nat) \<Longrightarrow> c \<noteq> CHR ''-'' \<Longrightarrow> c \<notin> set (itoa n)"
  using nat_digits_no[of c] by (simp add: itoa_def)

lemma itoa_underscore [simp]: "CHR ''_'' \<notin> set (itoa n)"
  by (rule itoa_no) simp_all

lemma itoa_p: "itoa n \<noteq> CHR ''p'' # s"
proof
  assume "itoa n = CHR ''p'' # s"
  then have "CHR ''p'' \<in> set (itoa n)" by simp
  moreover have "CHR ''p'' \<notin> set (itoa n)" by (rule itoa_no) simp_all
  ultimately show False by simp
qed

lemma page_path_inj: "page_path docID m = page_path docID n \<longleftrightarrow> m = n"
  by (auto simp: page_path_def dest: itoa_inj)

text \<open>The name that the PDF library gives to page \<open>n\<close> of \<open>original.pdf\<close>.\<close>

definition pdfcpu_name :: "int \<Rightarrow> string" where
  "pdfcpu_name n = ''original_page_'' @ itoa n @ ''.pdf''"

lemma suffix_after_sep:
  assumes "c \<notin> set x" and "c \<notin> set y" and "u @ c # x = v @ c # y"
  shows "x = y"
proof -
  have "rev x @ c # rev u = rev y @ c # rev v" using arg_cong[OF assms(3), of rev] by simp
  then show ?thesis using append_sep_eq[of c "rev x" "rev y" "rev u" "rev v"] assms(1,2) by simp
qed

lemma has_suffixD: "has_suffix s suf \<Longrightarrow> \<exists>pre. s = pre @ suf"
  unfolding has_suffix_def by (metis append_take_drop_id)

lemma pdfcpu_suffix: "has_suffix (pdfcpu_name m) (page_suffix n) \<longleftrightarrow> m = n"
proof
  assume "has_suffix (pdfcpu_name m) (page_suffix n)"
  then obtain pre where "pdfcpu_name m = pre @ page_suffix n" by (blast dest: has_suffixD)
  then have "''original_page'' @ CHR ''_'' # itoa m @ ''.pdf'' = pre @ CHR ''_'' # itoa n @ ''.pdf''"
    by (simp add: pdfcpu_name_def page_suffix_def)
  then have "itoa m @ ''.pdf'' = itoa n @ ''.pdf''"
    by (rule suffix_after_sep[rotated -1]) simp_all
  then show "m = n" by (auto dest: itoa_inj)
next
  assume "m = n"
  then show "has_suffix (pdfcpu_name m) (page_suffix n)"
    by (simp add: has_suffix_def pdfcpu_name_def page_suffix_def)
qed

lemma pdfcpu_name_inj: "pdfcpu_name m = pdfcpu_name n \<longleftrightarrow> m = n"
  by (auto simp: pdfcpu_name_def dest: itoa_inj)

lemma pdfcpu_not_short: "pdfcpu_name m \<noteq> ''original_'' @ itoa n @ ''.pdf''"
proof
  assume "pdfcpu_name m = ''original_'' @ itoa n @ ''.pdf''"
  then have "itoa n @ ''.pdf'' = CHR ''p'' # ''age_'' @ itoa m @ ''.pdf''" by (simp add: pdfcpu_name_def)
  then obtain t where "itoa n = CHR ''p'' # t" by (cases "itoa n") auto
  with itoa_p show False by blast
qed

section \<open>What the PDF library writes\<close>

text \<open>
  Documented by the library: a successful extraction of the page \<open>n\<close> of a file \<open>original.pdf\<close>
  that has this page writes one file, \<open>original_page_n.pdf\<close>; \<open>page orig n\<close> is its content. A
  failed one may leave a file of this name, with any content.
\<close>

definition pdfcpu_writes :: "worker_env \<Rightarrow> (bytes \<Rightarrow> int \<Rightarrow> bytes) \<Rightarrow> bool" where
  "pdfcpu_writes W page \<longleftrightarrow>
     (\<forall>orig N n fs r. pdf_PageCountFile W orig = Inr N \<and> 1 \<le> n \<and> n \<le> N \<and> pdf_ExtractPagesFile W orig n = (fs, r) \<longrightarrow>
        fst ` set fs \<subseteq> {pdfcpu_name n} \<and> (r = Inr () \<longrightarrow> fs = [(pdfcpu_name n, page orig n)]))"

text \<open>An upload whose body cannot be read fails.\<close>

definition upload_reads_body :: "'s storage \<Rightarrow> bool" where
  "upload_reads_body st \<longleftrightarrow> (\<forall>k e n ct s. \<exists>e' s'. st_Upload st k (Inl e) n ct s = (Inl e', s'))"

text \<open>The directory holds only files with such names.\<close>

definition dir_ok :: "pages_dir \<Rightarrow> bool" where
  "dir_ok dir \<longleftrightarrow> (\<forall>f \<in> set dir. \<exists>n. fst f = pdfcpu_name n)"

lemma dir_ok_fold: "dir_ok dir \<Longrightarrow> fst ` set fs \<subseteq> {pdfcpu_name n} \<Longrightarrow> dir_ok (fold write_file fs dir)"
proof (induction fs arbitrary: dir)
  case Nil
  then show ?case by simp
next
  case (Cons f fs)
  then have "fst f = pdfcpu_name n" by simp
  with Cons.prems have "dir_ok (write_file f dir)" by (auto simp: dir_ok_def write_file_def)
  with Cons show ?case by simp
qed

text \<open>Writing a file leaves the others.\<close>

lemma map_of_write_file: "k \<noteq> fst f \<Longrightarrow> map_of (write_file f dir) k = map_of dir k"
  by (cases f) (induction dir, auto simp: write_file_def)

lemma map_of_fold_write: "fst ` set fs \<subseteq> {a} \<Longrightarrow> k \<noteq> a \<Longrightarrow> map_of (fold write_file fs dir) k = map_of dir k"
  by (induction fs arbitrary: dir) (auto simp: map_of_write_file)

lemma dir_ok_rename: "dir_ok dir \<Longrightarrow> rename_file (''original_'' @ itoa n @ ''.pdf'') to dir = None"
proof (cases "map_of dir (''original_'' @ itoa n @ ''.pdf'')")
  case None
  then show ?thesis by (simp add: rename_file_def)
next
  case (Some c)
  moreover assume "dir_ok dir"
  ultimately obtain m where "''original_'' @ itoa n @ ''.pdf'' = pdfcpu_name m"
    unfolding dir_ok_def by (metis fst_conv map_of_SomeD)
  with pdfcpu_not_short show ?thesis by metis
qed

lemma dir_ok_find:
  assumes "dir_ok dir" and "findExtractedPage dir n = Inr f"
  shows "f = pdfcpu_name n"
proof -
  let ?fs = "filter (\<lambda>f. has_suffix f (page_suffix n)) (map fst dir)"
  from assms(2) obtain rest where "sort (remdups ?fs) = f # rest"
    by (auto simp: findExtractedPage_def split: list.splits)
  then have "f \<in> set ?fs" by (metis list.set_intros(1) set_remdups set_sort)
  with assms(1) show ?thesis using pdfcpu_suffix unfolding dir_ok_def by fastforce
qed

section \<open>What a goroutine has done\<close>

definition page_row :: "uuid \<Rightarrow> string \<Rightarrow> int \<Rightarrow> int \<Rightarrow> database \<Rightarrow> bool" where
  "page_row i docID n sz db \<longleftrightarrow>
     (\<exists>pg \<in> set (document_pages db). page_at i n pg \<and> MinioPath pg = page_path docID n \<and> page_SizeBytes pg = sz)"

text \<open>What each position of the goroutine of page \<open>n\<close> guarantees; \<open>c\<close> is the content
  of the page, \<open>ob\<close> the bucket, \<open>dir\<close> the directory.\<close>

definition job_ok ::
  "bytes \<Rightarrow> string \<Rightarrow> uuid \<Rightarrow> (string \<Rightarrow> bytes option) \<Rightarrow> database \<Rightarrow> pages_dir \<Rightarrow> int \<Rightarrow> page_job \<Rightarrow> bool" where
  "job_ok c docID i ob db dir n j \<longleftrightarrow>
     (case j of
        Locate \<Rightarrow> map_of dir (pdfcpu_name n) = Some c
      | Opening f \<Rightarrow> f = pdfcpu_name n \<and> map_of dir f = Some c
      | Uploading b sz \<Rightarrow> sz = int (length c) \<and> (b = Inr c \<or> (\<exists>e. b = Inl e))
      | Saving sz \<Rightarrow> sz = int (length c) \<and> ob (page_path docID n) = Some c
      | Returned None \<Rightarrow> ob (page_path docID n) = Some c \<and> page_row i docID n (int (length c)) db
      | Done None \<Rightarrow> ob (page_path docID n) = Some c \<and> page_row i docID n (int (length c)) db
      | _ \<Rightarrow> True)"

lemma job_ok_simps [simp]:
  "job_ok c docID i ob db dir n Waiting" "job_ok c docID i ob db dir n Extract"
  "job_ok c docID i ob db dir n (Returned (Some e))" "job_ok c docID i ob db dir n (Done (Some e))"
  "job_ok c docID i ob db dir n (Done r) = job_ok c docID i ob db dir n (Returned r)"
  "job_ok c docID i ob db dir n (fail_job msg n' e)"
  by (simp_all add: job_ok_def fail_job_def split: option.splits)

lemma job_ok_frame:
  assumes "job_ok c docID i ob db dir n j" and "ob' (page_path docID n) = ob (page_path docID n)"
    and "\<And>sz. page_row i docID n sz db \<Longrightarrow> page_row i docID n sz db'"
    and "map_of dir' (pdfcpu_name n) = map_of dir (pdfcpu_name n)"
  shows "job_ok c docID i ob' db' dir' n j"
  using assms by (auto simp: job_ok_def split: page_job.splits option.splits)

text \<open>A saved page keeps the rows of the others, and touches pages only.\<close>

lemma upsert_page_rows:
  assumes "upsert_page p i n path sz db = Inr (pg, db')"
  shows "path = page_path docID n \<Longrightarrow> page_row i docID n sz db'"
    and "m \<noteq> n \<Longrightarrow> page_row i docID m sz' db \<Longrightarrow> page_row i docID m sz' db'"
    and "\<exists>ps. db' = db\<lparr>document_pages := ps\<rparr>"
proof -
  note eff = upsert_page_Inr[OF assms]
  show "\<exists>ps. db' = db\<lparr>document_pages := ps\<rparr>" using eff by blast
  have in_upd: "page_at i n pg0 \<Longrightarrow> pg0 \<in> set ps \<Longrightarrow> set_page path sz pg0 \<in> set (sql_update (page_at i n) (set_page path sz) ps)"
    "\<not> page_at i n pg0 \<Longrightarrow> pg0 \<in> set ps \<Longrightarrow> pg0 \<in> set (sql_update (page_at i n) (set_page path sz) ps)" for pg0 ps
    by (auto simp: in_set_sql_update)
  have "\<exists>pg' \<in> set (document_pages db'). page_at i n pg' \<and> MinioPath pg' = path \<and> page_SizeBytes pg' = sz"
    using eff
  proof (elim conjE disjE bexE)
    fix pg0 assume "pg0 \<in> set (document_pages db)" "page_at i n pg0"
      and "db' = db\<lparr>document_pages := sql_update (page_at i n) (set_page path sz) (document_pages db)\<rparr>"
    then show ?thesis by (intro bexI[of _ "set_page path sz pg0"]) (auto intro: in_upd)
  qed auto
  then show "page_row i docID n sz db'" if "path = page_path docID n"
    using that by (simp add: page_row_def)
  show "page_row i docID m sz' db'" if "m \<noteq> n" "page_row i docID m sz' db"
  proof -
    from that(2) obtain pg0 where pg0: "pg0 \<in> set (document_pages db)" "page_at i m pg0"
      "MinioPath pg0 = page_path docID m" "page_SizeBytes pg0 = sz'" by (auto simp: page_row_def)
    with that(1) have "\<not> page_at i n pg0" by (auto simp: page_at_def)
    with eff pg0 have "pg0 \<in> set (document_pages db')" using in_upd(2) by auto
    with pg0 show ?thesis by (auto simp: page_row_def)
  qed
qed

definition ex_ok ::
  "(bytes \<Rightarrow> int \<Rightarrow> bytes) \<Rightarrow> bytes \<Rightarrow> string \<Rightarrow> uuid \<Rightarrow> ('s \<Rightarrow> string \<Rightarrow> bytes option) \<Rightarrow> database \<Rightarrow> 's extraction \<Rightarrow> bool" where
  "ex_ok page orig docID i objects db0 x \<longleftrightarrow>
     dir_ok (ex_dir x) \<and>
     (\<forall>k < length (jobs x). job_ok (page orig (int k + 1)) docID i (objects (ex_store x)) (ex_db x) (ex_dir x) (int k + 1) (jobs x ! k)) \<and>
     (firstErr x = None \<longrightarrow> (\<forall>e. Done (Some e) \<notin> set (jobs x))) \<and>
     (\<exists>ps. ex_db x = db0\<lparr>document_pages := ps\<rparr>)"

context object_storage
begin

lemma upload_page_ok:
  assumes "upload_reads_body st" and "st_Upload st (page_path docID n) b sz ct s = (r, s')"
    and "job_ok c docID i (objects s) db dir n (Uploading b sz)"
  shows "k \<noteq> page_path docID n \<Longrightarrow> objects s' k = objects s k"
    and "r = Inr k' \<Longrightarrow> objects s' (page_path docID n) = Some c"
  using assms upload_stores upload_other
  by (cases r; cases b; auto simp: job_ok_def upload_reads_body_def; (metis Pair_inject sum.distinct(1))?)+

lemma page_step_ok:
  assumes "pdfcpu_writes W page" and "upload_reads_body st" and "uuid_in p docID = Some i"
    and "dir_ok dir" and "job_ok (page orig n) docID i (objects s) db dir n j"
    and "pdf_PageCountFile W orig = Inr N" "1 \<le> n" "n \<le> N" and "holds_sem j" and "\<forall>e. j \<noteq> Returned e"
    and run: "page_step W st p docID orig n j (dir, s, db) = (j', dir', s', db')"
  shows "dir_ok dir' \<and> job_ok (page orig n) docID i (objects s') db' dir' n j' \<and>
    (\<forall>m. m \<noteq> n \<longrightarrow> map_of dir' (pdfcpu_name m) = map_of dir (pdfcpu_name m)) \<and>
    (\<forall>k. k \<noteq> page_path docID n \<longrightarrow> objects s' k = objects s k) \<and>
    (\<forall>m sz. m \<noteq> n \<longrightarrow> page_row i docID m sz db \<longrightarrow> page_row i docID m sz db') \<and>
    (\<exists>ps. db' = db\<lparr>document_pages := ps\<rparr>) \<and> (\<forall>e. j' \<noteq> Done e)"
proof -
  have same: "\<exists>ps. db = db\<lparr>document_pages := ps\<rparr>" by (rule exI[of _ "document_pages db"]) simp
  show ?thesis
  proof (cases j)
    case Extract
    obtain fs r where fs: "pdf_ExtractPagesFile W orig n = (fs, r)" by (cases "pdf_ExtractPagesFile W orig n")
    with assms(1,6-8) have w: "fst ` set fs \<subseteq> {pdfcpu_name n}" "r = Inr () \<Longrightarrow> fs = [(pdfcpu_name n, page orig n)]"
      by (auto simp: pdfcpu_writes_def)
    have "dir_ok (fold write_file fs dir)" by (rule dir_ok_fold[OF assms(4) w(1)])
    moreover have "map_of (fold write_file fs dir) (pdfcpu_name m) = map_of dir (pdfcpu_name m)" if "m \<noteq> n" for m
      by (rule map_of_fold_write[OF w(1)]) (use that pdfcpu_name_inj in blast)
    moreover have "map_of (fold write_file fs dir) (pdfcpu_name n) = Some (page orig n)" if "r = Inr ()"
      using w(2)[OF that] by (simp add: write_file_def)
    ultimately show ?thesis
      using run fs Extract same by (cases r) (auto simp: job_ok_def[where j = Locate] fail_job_def)
  next
    case Locate
    with run same assms(4,5) dir_ok_rename[OF assms(4)] dir_ok_find[OF assms(4)] show ?thesis
      by (auto simp: fail_job_def job_ok_def Let_def split: sum.splits if_splits)
  next
    case (Opening f)
    have "f = pdfcpu_name n \<and> map_of dir f = Some (page orig n)"
      using assms(5) unfolding Opening job_ok_def page_job.case .
    then have f: "f = pdfcpu_name n" "map_of dir (pdfcpu_name n) = Some (page orig n)" by metis+
    from run Opening same assms(4) f(2) show ?thesis
      by (auto simp: f(1) job_ok_def split: option.splits)
  next
    case (Uploading b sz)
    obtain r s1 where up: "st_Upload st (page_path docID n) b sz ''application/pdf'' s = (r, s1)" by fastforce
    note page = upload_page_ok[OF assms(2) up assms(5)[unfolded Uploading]]
    from run Uploading same assms(4,5) up page show ?thesis
      by (auto simp: fail_job_def job_ok_def split: sum.splits)
  next
    case (Saving sz)
    with assms(5) have ok: "sz = int (length (page orig n))" "objects s (page_path docID n) = Some (page orig n)"
      by (simp_all add: job_ok_def)
    obtain r db1 where save: "SavePage p docID n (page_path docID n) sz db = (r, db1)" by fastforce
    show ?thesis
    proof (cases r)
      case (Inl e)
      with save document_errors(7) have "db1 = db" by blast
      with run Saving save Inl same assms(4) show ?thesis by (auto simp: fail_job_def)
    next
      case (Inr pg)
      with save assms(3) have up: "upsert_page p i n (page_path docID n) sz db = Inr (pg, db1)" by (auto simp: SavePage_Inr)
      from upsert_page_rows[OF up] run Saving save Inr ok assms(4) show ?thesis
        by (auto simp: job_ok_def)
    qed
  qed (use assms(9,10) in \<open>auto simp: holds_sem_def is_done_def\<close>)
qed

lemma move_ok:
  assumes "pdfcpu_writes W page" and "upload_reads_body st" and "uuid_in p docID = Some i"
    and pages: "pdf_PageCountFile W orig = Inr N" "length (jobs x) \<le> nat N"
    and ok: "ex_ok page orig docID i objects db0 x" and mv: "can_move x k"
  shows "ex_ok page orig docID i objects db0 (move W st p docID orig k x)"
proof -
  have k: "k < length (jobs x)" using mv by (simp add: can_move_def)
  have dir: "dir_ok (ex_dir x)" and ps: "\<exists>ps. ex_db x = db0\<lparr>document_pages := ps\<rparr>"
    and err: "firstErr x = None \<Longrightarrow> Done (Some e) \<notin> set (jobs x)" for e
    using ok by (auto simp: ex_ok_def)
  have job: "job_ok (page orig (int m + 1)) docID i (objects (ex_store x)) (ex_db x) (ex_dir x) (int m + 1) (jobs x ! m)"
    if "m < length (jobs x)" for m
    using ok that by (simp add: ex_ok_def)
  from mv show ?thesis
  proof (cases rule: move_cases[of x k W st p docID orig])
    case enter
    with dir ps err job k show ?thesis
      by (auto simp: ex_ok_def nth_list_update dest!: set_update_subset_insert[THEN subsetD])
  next
    case (leave e)
    with job[OF k] have "job_ok (page orig (int k + 1)) docID i (objects (ex_store x)) (ex_db x) (ex_dir x) (int k + 1) (Done e)"
      by simp
    with leave dir ps err job k show ?thesis
      by (auto simp: ex_ok_def nth_list_update dest!: set_update_subset_insert[THEN subsetD] split: if_splits)
  next
    case (call j dir' s' db')
    have "1 \<le> int k + 1" "int k + 1 \<le> N" using k pages(2) by linarith+
    note step = page_step_ok[OF assms(1-3) dir job[OF k] pages(1) this call(1,2,3)]
    have "job_ok (page orig (int m + 1)) docID i (objects s') db' dir' (int m + 1) ((jobs x)[k := j] ! m)"
      if "m < length (jobs x)" for m
    proof (cases "m = k")
      case True
      with step k show ?thesis by simp
    next
      case False
      then have "int m + 1 \<noteq> int k + 1" by simp
      with step page_path_inj have "objects s' (page_path docID (int m + 1)) = objects (ex_store x) (page_path docID (int m + 1))"
        and "\<And>sz. page_row i docID (int m + 1) sz (ex_db x) \<Longrightarrow> page_row i docID (int m + 1) sz db'"
        and "map_of dir' (pdfcpu_name (int m + 1)) = map_of (ex_dir x) (pdfcpu_name (int m + 1))" by blast+
      then have "job_ok (page orig (int m + 1)) docID i (objects s') db' dir' (int m + 1) (jobs x ! m)"
        by (rule job_ok_frame[where ob = "objects (ex_store x)" and db = "ex_db x" and dir = "ex_dir x", OF job[OF that]])
      with False show ?thesis by simp
    qed
    moreover have "\<exists>ps. db' = db0\<lparr>document_pages := ps\<rparr>"
    proof -
      from step ps obtain qs rs where "db' = (ex_db x)\<lparr>document_pages := qs\<rparr>" "ex_db x = db0\<lparr>document_pages := rs\<rparr>" by blast
      then show ?thesis by auto
    qed
    moreover have "firstErr x = None \<longrightarrow> (\<forall>e. Done (Some e) \<notin> set ((jobs x)[k := j]))"
      using err step by (auto dest!: set_update_subset_insert[THEN subsetD])
    ultimately show ?thesis using step call(4) by (simp add: ex_ok_def)
  qed
qed

lemma run_jobs_ok:
  assumes "pdfcpu_writes W page" and "upload_reads_body st" and "\<And>k. uuid_in (snd (ch k)) docID = Some i"
    and pages: "pdf_PageCountFile W orig = Inr N"
  shows "length (jobs x) \<le> nat N \<Longrightarrow> ex_ok page orig docID i objects db0 x \<Longrightarrow> ex_ok page orig docID i objects db0 (run_jobs W st docID orig ch k x)"
proof (induction "work_left x" arbitrary: x k rule: less_induct)
  case less
  show ?case
  proof (cases "movable x = []")
    case True
    with less.prems show ?thesis by (simp add: run_jobs_done)
  next
    case False
    note mv = movable_nth[OF False, of "fst (ch k)"]
    show ?thesis
      unfolding run_jobs_move[OF False]
      by (rule less.hyps[OF move_decreases[OF mv] _ move_ok[OF assms less.prems mv]])
         (use less.prems(1) in simp)
  qed
qed

lemma ex_ok_start: "ex_ok page orig docID i objects db (start_extraction n s db)"
  by (auto simp: ex_ok_def start_extraction_def dir_ok_def intro!: exI[of _ "document_pages db"])

text \<open>When no goroutine has failed, every page is stored and recorded.\<close>

lemma ex_ok_complete:
  assumes "ex_ok page orig docID i objects db0 x" and "\<forall>j \<in> set (jobs x). is_done j" and "firstErr x = None"
    and "1 \<le> n" and "n \<le> int (length (jobs x))"
  shows "objects (ex_store x) (page_path docID n) = Some (page orig n) \<and>
    page_row i docID n (int (length (page orig n))) (ex_db x)"
proof -
  have k: "nat (n - 1) < length (jobs x)" "int (nat (n - 1)) + 1 = n" using assms(4,5) by auto
  have "is_done (jobs x ! nat (n - 1))" using assms(2) k(1) by simp
  moreover have "Done (Some e) \<noteq> jobs x ! nat (n - 1)" for e
    using assms(1,3) k(1) by (metis ex_ok_def nth_mem)
  ultimately have "jobs x ! nat (n - 1) = Done None"
    unfolding is_done_def by (cases "jobs x ! nat (n - 1)") (simp_all, metis option.exhaust)
  with assms(1) k show ?thesis by (force simp: ex_ok_def job_ok_def)
qed

lemma extraction_ok:
  assumes "pdfcpu_writes W page" and "upload_reads_body st" and "\<And>k. uuid_in (snd (ch k)) docID = Some i"
    and x: "x = run_jobs W st docID orig ch 0 (start_extraction n s db)" and "firstErr x = None"
    and pages: "pdf_PageCountFile W orig = Inr n"
  shows "(\<forall>m. 1 \<le> m \<and> m \<le> n \<longrightarrow> objects (ex_store x) (page_path docID m) = Some (page orig m) \<and>
      page_row i docID m (int (length (page orig m))) (ex_db x)) \<and>
    (\<exists>ps. ex_db x = db\<lparr>document_pages := ps\<rparr>)"
proof -
  have ok: "ex_ok page orig docID i objects db x"
    unfolding x by (rule run_jobs_ok[OF assms(1-3) pages _ ex_ok_start]) (simp add: start_extraction_def)
  have len: "length (jobs x) = nat n"
    using ex_steps_jobs[OF conjunct1[OF run_jobs_steps], of W st docID orig ch 0 "start_extraction n s db"]
    by (simp add: x start_extraction_def)
  have "\<forall>j \<in> set (jobs x). is_done j"
    unfolding all_done_stuck x using run_jobs_steps by blast
  from ex_ok_complete[OF ok this assms(5)] len ok show ?thesis by (auto simp: ex_ok_def)
qed

end

section \<open>What the handler touches\<close>

text \<open>Page goroutines change the rows of pages only.\<close>

lemma page_step_db: "page_step W st p docID orig n j (dir, s, db) = (j', dir', s', db') \<Longrightarrow> \<exists>ps. db' = db\<lparr>document_pages := ps\<rparr>"
proof -
  assume run: "page_step W st p docID orig n j (dir, s, db) = (j', dir', s', db')"
  have same: "\<exists>ps. db = db\<lparr>document_pages := ps\<rparr>" by (rule exI[of _ "document_pages db"]) simp
  show ?thesis
  proof (cases "db' = db")
    case True
    with same show ?thesis by simp
  next
    case False
    with run document_errors(7) obtain sz pg where "SavePage p docID n (page_path docID n) sz db = (Inr pg, db')"
      by (cases "(W, st, p, docID, orig, n, j, dir, s, db)" rule: page_step.cases)
         (auto simp: fail_job_def Let_def split: sum.splits prod.splits option.splits)
    then obtain i where "upsert_page p i n (page_path docID n) sz db = Inr (pg, db')" by (auto simp: SavePage_Inr)
    then show ?thesis by (rule upsert_page_rows(3))
  qed
qed

lemma move_db: "can_move x i \<Longrightarrow> \<exists>ps. ex_db (move W st p docID orig i x) = (ex_db x)\<lparr>document_pages := ps\<rparr>"
proof (elim move_cases[of x i W st p docID orig])
  fix j dir s db
  assume "page_step W st p docID orig (int i + 1) (jobs x ! i) (ex_dir x, ex_store x, ex_db x) = (j, dir, s, db)"
    and "move W st p docID orig i x = x\<lparr>jobs := (jobs x)[i := j], ex_dir := dir, ex_store := s, ex_db := db\<rparr>"
  then show ?thesis using page_step_db by simp
qed (simp_all, (rule exI[of _ "document_pages (ex_db x)"], simp)+)

lemma run_jobs_db: "\<exists>ps. ex_db (run_jobs W st docID orig ch k x) = (ex_db x)\<lparr>document_pages := ps\<rparr>"
proof (induction "work_left x" arbitrary: x k rule: less_induct)
  case less
  show ?case
  proof (cases "movable x = []")
    case True
    then show ?thesis by (intro exI[of _ "document_pages (ex_db x)"]) (simp add: run_jobs_done)
  next
    case False
    note mv = movable_nth[OF False, of "fst (ch k)"]
    obtain ps where "ex_db (move W st (snd (ch k)) docID orig (movable x ! (fst (ch k) mod length (movable x))) x) =
        (ex_db x)\<lparr>document_pages := ps\<rparr>" using move_db[OF mv] by blast
    then show ?thesis
      using less.hyps[OF move_decreases[OF mv, of W st "snd (ch k)" docID orig], of "Suc k"]
      by (simp add: run_jobs_move[OF False])
  qed
qed

lemma GetDocumentByID_missing:
  "GetDocumentByID p i db = Inl e \<Longrightarrow> errors_is e ErrNotFound \<Longrightarrow>
     \<exists>j. uuid_in p i = Some j \<and> j \<notin> doc_ID ` set (documents db)"
  by (auto simp: GetDocumentByID_def no_rows_not_found_def exec_def uuid_arg_def pg_error_def query_row_def
      filter_empty_conv split: if_splits option.splits list.splits)

text \<open>The ways a task ends.\<close>

lemma HandleExtractPages_ends:
  assumes "HandleExtractPages W st aq p ch t (s, db, q) = (r, s', db', q')"
    and "unmarshal_extract (task_Payload t) = Inr payload" and "ep_DocumentID payload = docID"
  obtains (lookup) e where "GetDocumentByID p docID db = Inl e" and "s' = s" and "db' = db" and "q' = q"
      and "r = (if errors_is e ErrNotFound then None else Some (Errorf (''get document '' @ docID) e))"
  | (prepare) d e where "GetDocumentByID p docID db = Inr d" and "prepare_extraction W st docID d s = Inl e"
      and "worker_fail aq p docID e (s, db, q) = (r, s', db', q')"
  | (pages) d orig n x e where "GetDocumentByID p docID db = Inr d" and "prepare_extraction W st docID d s = Inr (orig, n)"
      and "x = run_jobs W st docID orig ch 0 (start_extraction n s db)" and "firstErr x = Some e"
      and "worker_fail aq p docID e (ex_store x, ex_db x, q) = (r, s', db', q')"
  | (mark) d orig n x e where "GetDocumentByID p docID db = Inr d" and "prepare_extraction W st docID d s = Inr (orig, n)"
      and "x = run_jobs W st docID orig ch 0 (start_extraction n s db)" and "firstErr x = None"
      and "MarkReady p docID n (ex_db x) = (Inl e, db')" and "s' = ex_store x" and "q' = q"
      and "r = Some (Errorf ''mark ready'' e)"
  | (ready) d orig n x where "GetDocumentByID p docID db = Inr d" and "prepare_extraction W st docID d s = Inr (orig, n)"
      and "x = run_jobs W st docID orig ch 0 (start_extraction n s db)" and "firstErr x = None"
      and "MarkReady p docID n (ex_db x) = (Inr (), db')" and "s' = ex_store x"
      and "q' = enqueueWebhooks aq p docID ''ready'' n db' q" and "r = None"
proof (cases "GetDocumentByID p docID db")
  case (Inl e)
  with assms lookup show thesis by (simp add: HandleExtractPages_def split: if_splits)
next
  case (Inr d)
  show thesis
  proof (cases "prepare_extraction W st docID d s")
    case (Inl e)
    with Inr assms prepare show thesis by (simp add: HandleExtractPages_def)
  next
    case prep: (Inr on)
    obtain orig n where on: "on = (orig, n)" by fastforce
    define x where "x = run_jobs W st docID orig ch 0 (start_extraction n s db)"
    have run: "finish_extraction aq p docID n x q = (r, s', db', q')"
      using assms Inr prep on by (simp add: HandleExtractPages_def x_def Let_def)
    show thesis
    proof (cases "firstErr x")
      case None
      obtain m dbm where m: "MarkReady p docID n (ex_db x) = (m, dbm)" by fastforce
      show thesis
        by (cases m) (use run None m mark[OF Inr _ x_def] ready[OF Inr _ x_def] prep on in
            \<open>auto simp: finish_extraction_def\<close>)
    next
      case (Some e)
      with run pages[OF Inr _ x_def] prep on show thesis by (simp add: finish_extraction_def)
    qed
  qed
qed

end
