(* ===== verification/ProcessorLive.thy ===== *)
theory ProcessorLive
  imports ProcessorProps
begin

text \<open>
  When the environment of the worker answers every call, no page goroutine fails, in any
  interleaving: the invariant behind the liveness of the extraction.
\<close>

section \<open>A working environment\<close>

text \<open>The library extracts the pages \<open>1\<close> to \<open>n\<close> of the original, the file system and the
  storage do what they are asked to.\<close>

definition working :: "worker_env \<Rightarrow> 's storage \<Rightarrow> bytes \<Rightarrow> int \<Rightarrow> bool" where
  "working W st orig n \<longleftrightarrow>
     (\<forall>m. 1 \<le> m \<and> m \<le> n \<longrightarrow> snd (pdf_ExtractPagesFile W orig m) = Inr ()) \<and>
     (\<forall>m. os_Open W m = None \<and> os_Stat W m = None \<and> os_Read W m = None) \<and>
     (\<forall>k b sz ct s. \<exists>s'. st_Upload st k (Inr b) sz ct s = (Inr k, s'))"

text \<open>The servers of the calls know the document, save pages and make new row ids.\<close>

definition serving :: "(nat \<Rightarrow> nat \<times> pg) \<Rightarrow> string \<Rightarrow> uuid \<Rightarrow> bool" where
  "serving ch docID i \<longleftrightarrow>
     (\<forall>k. uuid_in (snd (ch k)) docID = Some i \<and> \<not> fault (snd (ch k)) S_SavePage) \<and>
     inj (\<lambda>k. gen_uuid (snd (ch k)))"

definition fresh_ids :: "(nat \<Rightarrow> nat \<times> pg) \<Rightarrow> nat \<Rightarrow> database \<Rightarrow> bool" where
  "fresh_ids ch k db \<longleftrightarrow> (\<forall>j \<ge> k. gen_uuid (snd (ch j)) \<notin> page_ID ` set (document_pages db))"

lemma fresh_later: "fresh_ids ch k db \<Longrightarrow> fresh_ids ch (Suc k) db"
  by (simp add: fresh_ids_def)

section \<open>No goroutine fails\<close>

definition job_live :: "pages_dir \<Rightarrow> int \<Rightarrow> page_job \<Rightarrow> bool" where
  "job_live dir n j \<longleftrightarrow>
     (case j of
        Locate \<Rightarrow> pdfcpu_name n \<in> fst ` set dir
      | Opening f \<Rightarrow> f = pdfcpu_name n \<and> f \<in> fst ` set dir
      | Uploading b sz \<Rightarrow> (\<exists>c. b = Inr c)
      | Returned e \<Rightarrow> e = None
      | Done e \<Rightarrow> e = None
      | _ \<Rightarrow> True)"

lemma job_live_dir: "job_live dir n j \<Longrightarrow> fst ` set dir \<subseteq> fst ` set dir' \<Longrightarrow> job_live dir' n j"
  by (auto simp: job_live_def split: page_job.splits)

lemma fold_write_names: "fst ` set dir \<subseteq> fst ` set (fold write_file fs dir)"
proof (induction fs arbitrary: dir)
  case Nil
  then show ?case by simp
next
  case (Cons f fs)
  have "fst ` set dir \<subseteq> fst ` set (write_file f dir)" by (auto simp: write_file_def)
  also have "\<dots> \<subseteq> fst ` set (fold write_file fs (write_file f dir))" by (rule Cons)
  finally show ?case by simp
qed

lemma find_written:
  assumes "dir_ok dir" and "pdfcpu_name n \<in> fst ` set dir"
  shows "findExtractedPage dir n = Inr (pdfcpu_name n)"
proof (cases "findExtractedPage dir n")
  case (Inr f)
  with dir_ok_find[OF assms(1)] show ?thesis by simp
next
  case (Inl e)
  let ?fs = "filter (\<lambda>f. has_suffix f (page_suffix n)) (map fst dir)"
  have "sort (remdups ?fs) = []"
    using Inl unfolding findExtractedPage_def by (cases "sort (remdups ?fs)") simp_all
  then have "set ?fs = {}" by (metis set_remdups set_sort list.set(1))
  moreover have "pdfcpu_name n \<in> set ?fs" using assms(2) by (auto simp: pdfcpu_suffix)
  ultimately show ?thesis by simp
qed

lemma SavePage_works:
  assumes "uuid_in p docID = Some i" and "\<not> fault p S_SavePage" and "int4_ok n"
    and "i \<in> doc_ID ` set (documents db)" and "gen_uuid p \<notin> page_ID ` set (document_pages db)"
  shows "\<exists>pg db'. SavePage p docID n path sz db = (Inr pg, db') \<and>
    page_ID ` set (document_pages db') \<subseteq> insert (gen_uuid p) (page_ID ` set (document_pages db))"
proof -
  have "\<exists>pg db'. upsert_page p i n path sz db = Inr (pg, db') \<and>
      page_ID ` set (document_pages db') \<subseteq> insert (gen_uuid p) (page_ID ` set (document_pages db))"
  proof (cases "filter (page_at i n) (document_pages db)")
    case Nil
    with assms(3-5) show ?thesis by (auto simp: upsert_page_def Let_def)
  next
    case (Cons pg rest)
    have "page_ID ` set (sql_update (page_at i n) (set_page path sz) (document_pages db)) = page_ID ` set (document_pages db)"
      by (simp add: map_sql_update flip: set_map)
    with Cons assms(3) show ?thesis by (auto simp: upsert_page_def)
  qed
  then show ?thesis using assms(1,2) by (simp add: SavePage_Inr)
qed

lemma page_step_live:
  assumes "working W st orig N" and "1 \<le> n" and "n \<le> N" and "int4_ok n"
    and lib: "pdfcpu_writes W page" "pdf_PageCountFile W orig = Inr N"
    and srv: "uuid_in p docID = Some i" "\<not> fault p S_SavePage" and doc: "i \<in> doc_ID ` set (documents db)"
    and new: "gen_uuid p \<notin> page_ID ` set (document_pages db)"
    and dir: "dir_ok dir" and live: "job_live dir n j" and inside: "holds_sem j" "\<forall>e. j \<noteq> Returned e"
    and run: "page_step W st p docID orig n j (dir, s, db) = (j', dir', s', db')"
  shows "job_live dir' n j' \<and> dir_ok dir' \<and> fst ` set dir \<subseteq> fst ` set dir' \<and>
    page_ID ` set (document_pages db') \<subseteq> insert (gen_uuid p) (page_ID ` set (document_pages db))"
proof (cases j)
  case Extract
  from assms(1-3) have "snd (pdf_ExtractPagesFile W orig n) = Inr ()" by (simp add: working_def)
  with lib assms(2,3) have ex: "pdf_ExtractPagesFile W orig n = ([(pdfcpu_name n, page orig n)], Inr ())"
    unfolding pdfcpu_writes_def by (metis prod.collapse)
  have "dir_ok (fold write_file [(pdfcpu_name n, page orig n)] dir)"
    by (rule dir_ok_fold[OF dir]) simp
  with run Extract ex fold_write_names[of dir "[(pdfcpu_name n, page orig n)]"] show ?thesis
    by (auto simp: job_live_def write_file_def)
next
  case Locate
  with live have "findExtractedPage dir n = Inr (pdfcpu_name n)" and "pdfcpu_name n \<in> fst ` set dir"
    using find_written[OF dir] by (simp_all add: job_live_def)
  moreover have "(if os_Rename W n then None else rename_file (''original_'' @ itoa n @ ''.pdf'') (''page_'' @ itoa n @ ''.pdf'') dir) = None"
    by (simp only: dir_ok_rename[OF dir] if_cancel)
  ultimately have "j' = Opening (pdfcpu_name n)" and "dir' = dir" and "db' = db"
    using run unfolding Locate page_step.simps Let_def by (simp_all only: option.case sum.case prod.inject)
  with \<open>pdfcpu_name n \<in> fst ` set dir\<close> dir show ?thesis by (auto simp: job_live_def)
next
  case (Opening f)
  with live have f: "f = pdfcpu_name n" "f \<in> fst ` set dir" by (auto simp: job_live_def)
  then have "\<exists>c. map_of dir f = Some c" by (metis map_of_eq_None_iff not_None_eq)
  with run Opening assms(1) dir show ?thesis by (auto simp: job_live_def working_def)
next
  case (Uploading b sz)
  with live obtain c where "b = Inr c" by (auto simp: job_live_def)
  with assms(1) obtain s1 where "st_Upload st (page_path docID n) b sz ''application/pdf'' s = (Inr (page_path docID n), s1)"
    unfolding working_def by blast
  with run Uploading dir show ?thesis by (auto simp: job_live_def)
next
  case (Saving sz)
  obtain pg db1 where save: "SavePage p docID n (page_path docID n) sz db = (Inr pg, db1)"
    and "page_ID ` set (document_pages db1) \<subseteq> insert (gen_uuid p) (page_ID ` set (document_pages db))"
    using SavePage_works[OF srv assms(4) doc new, of "page_path docID n" sz] by blast
  moreover have "j' = Returned None" and "dir' = dir" and "db' = db1" using run Saving save by simp_all
  ultimately show ?thesis using dir by (simp add: job_live_def)
qed (use inside in \<open>auto simp: holds_sem_def is_done_def\<close>)

definition ex_live :: "int \<Rightarrow> uuid \<Rightarrow> (nat \<Rightarrow> nat \<times> pg) \<Rightarrow> nat \<Rightarrow> 's extraction \<Rightarrow> bool" where
  "ex_live N i ch k x \<longleftrightarrow>
     length (jobs x) = nat N \<and> dir_ok (ex_dir x) \<and> firstErr x = None \<and>
     (\<forall>m < length (jobs x). job_live (ex_dir x) (int m + 1) (jobs x ! m)) \<and>
     i \<in> doc_ID ` set (documents (ex_db x)) \<and> fresh_ids ch k (ex_db x)"

lemma move_live:
  assumes "working W st orig N" and "int4_ok N" and lib: "pdfcpu_writes W page" "pdf_PageCountFile W orig = Inr N" and srv0: "serving ch docID i"
    and live: "ex_live N i ch k x" and mv: "can_move x m"
  shows "ex_live N i ch (Suc k) (move W st (snd (ch k)) docID orig m x)"
proof -
  let ?p = "snd (ch k)"
  have m: "m < length (jobs x)" using mv by (simp add: can_move_def)
  have len: "length (jobs x) = nat N" and dir: "dir_ok (ex_dir x)" and err: "firstErr x = None"
    and doc: "i \<in> doc_ID ` set (documents (ex_db x))" and fresh: "fresh_ids ch k (ex_db x)"
    and job: "\<And>l. l < length (jobs x) \<Longrightarrow> job_live (ex_dir x) (int l + 1) (jobs x ! l)"
    using live by (simp_all add: ex_live_def)
  from mv show ?thesis
  proof (cases rule: move_cases[of x m W st ?p docID orig])
    case enter
    with live m show ?thesis by (auto simp: ex_live_def nth_list_update job_live_def fresh_later)
  next
    case (leave e)
    with job[OF m] have "e = None" by (simp add: job_live_def)
    with live leave m show ?thesis by (auto simp: ex_live_def nth_list_update job_live_def fresh_later)
  next
    case (call j dir' s' db')
    have n: "1 \<le> int m + 1" "int m + 1 \<le> N" "int4_ok (int m + 1)"
      using m len assms(2) by (auto simp: int4_ok_def)
    have srv: "uuid_in ?p docID = Some i" "\<not> fault ?p S_SavePage" and new: "gen_uuid ?p \<notin> page_ID ` set (document_pages (ex_db x))"
      using srv0 fresh by (auto simp: serving_def fresh_ids_def)
    note step = page_step_live[OF assms(1) n lib srv doc new dir job[OF m] call(1,2,3)]
    have "job_live dir' (int l + 1) ((jobs x)[m := j] ! l)" if "l < length (jobs x)" for l
      using step job_live_dir[OF job[OF that], of dir'] m by (cases "l = m") auto
    moreover have "documents db' = documents (ex_db x)" using page_step_db[OF call(3)] by auto
    moreover have "fresh_ids ch (Suc k) db'"
      unfolding fresh_ids_def
    proof (intro allI impI notI)
      fix l assume "Suc k \<le> l" and used: "gen_uuid (snd (ch l)) \<in> page_ID ` set (document_pages db')"
      have "gen_uuid (snd (ch l)) \<notin> page_ID ` set (document_pages (ex_db x))"
        using fresh \<open>Suc k \<le> l\<close> by (simp add: fresh_ids_def)
      with used step have "gen_uuid (snd (ch l)) = gen_uuid ?p" by blast
      moreover have "inj (\<lambda>k. gen_uuid (snd (ch k)))" using srv0 by (simp add: serving_def)
      ultimately have "l = k" by (auto dest: injD)
      with \<open>Suc k \<le> l\<close> show False by simp
    qed
    ultimately show ?thesis using step call(4) len err doc by (simp add: ex_live_def)
  qed
qed

lemma run_jobs_live:
  assumes "working W st orig N" and "int4_ok N" and "pdfcpu_writes W page" and "pdf_PageCountFile W orig = Inr N"
    and "serving ch docID i"
  shows "ex_live N i ch k x \<Longrightarrow> firstErr (run_jobs W st docID orig ch k x) = None"
proof (induction "work_left x" arbitrary: x k rule: less_induct)
  case less
  show ?case
  proof (cases "movable x = []")
    case True
    with less.prems show ?thesis by (simp add: run_jobs_done ex_live_def)
  next
    case False
    note mv = movable_nth[OF False, of "fst (ch k)"]
    show ?thesis
      unfolding run_jobs_move[OF False]
      by (rule less.hyps[OF move_decreases[OF mv] move_live[OF assms less.prems mv]])
  qed
qed

lemma ex_live_start:
  "i \<in> doc_ID ` set (documents db) \<Longrightarrow> fresh_ids ch k db \<Longrightarrow> ex_live N i ch k (start_extraction N s db)"
  by (simp add: ex_live_def start_extraction_def dir_ok_def job_live_def)

text \<open>So the task ends with success.\<close>

lemma HandleExtractPages_succeeds:
  assumes "unmarshal_extract (task_Payload t) = Inr payload" and "ep_DocumentID payload = docID"
    and "GetDocumentByID p docID db = Inr d" and "prepare_extraction W st docID d s = Inr (orig, n)"
    and "working W st orig n" and "int4_ok n" and "pdfcpu_writes W page"
    and "serving ch docID (doc_ID d)" and "fresh_ids ch 0 db" and "\<not> fault p S_MarkReady"
    and x: "x = run_jobs W st docID orig ch 0 (start_extraction n s db)"
  shows "firstErr x = None \<and> (\<exists>db' q'. HandleExtractPages W st aq p ch t (s, db, q) = (None, ex_store x, db', q') \<and>
    db' = update_document (doc_ID d) (\<lambda>d. d\<lparr>Status := StatusReady, TotalPages := Some n, UpdatedAt := now p\<rparr>) (ex_db x))"
proof -
  note d = GetDocumentByID_Inr[OF assms(3)]
  then have in_db: "doc_ID d \<in> doc_ID ` set (documents db)" by blast
  have count: "pdf_PageCountFile W orig = Inr n"
    using assms(4) by (auto simp: prepare_extraction_def split: option.splits if_splits)
  have err: "firstErr x = None"
    unfolding x by (rule run_jobs_live[OF assms(5-7) count assms(8) ex_live_start[OF in_db assms(9)]])
  have "MarkReady p docID n (ex_db x) = (Inr (),
      update_document (doc_ID d) (\<lambda>d. d\<lparr>Status := StatusReady, TotalPages := Some n, UpdatedAt := now p\<rparr>) (ex_db x))"
    using d assms(6,10) by (simp add: MarkReady_Inr)
  with assms(1-4) err show ?thesis
    by (simp add: HandleExtractPages_def finish_extraction_def Let_def flip: x)
qed

end
