(* ===== verification/ProcessorClaims.thy ===== *)
theory ProcessorClaims
  imports ProcessorLive DocumentServiceClaims
begin

text \<open>
  The properties of the worker: its page goroutines in any interleaving, what a finished
  and what a failed extraction leave behind, and the tasks and requests of webhooks.
\<close>

section \<open>Examples\<close>

text \<open>A PDF library for documents of \<open>n\<close> pages, and everything around it working.\<close>

definition demo_content :: "bytes \<Rightarrow> int \<Rightarrow> bytes" where
  "demo_content orig n = ''%PDF page '' @ itoa n"

definition demo_worker :: "int \<Rightarrow> worker_env" where
  "demo_worker n = \<lparr>pdf_PageCountFile = (\<lambda>_. Inr n),
     pdf_ExtractPagesFile = (\<lambda>orig n. ([(pdfcpu_name n, demo_content orig n)], Inr ())),
     os_MkdirTemp = (\<lambda>_. None), os_MkdirAll = None, os_Create = None, os_Write = (\<lambda>_. None),
     os_Rename = (\<lambda>_. False), os_Open = (\<lambda>_. None), os_Stat = (\<lambda>_. None), os_Read = (\<lambda>_. None),
     wk_http = \<lparr>NewRequest = (\<lambda>_. Inr ()), http_Get = (\<lambda>url. Inr (200, ''%PDF-1.4'', None))\<rparr>,
     wk_Post = (\<lambda>_ _ _. Inr 204), wk_FormatTime = (\<lambda>t. ''2024-01-01T00:00:00Z'')\<rparr>"

lemma demo_worker_writes: "pdfcpu_writes (demo_worker n) demo_content"
  by (simp add: pdfcpu_writes_def demo_worker_def)

lemma mock_upload_reads_body: "upload_reads_body MockStorage"
  by (auto simp: upload_reads_body_def MockStorage_def mock_Upload_def split: option.splits)

text \<open>A schedule: the server of the \<open>k\<close>-th move has its own new row id, and the goroutines
  take turns.\<close>

definition demo_schedule :: "nat \<Rightarrow> nat \<times> pg" where
  "demo_schedule k = (k, demo_pg (''n'' @ itoa (int k)) 5)"

section \<open>Interleavings\<close>

text \<open>C23: In every state that the page goroutines of a document can reach, in any order of
  their calls and with any failures, at most five of them are past the semaphore.\<close>

theorem at_most_five_extracting:
  assumes "(ex_step W st docID orig)\<^sup>*\<^sup>* (start_extraction n s db) x"
  shows "running x \<le> 5"
proof -
  have "running x \<le> pageExtractionConcurrency"
    using assms by (induction rule: rtranclp_induct) (simp_all add: running_start running_step)
  then show ?thesis by (simp add: pageExtractionConcurrency_def)
qed

lemma run_jobs_reach: "(ex_step W st docID orig)\<^sup>*\<^sup>* x (run_jobs W st docID orig ch k x)"
  using run_jobs_steps by blast

theorem at_most_five_extracting_witness:
  "running (run_jobs (demo_worker 2) MockStorage ''d1'' ''x'' demo_schedule 0
     (start_extraction 2 (mock_with (\<lambda>_. None)) paged_db)) \<le> 5 \<and>
   jobs (run_jobs (demo_worker 2) MockStorage ''d1'' ''x'' demo_schedule 0
     (start_extraction 2 (mock_with (\<lambda>_. None)) paged_db)) = [Done None, Done None]"
proof
  show "running (run_jobs (demo_worker 2) MockStorage ''d1'' ''x'' demo_schedule 0
     (start_extraction 2 (mock_with (\<lambda>_. None)) paged_db)) \<le> 5"
    by (rule at_most_five_extracting[OF run_jobs_reach])
  show "jobs (run_jobs (demo_worker 2) MockStorage ''d1'' ''x'' demo_schedule 0
     (start_extraction 2 (mock_with (\<lambda>_. None)) paged_db)) = [Done None, Done None]"
    by code_simp
qed

text \<open>C20: The extraction ends in every order: the goroutines of \<open>n\<close> pages make at most \<open>7 n\<close>
  moves, whatever they interleave and however their calls answer, and until the last one
  is done some goroutine can move, so the wait for all of them returns.\<close>

theorem extraction_terminates:
  assumes "(ex_step W st docID orig ^^ k) (start_extraction n s db) x"
  shows "k \<le> 7 * nat n \<and> ((\<forall>j \<in> set (jobs x). is_done j) \<or> (\<exists>y. ex_step W st docID orig x y))"
proof -
  have "k \<le> 7 * nat n"
    using work_left_steps[OF assms] by (simp add: work_left_start)
  moreover have "\<exists>y. ex_step W st docID orig x y" if "\<not> (\<forall>j \<in> set (jobs x). is_done j)"
    using no_deadlock[OF that] ex_step.intros by blast
  ultimately show ?thesis by blast
qed

theorem extraction_terminates_witness:
  "\<exists>y. ex_step (demo_worker 1) MockStorage ''d1'' ''x'' (start_extraction 1 (mock_with (\<lambda>_. None)) paged_db) y"
proof -
  have "jobs (start_extraction 1 (mock_with (\<lambda>_. None)) paged_db) = [Waiting]"
    by (simp add: start_extraction_def)
  with extraction_terminates[of 0 "demo_worker 1" MockStorage "''d1''" "''x''" 1 "mock_with (\<lambda>_. None)" paged_db]
  show ?thesis by (simp add: is_done_def)
qed

text \<open>The runs of the model are all interleavings: what a schedule ends with can be
  reached by single moves with every goroutine done, and every such end is that of some
  schedule.\<close>

theorem schedules_are_interleavings:
  "(\<exists>ch. run_jobs W st docID orig ch 0 x = y) \<longleftrightarrow>
     (ex_step W st docID orig)\<^sup>*\<^sup>* x y \<and> (\<forall>j \<in> set (jobs y). is_done j)"
  using run_jobs_steps steps_run_jobs all_done_stuck by blast

theorem schedules_are_interleavings_witness:
  "(ex_step (demo_worker 1) MockStorage ''d1'' ''x'')\<^sup>*\<^sup>* (start_extraction 1 (mock_with (\<lambda>_. None)) paged_db)
     (run_jobs (demo_worker 1) MockStorage ''d1'' ''x'' demo_schedule 0 (start_extraction 1 (mock_with (\<lambda>_. None)) paged_db))"
  using schedules_are_interleavings[of "demo_worker 1" MockStorage "''d1''" "''x''"
      "start_extraction 1 (mock_with (\<lambda>_. None)) paged_db"] by blast

section \<open>The extraction task\<close>

text \<open>The tasks of the webhooks of a document, enqueued in the order of the rows; a failed
  enqueueing does not stop the others.\<close>

definition hook_task :: "string \<Rightarrow> string \<Rightarrow> int \<Rightarrow> webhook_subscription \<Rightarrow> task" where
  "hook_task docID status n h = \<lparr>task_Type = ''pdf:fire_webhook'',
     task_Payload = JObj [(''document_id'', JStr docID), (''webhook_url'', JStr (hook_URL h)),
       (''secret'', JStr (hook_Secret h)), (''status'', JStr status), (''total_pages'', JInt n)]\<rparr>"

definition hook_tasks_sent ::
  "'q asynq_client \<Rightarrow> uuid \<Rightarrow> string \<Rightarrow> string \<Rightarrow> int \<Rightarrow> database \<Rightarrow> 'q \<Rightarrow> 'q" where
  "hook_tasks_sent aq i docID status n db q =
     fold (\<lambda>h q. snd (aq_Enqueue aq (hook_task docID status n h) [MaxRetry 3, Timeout (10 * second)] q))
       (filter (\<lambda>h. hook_DocumentID h = i) (webhook_subscriptions db)) q"

lemma enqueue_hooks_fold:
  "enqueue_hooks aq docID status n hooks q =
     fold (\<lambda>h q. snd (aq_Enqueue aq (hook_task docID status n h) [MaxRetry 3, Timeout (10 * second)] q)) hooks q"
  by (induction hooks arbitrary: q)
     (simp_all add: NewFireWebhookTask_def hook_task_def TypeFireWebhook_def webhookMaxRetries_def webhookTimeout_def
        case_prod_beta)

lemma enqueueWebhooks_sent:
  "\<not> fault p S_GetWebhooks \<Longrightarrow> uuid_in p docID = Some i \<Longrightarrow>
     enqueueWebhooks aq p docID status n db q = hook_tasks_sent aq i docID status n db q"
  by (simp add: enqueueWebhooks_def GetWebhooksForDocument_def exec_no_fault uuid_arg_Some enqueue_hooks_fold hook_tasks_sent_def)

text \<open>What a successful extraction leaves behind.\<close>

lemma extraction_success:
  assumes "s3_semantics (client mc) (bucketName mc) objects" and "upload_reads_body (minio_as_storage mc)"
    and "pdfcpu_writes W page" and "\<And>k. uuid_in (snd (ch k)) docID = Some i" and "uuid_in p docID = Some i"
    and "\<not> fault p S_GetWebhooks" and "i \<in> doc_ID ` set (documents db)"
    and "unmarshal_extract (task_Payload t) = Inr payload" and "ep_DocumentID payload = docID"
    and run: "HandleExtractPages W (minio_as_storage mc) aq p ch t (s, db, q) = (None, s', db', q')"
  shows "\<exists>d0 \<in> set (documents db). \<exists>d \<in> set (documents db'). \<exists>orig n.
     doc_ID d0 = i \<and> d = d0\<lparr>Status := StatusReady, TotalPages := Some n, UpdatedAt := now p\<rparr> \<and>
     downloadToFile W (minio_as_storage mc) (OriginalMinioPath d0) s = Inr orig \<and>
     pdf_PageCountFile W orig = Inr n \<and> n \<noteq> 0 \<and>
     (\<forall>m. 1 \<le> m \<and> m \<le> n \<longrightarrow> objects s' (page_path docID m) = Some (page orig m) \<and>
        page_row i docID m (int (length (page orig m))) db') \<and>
     q' = hook_tasks_sent aq i docID ''ready'' n db' q"
  using run assms(8,9)
proof (cases rule: HandleExtractPages_ends)
  case (lookup e)
  then show ?thesis using GetDocumentByID_missing[OF lookup(1)] assms(5,7) by (auto split: if_splits)
next
  case (ready d0 orig n x)
  let ?f = "\<lambda>d. d\<lparr>Status := StatusReady, TotalPages := Some n, UpdatedAt := now p\<rparr>"
  have d0: "d0 \<in> set (documents db)" "doc_ID d0 = i" using GetDocumentByID_Inr[OF ready(1)] assms(5) by auto
  have prep: "downloadToFile W (minio_as_storage mc) (OriginalMinioPath d0) s = Inr orig"
    "pdf_PageCountFile W orig = Inr n" "n \<noteq> 0"
    using ready(2) by (auto simp: prepare_extraction_def split: option.splits if_splits)
  note pages = object_storage.extraction_ok[OF minio_object_storage[OF assms(1)] assms(3,2,4) ready(3,4) prep(2)]
  have db': "db' = update_document i ?f (ex_db x)" using ready(5) assms(5) by (auto simp: MarkReady_Inr)
  have "d0 \<in> set (documents (ex_db x))" using pages d0 by auto
  from in_update_document[OF this, of ?f] have "?f d0 \<in> set (documents db')" using d0 db' by simp
  moreover have "page_row i docID m sz (ex_db x) = page_row i docID m sz db'" for m sz
    by (simp add: page_row_def db' update_document_def)
  ultimately show ?thesis
    using d0 prep pages ready(6,7) enqueueWebhooks_sent[OF assms(6,5)]
    by (intro bexI[OF _ d0(1)] bexI[of _ "?f d0"] exI[of _ orig] exI[of _ n] conjI) auto
qed (auto simp: worker_fail_def Let_def split: prod.splits)

text \<open>C8: When the extraction task of a stored document ends with success, the document is
  ready with the page count of its original, every page has its object, with the content
  that the PDF library extracted, and its row, which names the object and its length, and
  one task for each of its webhooks has been enqueued; this holds for every interleaving
  of the goroutines.\<close>

theorem extracted_all_pages:
  assumes "s3_semantics (client mc) (bucketName mc) objects" and "upload_reads_body (minio_as_storage mc)"
    and "pdfcpu_writes W page" and "\<And>k. uuid_in (snd (ch k)) docID = Some i" and "uuid_in p docID = Some i"
    and "\<not> fault p S_GetWebhooks" and "i \<in> doc_ID ` set (documents db)"
    and "unmarshal_extract (task_Payload t) = Inr payload" and "ep_DocumentID payload = docID"
    and "HandleExtractPages W (minio_as_storage mc) aq p ch t (s, db, q) = (None, s', db', q')"
  shows "\<exists>d0 \<in> set (documents db). \<exists>d \<in> set (documents db'). \<exists>orig n.
     doc_ID d0 = i \<and> doc_ID d = i \<and> Status d = StatusReady \<and> TotalPages d = Some n \<and>
     downloadToFile W (minio_as_storage mc) (OriginalMinioPath d0) s = Inr orig \<and>
     pdf_PageCountFile W orig = Inr n \<and> n \<noteq> 0 \<and>
     (\<forall>m. 1 \<le> m \<and> m \<le> n \<longrightarrow> objects s' (page_path docID m) = Some (page orig m) \<and>
        page_row i docID m (int (length (page orig m))) db') \<and>
     q' = hook_tasks_sent aq i docID ''ready'' n db' q"
proof -
  from extraction_success[OF assms] obtain d0 d orig n where d: "d0 \<in> set (documents db)" "d \<in> set (documents db')"
      "doc_ID d0 = i" "d = d0\<lparr>Status := StatusReady, TotalPages := Some n, UpdatedAt := now p\<rparr>"
      "downloadToFile W (minio_as_storage mc) (OriginalMinioPath d0) s = Inr orig" "pdf_PageCountFile W orig = Inr n" "n \<noteq> 0"
      "\<forall>m. 1 \<le> m \<and> m \<le> n \<longrightarrow> objects s' (page_path docID m) = Some (page orig m) \<and>
        page_row i docID m (int (length (page orig m))) db'"
      "q' = hook_tasks_sent aq i docID ''ready'' n db' q"
    by blast
  then show ?thesis by (intro bexI[OF _ d(1)] bexI[OF _ d(2)] exI[of _ orig] exI[of _ n]) simp
qed

text \<open>A document with one page already saved and a webhook.\<close>

definition worker_db :: database where
  "worker_db = paged_db\<lparr>webhook_subscriptions := [\<lparr>hook_ID = ''w1'', hook_UserID = ''u1'', hook_DocumentID = ''d1'',
     hook_URL = ''http://h'', hook_Secret = ''s'', hook_CreatedAt = 0\<rparr>]\<rparr>"

definition demo_task :: "string \<Rightarrow> task" where
  "demo_task d = \<lparr>task_Type = TypeExtractPages, task_Payload = JObj [(''document_id'', JStr d), (''user_id'', JStr ''u1'')]\<rparr>"

lemma demo_minio_reads: "upload_reads_body (minio_as_storage demo_minio)"
  by (auto simp: upload_reads_body_def minio_as_storage_def minio_Upload_def demo_minio_def mock_client_def mock_Upload_def
      split: option.splits)

lemma demo_schedule_servers: "uuid_in (snd (demo_schedule k)) d = Some d"
  by (simp add: demo_schedule_def)

lemma worker_db_docs: "documents worker_db = documents paged_db" "''d1'' \<in> doc_ID ` set (documents worker_db)"
  by (simp_all add: worker_db_def paged_db_defs)

lemma unmarshal_demo_task: "unmarshal_extract (task_Payload (demo_task d)) = Inr \<lparr>ep_DocumentID = d, ep_UserID = ''u1''\<rparr>"
  by (simp add: demo_task_def unmarshal_extract_def object_fields_def str_field_def)

text \<open>Two pages: the row of the first is replaced, that of the second is new.\<close>

definition demo_extraction :: "go_error option \<times> mock_storage \<times> database \<times> (task \<times> task_option list) list" where
  "demo_extraction = HandleExtractPages (demo_worker 2) (minio_as_storage demo_minio) demo_queue (demo_pg ''x'' 7)
     demo_schedule (demo_task ''d1'') (mock_with (\<lambda>_. None), worker_db, [])"

lemma run4: "fst x = a \<Longrightarrow> x = (a, fst (snd x), fst (snd (snd x)), snd (snd (snd x)))"
  by (cases x) simp

theorem extracted_all_pages_witness:
  "(let (r, s', db', q') = demo_extraction in
     r = None \<and> length q' = 1 \<and> length (document_pages db') = 4 \<and>
     (\<exists>d \<in> set (documents db'). doc_ID d = ''d1'' \<and> Status d = StatusReady \<and> TotalPages d = Some 2 \<and>
        (\<forall>m. 1 \<le> m \<and> m \<le> 2 \<longrightarrow> mock_objects s' (page_path ''d1'' m) = Some (''%PDF page '' @ itoa m))))"
proof -
  have "case demo_extraction of (r, s', db', q') \<Rightarrow> r = None \<and> length q' = 1 \<and> length (document_pages db') = 4"
    by code_simp
  then have a: "fst demo_extraction = None" and b: "length (snd (snd (snd demo_extraction))) = 1"
    and c: "length (document_pages (fst (snd (snd demo_extraction)))) = 4"
    by (simp_all add: case_prod_beta)
  from extracted_all_pages[OF demo_minio_s3 demo_minio_reads demo_worker_writes demo_schedule_servers _ _
      worker_db_docs(2) unmarshal_demo_task _ run4[OF a, unfolded demo_extraction_def]]
  obtain d n where "d \<in> set (documents (fst (snd (snd demo_extraction))))" "doc_ID d = ''d1''" "Status d = StatusReady"
    "TotalPages d = Some n" "n = 2"
    "\<forall>m. 1 \<le> m \<and> m \<le> n \<longrightarrow> mock_objects (fst (snd demo_extraction)) (page_path ''d1'' m) = Some (demo_content orig m)"
    by (auto simp: demo_extraction_def demo_worker_def demo_content_def)
  with a b c show ?thesis by (auto simp: case_prod_beta Let_def demo_content_def)
qed

text \<open>What a failed one leaves behind.\<close>

lemma worker_fail_leaves:
  assumes wf: "worker_fail aq p docID e (s1, db1, q) = (r, s', db', q')"
    and i: "uuid_in p docID = Some i" and d: "d \<in> set (documents db1)" "doc_ID d = i"
  shows "r = Some e"
    and "fault p S_MarkFailed \<Longrightarrow> db' = db1"
    and "\<not> fault p S_MarkFailed \<Longrightarrow>
      \<exists>d \<in> set (documents db'). doc_ID d = i \<and> Status d = StatusFailed \<and> ErrorMessage d = Some (err_text e)"
    and "q' = (if fault p S_GetWebhooks then q else hook_tasks_sent aq i docID ''failed'' 0 db' q)"
proof -
  obtain x dbm where m: "MarkFailed p docID (err_text e) db1 = (x, dbm)" by fastforce
  with wf have r: "r = Some e" "db' = dbm" and q: "q' = enqueueWebhooks aq p docID ''failed'' 0 db' q"
    by (auto simp: worker_fail_def)
  from r(1) show "r = Some e" .
  show "db' = db1" if "fault p S_MarkFailed"
    using m r(2) that document_errors(3)[of p docID "err_text e" db1] by (cases x) (auto simp: MarkFailed_Inr)
  show "\<exists>d \<in> set (documents db'). doc_ID d = i \<and> Status d = StatusFailed \<and> ErrorMessage d = Some (err_text e)"
    if nf: "\<not> fault p S_MarkFailed"
  proof -
    let ?f = "\<lambda>d. d\<lparr>Status := StatusFailed, ErrorMessage := Some (err_text e), UpdatedAt := now p\<rparr>"
    have "MarkFailed p docID (err_text e) db1 = (Inr (), update_document i ?f db1)"
      using i nf by (simp add: MarkFailed_Inr)
    with m r(2) have "db' = update_document i ?f db1" by simp
    with in_update_document[OF d(1), of ?f] d(2) show ?thesis by (auto intro!: bexI[of _ "?f d"])
  qed
  show "q' = (if fault p S_GetWebhooks then q else hook_tasks_sent aq i docID ''failed'' 0 db' q)"
  proof (cases "fault p S_GetWebhooks")
    case True
    then have "enqueueWebhooks aq p docID status n db q = q" for status n db
      by (simp add: enqueueWebhooks_def GetWebhooksForDocument_def exec_def)
    with True q show ?thesis by simp
  qed (use enqueueWebhooks_sent[OF _ i] q in simp)
qed

lemma lookup_missing:
  assumes "uuid_in p docID = Some i" and "\<not> fault p S_GetDocumentByID" and "GetDocumentByID p docID db = Inl e"
  shows "i \<notin> doc_ID ` set (documents db) \<and> errors_is e ErrNotFound"
  using assms by (auto simp: GetDocumentByID_def no_rows_not_found_def exec_no_fault uuid_arg_Some
      query_row_def filter_empty_conv split: list.splits)

lemma extraction_failure:
  assumes "uuid_in p docID = Some i"
    and "unmarshal_extract (task_Payload t) = Inr payload" and "ep_DocumentID payload = docID"
    and run: "HandleExtractPages W st aq p ch t (s, db, q) = (Some e, s', db', q')"
  shows "(\<exists>e'. e = Errorf (''get document '' @ docID) e' \<and> fault p S_GetDocumentByID \<and> s' = s \<and> db' = db \<and> q' = q) \<or>
    (\<exists>e'. e = Errorf ''mark ready'' e' \<and> documents db' = documents db \<and> q' = q) \<or>
    i \<in> doc_ID ` set (documents db) \<and>
      (if fault p S_MarkFailed then documents db' = documents db
       else \<exists>d \<in> set (documents db'). doc_ID d = i \<and> Status d = StatusFailed \<and> ErrorMessage d = Some (err_text e)) \<and>
      q' = (if fault p S_GetWebhooks then q else hook_tasks_sent aq i docID ''failed'' 0 db' q)"
proof -
  have found: "GetDocumentByID p docID db = Inr d \<Longrightarrow> d \<in> set (documents db) \<and> doc_ID d = i" for d
    using assms(1) by (auto dest: GetDocumentByID_Inr)
  from run assms(2,3) show ?thesis
  proof (cases rule: HandleExtractPages_ends)
    case (lookup e')
    with lookup_missing[OF assms(1) _ lookup(1)] show ?thesis by (auto split: if_splits)
  next
    case (prepare d e')
    from found[OF prepare(1)] have d: "d \<in> set (documents db)" "doc_ID d = i" by simp_all
    note left = worker_fail_leaves[OF prepare(3) assms(1) d]
    from d have "i \<in> doc_ID ` set (documents db)" by auto
    with left show ?thesis by auto
  next
    case (pages d orig n x e')
    obtain ps where ps: "ex_db x = db\<lparr>document_pages := ps\<rparr>"
      using run_jobs_db[of W st docID orig ch 0 "start_extraction n s db"] pages(3) by (auto simp: start_extraction_def)
    from found[OF pages(1)] have d: "d \<in> set (documents db)" "doc_ID d = i" by simp_all
    then have "d \<in> set (documents (ex_db x))" using ps by simp
    note left = worker_fail_leaves[OF pages(5) assms(1) this d(2)]
    from d have "i \<in> doc_ID ` set (documents db)" by auto
    with left ps show ?thesis by auto
  next
    case (mark d orig n x e')
    obtain ps where "ex_db x = db\<lparr>document_pages := ps\<rparr>"
      using run_jobs_db[of W st docID orig ch 0 "start_extraction n s db"] mark(3) by (auto simp: start_extraction_def)
    moreover have "db' = ex_db x" using document_errors(2)[OF mark(5)] .
    ultimately show ?thesis using mark by auto
  qed simp
qed

text \<open>C19: What a task that ends with an error leaves behind. If the document cannot be looked up,
  nothing. If only the final update to ready fails, the document is as it was and nobody is
  told. After every other error the document is failed with this error as its message,
  unless marking it fails too, which the code ignores; and every webhook gets a failure
  task, if the webhooks can be read. A task of a document that is gone ends without an
  error, so that it is not tried again, and changes nothing.\<close>

theorem extraction_failed:
  assumes "uuid_in p docID = Some i"
    and "unmarshal_extract (task_Payload t) = Inr payload" and "ep_DocumentID payload = docID"
    and "HandleExtractPages W st aq p ch t (s, db, q) = (r, s', db', q')"
  shows "(\<not> fault p S_GetDocumentByID \<and> i \<notin> doc_ID ` set (documents db) \<longrightarrow> r = None \<and> s' = s \<and> db' = db \<and> q' = q) \<and>
    (\<forall>e. r = Some e \<longrightarrow>
      (\<exists>e'. e = Errorf (''get document '' @ docID) e' \<and> fault p S_GetDocumentByID \<and> s' = s \<and> db' = db \<and> q' = q) \<or>
      (\<exists>e'. e = Errorf ''mark ready'' e' \<and> documents db' = documents db \<and> q' = q) \<or>
      (i \<in> doc_ID ` set (documents db) \<and>
        (if fault p S_MarkFailed then documents db' = documents db
         else \<exists>d \<in> set (documents db'). doc_ID d = i \<and> Status d = StatusFailed \<and> ErrorMessage d = Some (err_text e)) \<and>
        q' = (if fault p S_GetWebhooks then q else hook_tasks_sent aq i docID ''failed'' 0 db' q)))"
proof (intro conjI impI allI)
  fix e
  assume "r = Some e"
  with assms(4) have "HandleExtractPages W st aq p ch t (s, db, q) = (Some e, s', db', q')" by simp
  from extraction_failure[OF assms(1-3) this]
  show "(\<exists>e'. e = Errorf (''get document '' @ docID) e' \<and> fault p S_GetDocumentByID \<and> s' = s \<and> db' = db \<and> q' = q) \<or>
      (\<exists>e'. e = Errorf ''mark ready'' e' \<and> documents db' = documents db \<and> q' = q) \<or>
      (i \<in> doc_ID ` set (documents db) \<and>
        (if fault p S_MarkFailed then documents db' = documents db
         else \<exists>d \<in> set (documents db'). doc_ID d = i \<and> Status d = StatusFailed \<and> ErrorMessage d = Some (err_text e)) \<and>
        q' = (if fault p S_GetWebhooks then q else hook_tasks_sent aq i docID ''failed'' 0 db' q))" .
next
  assume gone: "\<not> fault p S_GetDocumentByID \<and> i \<notin> doc_ID ` set (documents db)"
  then have "GetDocumentByID p docID db \<noteq> Inr d" for d using assms(1) GetDocumentByID_Inr[of p docID db d] by auto
  then obtain e where e: "GetDocumentByID p docID db = Inl e" by (cases "GetDocumentByID p docID db") auto
  with lookup_missing[OF assms(1) _ e] gone assms(2-4) have "r = None \<and> s' = s \<and> db' = db \<and> q' = q"
    by (auto simp: HandleExtractPages_def)
  then show "r = None" "s' = s" "db' = db" "q' = q" by simp_all
qed

text \<open>The file system fails on the second page.\<close>

definition broken_worker :: worker_env where
  "broken_worker = (demo_worker 2)\<lparr>os_Stat := (\<lambda>n. if n = 2 then Some (Opaque ''disk'') else None)\<rparr>"

definition demo_failure :: "go_error option \<times> mock_storage \<times> database \<times> (task \<times> task_option list) list" where
  "demo_failure = HandleExtractPages broken_worker (minio_as_storage demo_minio) demo_queue (demo_pg ''x'' 7)
     demo_schedule (demo_task ''d1'') (mock_with (\<lambda>_. None), worker_db, [])"

theorem extraction_failed_witness:
  "let (r, s', db', q') = demo_failure in r = Some (Errorf ''stat page file'' (Opaque ''disk'')) \<and> length q' = 1 \<and>
     (\<exists>d \<in> set (documents db'). doc_ID d = ''d1'' \<and> Status d = StatusFailed \<and> ErrorMessage d = Some ''stat page file: disk'')"
proof -
  have "case demo_failure of (r, s', db', q') \<Rightarrow> r = Some (Errorf ''stat page file'' (Opaque ''disk'')) \<and> length q' = 1"
    by code_simp
  then obtain s' db' q' where r: "demo_failure = (Some (Errorf ''stat page file'' (Opaque ''disk'')), s', db', q')" "length q' = 1"
    by (auto split: prod.splits)
  from extraction_failed[OF _ unmarshal_demo_task _ r(1)[unfolded demo_failure_def], of "''d1''"] worker_db_docs(2) r(2)
  have "\<exists>d \<in> set (documents db'). doc_ID d = ''d1'' \<and> Status d = StatusFailed \<and> ErrorMessage d = Some ''stat page file: disk''"
    by auto
  with r(2) show ?thesis unfolding r(1) by simp
qed

section \<open>Webhooks\<close>

text \<open>Tasks are read back as they were written: the worker gets the payload that the
  service or the extraction put into the queue.\<close>

theorem tasks_roundtrip:
  assumes "NewExtractPagesTask docID userID = Inr t1" and "NewFireWebhookTask payload = Inr t2"
    and "int8_ok (fw_TotalPages payload)"
  shows "unmarshal_extract (task_Payload t1) = Inr \<lparr>ep_DocumentID = docID, ep_UserID = userID\<rparr> \<and>
    unmarshal_webhook (task_Payload t2) = Inr payload"
  using assms
  by (auto simp: NewExtractPagesTask_def NewFireWebhookTask_def unmarshal_extract_def unmarshal_webhook_def
      object_fields_def str_field_def int_field_def)

theorem tasks_roundtrip_witness:
  "\<exists>t1 t2. NewExtractPagesTask ''d1'' ''u1'' = Inr t1 \<and>
     NewFireWebhookTask \<lparr>fw_DocumentID = ''d1'', fw_WebhookURL = ''http://h'', fw_Secret = ''s'', fw_Status = ''ready'', fw_TotalPages = 2\<rparr> = Inr t2 \<and>
     unmarshal_extract (task_Payload t1) = Inr \<lparr>ep_DocumentID = ''d1'', ep_UserID = ''u1''\<rparr> \<and>
     task_Payload t1 \<noteq> task_Payload t2"
proof -
  obtain t1 where t1: "NewExtractPagesTask ''d1'' ''u1'' = Inr t1" by (simp add: NewExtractPagesTask_def)
  obtain t2 where t2: "NewFireWebhookTask \<lparr>fw_DocumentID = ''d1'', fw_WebhookURL = ''http://h'', fw_Secret = ''s'', fw_Status = ''ready'', fw_TotalPages = 2\<rparr> = Inr t2"
    by (simp add: NewFireWebhookTask_def)
  have "task_Payload t1 \<noteq> task_Payload t2"
    using t1 t2 by (auto simp: NewExtractPagesTask_def NewFireWebhookTask_def)
  with t1 t2 tasks_roundtrip[OF t1 t2] show ?thesis by (auto simp: int8_ok_def)
qed

text \<open>C35: A delivery posts once, to the webhook's URL, a body with the document, its status
  and its page count; a webhook with a secret, and no other, gets the signature header:
  the HMAC of the very bytes of the body under its secret. The delivery counts as done,
  and is not tried again, exactly when the receiver answers with a status from 200
  to 299.\<close>

theorem webhook_delivery:
  assumes "NewFireWebhookTask payload = Inr t" and "int8_ok (fw_TotalPages payload)"
    and "NewRequest (wk_http W) (fw_WebhookURL payload) = Inr ()"
  shows "\<exists>r headers body. HandleFireWebhook W clk t = (r, Some (fw_WebhookURL payload, headers, body)) \<and>
     body = json_text (wk_FormatTime W) (JObj [(''document_id'', JStr (fw_DocumentID payload)),
       (''status'', JStr (fw_Status payload)), (''timestamp'', JTime clk), (''total_pages'', JInt (fw_TotalPages payload))]) \<and>
     map_of headers ''X-Signature-SHA256'' =
       (if fw_Secret payload = [] then None
        else Some (''sha256='' @ hex_encode (hmac_sha256 (fw_Secret payload) body))) \<and>
     (r = None \<longleftrightarrow> (\<exists>status. wk_Post W (fw_WebhookURL payload) headers body = Inr status \<and> 200 \<le> status \<and> status < 300))"
proof -
  have "unmarshal_webhook (task_Payload t) = Inr payload"
    using assms(1,2) by (auto simp: NewFireWebhookTask_def unmarshal_webhook_def object_fields_def str_field_def int_field_def)
  then show ?thesis
    using assms(3) by (auto simp: HandleFireWebhook_def webhook_headers_def webhook_signature_def webhook_body_def Let_def
        split: sum.splits)
qed

theorem webhook_delivery_witness:
  "\<exists>t headers body. NewFireWebhookTask \<lparr>fw_DocumentID = ''d1'', fw_WebhookURL = ''http://h'', fw_Secret = ''s'', fw_Status = ''ready'', fw_TotalPages = 2\<rparr> = Inr t \<and>
     HandleFireWebhook (demo_worker 2) 9 t = (None, Some (''http://h'', headers, body)) \<and>
     map_of headers ''X-Signature-SHA256'' = Some (''sha256='' @ hex_encode (hmac_sha256 ''s'' body))"
proof -
  obtain t where t: "NewFireWebhookTask \<lparr>fw_DocumentID = ''d1'', fw_WebhookURL = ''http://h'', fw_Secret = ''s'', fw_Status = ''ready'', fw_TotalPages = 2\<rparr> = Inr t"
    by (simp add: NewFireWebhookTask_def)
  from webhook_delivery[OF t, of "demo_worker 2" 9] t show ?thesis
    by (auto simp: int8_ok_def demo_worker_def)
qed

end
