(* ===== verification/Watchdog.thy ===== *)
theory Watchdog
  imports DocumentClaims
begin

text \<open>
  The watchdog, \<open>worker/watchdog.go\<close>, with the intervals that \<open>main.go\<close> gives it, and its
  properties: which documents a sweep fails, that none stays in the state processing for
  ever, when the watchdog cannot start, and what a worker that was only late leaves.
\<close>

section \<open>Sweeps\<close>

record watchdog =
  wd_timeout :: duration
  wd_interval :: duration

definition NewWatchdog :: "duration \<Rightarrow> duration \<Rightarrow> watchdog" where
  "NewWatchdog t i = \<lparr>wd_timeout = t, wd_interval = i\<rparr>"

text \<open>\<open>sweep\<close>: an error is only logged.\<close>

definition sweep :: "watchdog \<Rightarrow> pg \<Rightarrow> database \<Rightarrow> database" where
  "sweep w p db =
     (let cutoff = clock p - wd_timeout w
      in case FailStuckDocuments p cutoff db of
           (Inl e, db') \<Rightarrow> db'
         | (Inr n, db') \<Rightarrow> db')"

text \<open>\<open>Start\<close>: a ticker needs a positive interval; then each event of the select is a
  tick, with the server and the clock at that moment, or the cancellation.\<close>

datatype watchdog_event = Tick pg | CtxDone

fun watchdog_loop :: "watchdog \<Rightarrow> watchdog_event list \<Rightarrow> database \<Rightarrow> database" where
  "watchdog_loop w [] db = db"
| "watchdog_loop w (CtxDone # es) db = db"
| "watchdog_loop w (Tick p # es) db = watchdog_loop w es (sweep w p db)"

definition watchdog_Start :: "watchdog \<Rightarrow> watchdog_event list \<Rightarrow> database \<Rightarrow> go_error + database" where
  "watchdog_Start w es db =
     (if wd_interval w \<le> 0 then Inl (Panic ''non-positive interval for NewTicker'')
      else Inr (watchdog_loop w es db))"

text \<open>The watchdog of \<open>main.go\<close>; Go's integer division cuts towards zero.\<close>

definition go_div :: "int \<Rightarrow> int \<Rightarrow> int" where
  "go_div a b = sgn a * sgn b * (\<bar>a\<bar> div \<bar>b\<bar>)"

definition main_watchdog :: "int \<Rightarrow> watchdog" where
  "main_watchdog processingTimeoutMinutes =
     NewWatchdog (int64 (processingTimeoutMinutes * minute)) (int64 (go_div processingTimeoutMinutes 2 * minute))"

section \<open>Properties\<close>

definition give_up :: "time \<Rightarrow> document \<Rightarrow> document" where
  "give_up t d = d\<lparr>Status := StatusFailed, ErrorMessage := Some stuck_message, UpdatedAt := t\<rparr>"

lemma sweep_effect:
  "sweep w p db = (if fault p S_FailStuck then db
     else db\<lparr>documents := map (\<lambda>d. if stuck (clock p - wd_timeout w) d then give_up (now p) d else d) (documents db)\<rparr>)"
  by (auto simp: sweep_def FailStuckDocuments_def auto_commit_def exec_def sql_update_def give_up_def Let_def)

lemma sweep_settled:
  "d \<in> set (documents db) \<Longrightarrow> Status d \<noteq> StatusProcessing \<Longrightarrow> d \<in> set (documents (sweep w p db))"
  by (auto simp: sweep_effect stuck_def image_iff intro: bexI[of _ d])

lemma loop_settled:
  "d \<in> set (documents db) \<Longrightarrow> Status d \<noteq> StatusProcessing \<Longrightarrow> d \<in> set (documents (watchdog_loop w es db))"
  by (induction w es db rule: watchdog_loop.induct) (auto simp: sweep_settled)

lemma loop_from:
  "d' \<in> set (documents (watchdog_loop w es db)) \<Longrightarrow>
     \<exists>d \<in> set (documents db). doc_ID d' = doc_ID d \<and> (d' = d \<or> (Status d = StatusProcessing \<and> (\<exists>t. d' = give_up t d)))"
proof (induction w es db rule: watchdog_loop.induct)
  case (3 w p es db)
  then obtain d1 where d1: "d1 \<in> set (documents (sweep w p db))" "doc_ID d' = doc_ID d1"
    and eq: "d' = d1 \<or> (Status d1 = StatusProcessing \<and> (\<exists>t. d' = give_up t d1))" by auto
  from d1(1) obtain d where d: "d \<in> set (documents db)"
    and d1_eq: "d1 = d \<or> (Status d = StatusProcessing \<and> d1 = give_up (now p) d)"
    by (auto simp: sweep_effect stuck_def split: if_splits)
  show ?case
    using d d1 eq d1_eq by (intro bexI[of _ d]) (auto simp: give_up_def)
qed auto

text \<open>C22: No document stays in limbo: whatever the ticks before and after it, a tick of the
  running watchdog whose clock is past a document's deadline and whose statement
  reaches the server ends with that document out of the state processing; and the
  watchdog changes no document that was not processing.\<close>

theorem watchdog_no_limbo:
  assumes "db_constraints db" and "watchdog_Start w (pre @ Tick p # es) db = Inr db'" and "CtxDone \<notin> set pre"
    and "\<not> fault p S_FailStuck"
  shows "(\<forall>d' \<in> set (documents db'). doc_CreatedAt d' < clock p - wd_timeout w \<longrightarrow> Status d' \<noteq> StatusProcessing) \<and>
    (\<forall>d \<in> set (documents db). Status d \<noteq> StatusProcessing \<longrightarrow> d \<in> set (documents db'))"
proof -
  have db': "db' = watchdog_loop w (pre @ Tick p # es) db"
    using assms(2) by (auto simp: watchdog_Start_def split: if_splits)
  have "watchdog_loop w (pre @ Tick p # es) db = watchdog_loop w es (sweep w p (watchdog_loop w pre db))"
    using assms(3) by (induction w pre db rule: watchdog_loop.induct) auto
  with db' have after: "db' = watchdog_loop w es (sweep w p (watchdog_loop w pre db))" by simp
  have "Status d' \<noteq> StatusProcessing" if d': "d' \<in> set (documents db')" "doc_CreatedAt d' < clock p - wd_timeout w" for d'
  proof
    assume proc: "Status d' = StatusProcessing"
    from loop_from[OF d'(1)[unfolded after]] proc have "d' \<in> set (documents (sweep w p (watchdog_loop w pre db)))"
      by (auto simp: give_up_def)
    with d'(2) proc assms(4) show False by (auto simp: sweep_effect stuck_def give_up_def split: if_splits)
  qed
  then show ?thesis using loop_settled[of _ db w "pre @ Tick p # es"] db' by auto
qed

theorem watchdog_no_limbo_witness:
  "\<exists>db'. watchdog_Start (NewWatchdog 10 5) [Tick (demo_pg ''x'' 5), Tick (demo_pg ''x'' 20), CtxDone] paged_db = Inr db' \<and>
     map Status (documents db') = [StatusFailed, StatusReady] \<and>
     (\<forall>d' \<in> set (documents db'). doc_CreatedAt d' < 10 \<longrightarrow> Status d' \<noteq> StatusProcessing)"
proof -
  let ?run = "watchdog_Start (NewWatchdog 10 5) ([Tick (demo_pg ''x'' 5)] @ Tick (demo_pg ''x'' 20) # [CtxDone]) paged_db"
  have "map_sum (\<lambda>_. ()) (\<lambda>db. map Status (documents db)) ?run = Inr [StatusFailed, StatusReady]"
    by code_simp
  then obtain db' where r: "?run = Inr db'" "map Status (documents db') = [StatusFailed, StatusReady]"
    by (cases ?run) auto
  have "wd_timeout (NewWatchdog 10 5) = 10" by (simp add: NewWatchdog_def)
  with watchdog_no_limbo[OF paged_db_constraints r(1)] r show ?thesis by simp
qed

text \<open>The watchdog of the server starts exactly when the configured timeout is at least two
  minutes.\<close>

lemma watchdog_starts:
  assumes "\<bar>m\<bar> \<le> 100000000"
  shows "(\<exists>db'. watchdog_Start (main_watchdog m) es db = Inr db') \<longleftrightarrow> 2 \<le> m"
proof -
  have small: "int8_ok (go_div m 2 * minute)"
  proof -
    have "\<bar>m\<bar> div \<bar>2\<bar> \<le> 50000000" and "0 \<le> \<bar>m\<bar> div \<bar>2\<bar>" using assms by simp_all
    then have "\<bar>go_div m 2\<bar> \<le> 50000000"
      by (cases m "0 :: int" rule: linorder_cases) (simp_all add: go_div_def)
    then show ?thesis by (simp add: int8_ok_def abs_le_iff)
  qed
  have "0 < go_div m 2 \<longleftrightarrow> 2 \<le> m" by (auto simp: go_div_def sgn_if)
  then have "0 < go_div m 2 * minute \<longleftrightarrow> 2 \<le> m" by (simp add: zero_less_mult_iff)
  with small show ?thesis by (auto simp: watchdog_Start_def main_watchdog_def NewWatchdog_def)
qed

text \<open>C40: Nothing guards the states: when the worker of a document that a sweep has given
  up finishes after all, the document becomes ready and still carries the sweep's
  error message.\<close>

theorem late_worker_keeps_error:
  assumes "d \<in> set (documents db)" and "stuck (clock p - wd_timeout w) d" and "\<not> fault p S_FailStuck"
    and "uuid_in q i = Some (doc_ID d)" and "MarkReady q i n (sweep w p db) = (Inr (), db')"
  shows "\<exists>d' \<in> set (documents db'). doc_ID d' = doc_ID d \<and> Status d' = StatusReady \<and>
    TotalPages d' = Some n \<and> ErrorMessage d' = Some stuck_message"
proof -
  have "give_up (now p) d \<in> set (documents (sweep w p db))"
    using assms(1-3) by (auto simp: sweep_effect)
  note ready = in_update_document[OF this, of "\<lambda>d. d\<lparr>Status := StatusReady, TotalPages := Some n, UpdatedAt := now q\<rparr>"]
  have "doc_ID (give_up (now p) d) = doc_ID d" by (simp add: give_up_def)
  with ready assms(4,5) show ?thesis
    by (intro bexI[of _ "(give_up (now p) d)\<lparr>Status := StatusReady, TotalPages := Some n, UpdatedAt := now q\<rparr>"])
       (auto simp: MarkReady_Inr give_up_def)
qed

theorem late_worker_keeps_error_witness:
  "\<exists>db'. MarkReady (demo_pg ''x'' 30) ''d1'' 1 (sweep (NewWatchdog 10 5) (demo_pg ''x'' 20) paged_db) = (Inr (), db') \<and>
     (\<exists>d' \<in> set (documents db'). Status d' = StatusReady \<and> ErrorMessage d' = Some stuck_message)"
proof -
  let ?r = "MarkReady (demo_pg ''x'' 30) ''d1'' 1 (sweep (NewWatchdog 10 5) (demo_pg ''x'' 20) paged_db)"
  have "fst ?r = Inr ()" by code_simp
  then have r: "?r = (Inr (), snd ?r)" by (metis prod.collapse)
  have "demo_doc ''d1'' ''u1'' StatusProcessing None \<in> set (documents paged_db)" by (simp add: paged_db_def)
  from late_worker_keeps_error[OF this, of "demo_pg ''x'' 20" "NewWatchdog 10 5" "demo_pg ''x'' 30" "''d1''" 1 "snd ?r"] r
  show ?thesis by (auto simp: stuck_def demo_doc_def NewWatchdog_def)
qed

end
