(* ===== verification/Pipeline.thy ===== *)
theory Pipeline
  imports ProcessorClaims
begin

text \<open>
  The whole pipeline: an upload through the document service, its task in the queue, and
  the extraction by the worker.
\<close>

lemma ds_Upload_constraints:
  assumes "db_constraints db" and "ds_Upload (postgres_docs p) st enq userID hdr (db, s, q) = (Inr r, db', s', q')"
  shows "db_constraints db'"
proof -
  from assms(2) obtain nm h d db1 path where "CreateDocument p userID nm [] h (pdf_Size hdr) db = (Inr d, db1)"
    and path: "UpdateOriginalPath p (doc_ID d) path db1 = (Inr (), db')"
    by (auto simp: ds_Upload_def Let_def split: sum.splits prod.splits)
  then have "db_constraints db1" using constraints_create_document[OF assms(1)] by blast
  with path show ?thesis
    by (auto simp: UpdateOriginalPath_Inr update_document_def intro!: constraints_update_documents)
qed

lemma GetDocumentByID_found:
  assumes "db_constraints db" and "d \<in> set (documents db)" and "uuid_in p i = Some (doc_ID d)"
    and "\<not> fault p S_GetDocumentByID"
  shows "GetDocumentByID p i db = Inr d"
proof -
  have "distinct (map doc_ID (documents db))" using assms(1) by (simp add: db_constraints_def)
  from filter_key_single[OF this assms(2)] show ?thesis
    using assms(3,4) by (simp add: GetDocumentByID_def no_rows_not_found_def exec_no_fault uuid_arg_Some)
qed

text \<open>The file system of the worker takes the original, and the URLs of stored objects can be
  fetched.\<close>

definition can_download :: "worker_env \<Rightarrow> 's storage \<Rightarrow> (string \<Rightarrow> bytes option) \<Rightarrow> 's \<Rightarrow> bool" where
  "can_download W st ob s \<longleftrightarrow>
     (\<forall>x. os_MkdirTemp W x = None) \<and> os_MkdirAll W = None \<and> os_Create W = None \<and> (\<forall>b. os_Write W b = None) \<and>
     (\<forall>k b. ob k = Some b \<longrightarrow> (\<exists>url. st_GetPresignedURL st k s = Inr url \<and>
        NewRequest (wk_http W) url = Inr () \<and> http_Get (wk_http W) url = Inr (200, b, None)))"

lemma prepare_extraction_works:
  assumes "can_download W st ob s" and "ob (OriginalMinioPath d) = Some c" and "pdf_PageCountFile W c = Inr n" and "n \<noteq> 0"
  shows "prepare_extraction W st docID d s = Inr (c, n)"
proof -
  obtain url where "st_GetPresignedURL st (OriginalMinioPath d) s = Inr url" "NewRequest (wk_http W) url = Inr ()"
    "http_Get (wk_http W) url = Inr (200, c, None)"
    using assms(1,2) unfolding can_download_def by blast
  then have "downloadToFile W st (OriginalMinioPath d) s = Inr c"
    using assms(1) by (simp add: downloadToFile_def can_download_def)
  with assms show ?thesis by (simp add: prepare_extraction_def can_download_def)
qed

text \<open>C2: An accepted PDF becomes ready: when the worker takes the task that the upload has
  put into the queue, and everything that it calls works, then in every interleaving of
  the page goroutines the task ends with success, the caller's document is ready with
  its page count, and every page of the uploaded bytes has its object and its row.\<close>

theorem uploaded_becomes_ready:
  assumes "s3_semantics (client mc) (bucketName mc) objects" and "first_row p = p" and "db_constraints db" and "pdf_steady hdr c"
    and run: "ds_Upload (postgres_docs p) (minio_as_storage mc) (AsynqEnqueuer aq) userID hdr (db, s, q) = (Inr r, db1, s1, q1)"
    and "pdf_PageCountFile W c = Inr n" and "1 \<le> n" and "int4_ok n" and "pdfcpu_writes W page"
    and "working W (minio_as_storage mc) c n" and "can_download W (minio_as_storage mc) (objects s1) s1"
    and "upload_reads_body (minio_as_storage mc)"
    and "serving ch (upl_DocumentID r) (upl_DocumentID r)" and "fresh_ids ch 0 db1"
    and "uuid_in w (upl_DocumentID r) = Some (upl_DocumentID r)" and "\<And>x. \<not> fault w x"
  shows "\<exists>t s2 db2 q2. aq_Enqueue aq t [Queue ''default''] q = (Inr (), q1) \<and>
     HandleExtractPages W (minio_as_storage mc) aq w ch t (s1, db1, q1) = (None, s2, db2, q2) \<and>
     (\<exists>d \<in> set (documents db2). doc_ID d = upl_DocumentID r \<and> Status d = StatusReady \<and> TotalPages d = Some n) \<and>
     (\<forall>m. 1 \<le> m \<and> m \<le> n \<longrightarrow> objects s2 (page_path (upl_DocumentID r) m) = Some (page c m) \<and>
        page_row (upl_DocumentID r) (upl_DocumentID r) m (int (length (page c m))) db2)"
proof -
  let ?i = "upl_DocumentID r"
  let ?t = "\<lparr>task_Type = TypeExtractPages, task_Payload = JObj [(''document_id'', JStr ?i), (''user_id'', JStr userID)]\<rparr>"
  have "document_service (postgres_docs p) (uuid_in p) db_constraints pg_docs pg_pages (minio_as_storage mc) objects"
    using pg_minio_docs[OF assms(1), of p] by (simp add: assms(2))
  from document_service.upload_success[OF this run assms(3,4)] obtain d where d: "d \<in> set (documents db1)" "doc_ID d = ?i"
    and ob: "objects s1 (OriginalMinioPath d) = Some c" and enq: "aq_Enqueue aq ?t [Queue ''default''] q = (Inr (), q1)"
    by (auto simp: pg_docs_def AsynqEnqueuer_def asynq_EnqueueTask_def NewExtractPagesTask_def)
  have "GetDocumentByID w ?i db1 = Inr d"
    using GetDocumentByID_found[OF ds_Upload_constraints[OF assms(3) run] d(1)] d(2) assms(15,16) by simp
  moreover have "prepare_extraction W (minio_as_storage mc) ?i d s1 = Inr (c, n)"
    using prepare_extraction_works[OF assms(11) ob assms(6)] assms(7) by simp
  moreover have payload: "unmarshal_extract (task_Payload ?t) = Inr \<lparr>ep_DocumentID = ?i, ep_UserID = userID\<rparr>"
    by (simp add: unmarshal_extract_def object_fields_def str_field_def)
  moreover define x where "x = run_jobs W (minio_as_storage mc) ?i c ch 0 (start_extraction n s1 db1)"
  ultimately have err: "firstErr x = None" and "\<exists>db2 q2. HandleExtractPages W (minio_as_storage mc) aq w ch ?t (s1, db1, q1) =
      (None, ex_store x, db2, q2) \<and>
      db2 = update_document ?i (\<lambda>d. d\<lparr>Status := StatusReady, TotalPages := Some n, UpdatedAt := now w\<rparr>) (ex_db x)"
    using HandleExtractPages_succeeds[OF payload _ _ _ assms(10,8,9) _ assms(14) assms(16) x_def, where aq = aq and q = q1] assms(13) d(2) by auto
  then obtain db2 q2 where h: "HandleExtractPages W (minio_as_storage mc) aq w ch ?t (s1, db1, q1) = (None, ex_store x, db2, q2)"
    and db2: "db2 = update_document ?i (\<lambda>d. d\<lparr>Status := StatusReady, TotalPages := Some n, UpdatedAt := now w\<rparr>) (ex_db x)"
    by blast
  have servers: "uuid_in (snd (ch k)) ?i = Some ?i" for k using assms(13) by (simp add: serving_def)
  note pages = object_storage.extraction_ok[OF minio_object_storage[OF assms(1)] assms(9,12) servers x_def err assms(6)]
  let ?f = "\<lambda>d. d\<lparr>Status := StatusReady, TotalPages := Some n, UpdatedAt := now w\<rparr>"
  have "d \<in> set (documents (ex_db x))" using pages d by auto
  from in_update_document[OF this, of ?f] have "?f d \<in> set (documents db2)" using d(2) db2 by simp
  then have "\<exists>d \<in> set (documents db2). doc_ID d = ?i \<and> Status d = StatusReady \<and> TotalPages d = Some n"
    using d(2) by (intro bexI[of _ "?f d"]) simp_all
  moreover have "page_row ?i ?i m sz db2 = page_row ?i ?i m sz (ex_db x)" for m sz
    by (simp add: page_row_def db2 update_document_def)
  ultimately show ?thesis using enq h pages by blast
qed

section \<open>Example\<close>

text \<open>A bucket that never fails.\<close>

definition map_client :: "(string \<Rightarrow> bytes option) minio_client" where
  "map_client = \<lparr>BucketExists = (\<lambda>_ _. Inr True), MakeBucket = (\<lambda>_ s. (Inr (), s)),
     PutObject = (\<lambda>_ k r n ct s. case r of Inl e \<Rightarrow> (Inl e, s) | Inr b \<Rightarrow> (Inr (), s(k \<mapsto> b))),
     PresignedGetObject = (\<lambda>_ k _ s. Inr k),
     StatObject = (\<lambda>_ k s. if s k = None then Inl (Opaque ''NoSuchKey'') else Inr ()),
     RemoveObject = (\<lambda>_ k s. (Inr (), s(k := None))),
     ToErrorResponse = (\<lambda>e. (err_text e, 404))\<rparr>"

definition map_minio :: "(string \<Rightarrow> bytes option) minio_storage" where
  "map_minio = \<lparr>client = map_client, bucketName = ''documents'', presignedURLMinutes = 15\<rparr>"

lemmas map_minio_defs = map_minio_def map_client_def minio_as_storage_def minio_Upload_def minio_GetPresignedURL_def

lemma map_minio_s3: "s3_semantics (client map_minio) (bucketName map_minio) (\<lambda>s. s)"
  by (auto simp: s3_semantics_def map_minio_defs isNotFound_def split: sum.splits if_splits)

lemma map_minio_works:
  "working (demo_worker n) (minio_as_storage map_minio) c n" "upload_reads_body (minio_as_storage map_minio)"
  by (auto simp: working_def upload_reads_body_def demo_worker_def map_minio_defs)

lemma demo_schedule_serves: "serving demo_schedule d d"
  by (auto simp: serving_def demo_schedule_def inj_def dest: itoa_inj)

theorem uploaded_becomes_ready_witness:
  "\<exists>r db1 s1 q1 t s2 db2 q2. ds_Upload (postgres_docs (demo_pg ''d1'' 1)) (minio_as_storage map_minio) (AsynqEnqueuer demo_queue) ''u1''
       (demo_pdf ''%PDF-1.4'') (demo_users, \<lambda>_. None, []) = (Inr r, db1, s1, q1) \<and> upl_DocumentID r = ''d1'' \<and>
     HandleExtractPages (demo_worker 2) (minio_as_storage map_minio) demo_queue (demo_pg ''x'' 7) demo_schedule t (s1, db1, q1)
       = (None, s2, db2, q2) \<and>
     (\<exists>d \<in> set (documents db2). doc_ID d = ''d1'' \<and> Status d = StatusReady) \<and>
     s2 (page_path ''d1'' 2) = Some ''%PDF page 2''"
proof -
  let ?run = "ds_Upload (postgres_docs (demo_pg ''d1'' 1)) (minio_as_storage map_minio) (AsynqEnqueuer demo_queue) ''u1''
       (demo_pdf ''%PDF-1.4'') (demo_users, \<lambda>_. None, [])"
  have prep: "prepare_document (demo_pdf ''%PDF-1.4'') = Inr (hash_of ''%PDF-1.4'', ''a.pdf'', Inr ''%PDF-1.4'')"
    by (rule prepare_demo_pdf) simp
  have "\<exists>r db1 q1. ?run = (Inr r, db1, [original_path ''d1'' \<mapsto> ''%PDF-1.4''], q1) \<and> upl_DocumentID r = ''d1'' \<and> document_pages db1 = []"
    by (simp add: ds_Upload_def prep ds_demo_defs map_minio_defs demo_queue_def document_defs auto_commit_def file_demo_defs
        demo_pdf_Size int8_ok_def list_all_iff Let_def)
  then obtain r db1 q1 where r: "?run = (Inr r, db1, [original_path ''d1'' \<mapsto> ''%PDF-1.4''], q1)" "upl_DocumentID r = ''d1''"
    "document_pages db1 = []" by blast
  have users: "db_constraints demo_users" by (simp add: db_constraints_def file_demo_defs)
  have dl: "can_download (demo_worker 2) (minio_as_storage map_minio) [original_path ''d1'' \<mapsto> ''%PDF-1.4''] [original_path ''d1'' \<mapsto> ''%PDF-1.4'']"
    by (auto simp: can_download_def demo_worker_def map_minio_defs split: if_splits)
  have fresh: "fresh_ids demo_schedule 0 db1" by (simp add: fresh_ids_def r(3))
  have n: "pdf_PageCountFile (demo_worker 2) ''%PDF-1.4'' = Inr 2" "1 \<le> (2::int)" "int4_ok 2"
    by (simp_all add: demo_worker_def int4_ok_def)
  have w: "uuid_in (demo_pg ''x'' 7) (upl_DocumentID r) = Some (upl_DocumentID r)" and nf: "\<And>x. \<not> fault (demo_pg ''x'' 7) x"
    by simp_all
  have writes: "pdfcpu_writes (demo_worker 2) demo_content" by (rule demo_worker_writes)
  have "\<exists>t s2 db2 q2. aq_Enqueue demo_queue t [Queue ''default''] [] = (Inr (), q1) \<and>
     HandleExtractPages (demo_worker 2) (minio_as_storage map_minio) demo_queue (demo_pg ''x'' 7) demo_schedule t
       ([original_path ''d1'' \<mapsto> ''%PDF-1.4''], db1, q1) = (None, s2, db2, q2) \<and>
     (\<exists>d \<in> set (documents db2). doc_ID d = upl_DocumentID r \<and> Status d = StatusReady \<and> TotalPages d = Some 2) \<and>
     (\<forall>m. 1 \<le> m \<and> m \<le> 2 \<longrightarrow> s2 (page_path (upl_DocumentID r) m) = Some (demo_content ''%PDF-1.4'' m) \<and>
        page_row (upl_DocumentID r) (upl_DocumentID r) m (int (length (demo_content ''%PDF-1.4'' m))) db2)"
    by (rule uploaded_becomes_ready[OF map_minio_s3 demo_pg_first_row users demo_pdf_steady r(1) n writes
          map_minio_works(1) dl map_minio_works(2) demo_schedule_serves fresh w nf])
  then obtain t s2 db2 q2 where h: "HandleExtractPages (demo_worker 2) (minio_as_storage map_minio) demo_queue (demo_pg ''x'' 7) demo_schedule t
       ([original_path ''d1'' \<mapsto> ''%PDF-1.4''], db1, q1) = (None, s2, db2, q2)"
    and ds: "\<exists>d \<in> set (documents db2). doc_ID d = upl_DocumentID r \<and> Status d = StatusReady \<and> TotalPages d = Some 2"
    and pages: "\<forall>m. 1 \<le> m \<and> m \<le> 2 \<longrightarrow> s2 (page_path (upl_DocumentID r) m) = Some (demo_content ''%PDF-1.4'' m) \<and>
        page_row (upl_DocumentID r) (upl_DocumentID r) m (int (length (demo_content ''%PDF-1.4'' m))) db2"
    by (elim exE conjE)
  have "demo_content ''%PDF-1.4'' 2 = ''%PDF page 2''" by code_simp
  with pages r(2) have "s2 (page_path ''d1'' 2) = Some ''%PDF page 2''" by simp
  moreover have "\<exists>d \<in> set (documents db2). doc_ID d = ''d1'' \<and> Status d = StatusReady" using ds r(2) by auto
  ultimately show ?thesis using r(1,2) h by (intro exI conjI)
qed

end
