(* ===== verification/Transactions.thy ===== *)
theory Transactions
  imports DocumentProps
begin

text \<open>
  The transactions of \<open>storage/metadata.go\<close> and \<open>storage/document_store.go\<close> under concurrency:
  any number of sessions run \<open>Save\<close>, \<open>Delete\<close> and \<open>CreateDocument\<close> statement by statement,
  interleaved in any order, at PostgreSQL's default isolation level READ COMMITTED. A statement sees what is committed when it runs
  and its own transaction's writes; an update and a \<open>SELECT ... FOR UPDATE\<close> lock their row
  until the transaction ends and wait for the lock of another session. An insert locks its
  key. The share lock that a foreign key takes on the user's row holds back no statement
  but the \<open>SELECT ... FOR UPDATE\<close> of \<open>Save\<close>; it is left out, which only adds interleavings.
\<close>

section \<open>Writes and locks\<close>

text \<open>What a transaction has written and not yet committed.\<close>

datatype change =
    AddRef uuid int
  | InsertRow file_meta
  | HardDelete uuid
  | SoftDelete uuid time
  | ChangeUsage uuid int
  | ReclaimUsage uuid int
  | InsertDocument document

fun apply_write :: "change \<Rightarrow> database \<Rightarrow> database" where
  "apply_write (AddRef i d) db = db\<lparr>files := ref_row i d (files db)\<rparr>"
| "apply_write (InsertRow f) db = db\<lparr>files := files db @ [f]\<rparr>"
| "apply_write (HardDelete i) db = db\<lparr>files := sql_delete (\<lambda>f. file_ID f = i) (files db)\<rparr>"
| "apply_write (SoftDelete i t) db = db\<lparr>files := mark_deleted i t (files db)\<rparr>"
| "apply_write (ChangeUsage u d) db = db\<lparr>users := charge u d (users db)\<rparr>"
| "apply_write (ReclaimUsage u d) db = db\<lparr>users := refund u d (users db)\<rparr>"
| "apply_write (InsertDocument d) db = db\<lparr>documents := documents db @ [d]\<rparr>"

text \<open>The version of the database that a transaction sees.\<close>

definition seen :: "change list \<Rightarrow> database \<Rightarrow> database" where
  "seen ws db = fold apply_write ws db"

datatype lock = UserRow uuid | FileRow uuid | DocumentRow uuid

fun lock_of :: "change \<Rightarrow> lock" where
  "lock_of (AddRef i d) = FileRow i"
| "lock_of (InsertRow f) = FileRow (file_ID f)"
| "lock_of (HardDelete i) = FileRow i"
| "lock_of (SoftDelete i t) = FileRow i"
| "lock_of (ChangeUsage u d) = UserRow u"
| "lock_of (ReclaimUsage u d) = UserRow u"
| "lock_of (InsertDocument d) = DocumentRow (doc_ID d)"

fun present :: "database \<Rightarrow> lock \<Rightarrow> bool" where
  "present v (UserRow u) \<longleftrightarrow> u \<in> user_ID ` set (users v)"
| "present v (FileRow i) \<longleftrightarrow> i \<in> file_ID ` set (files v)"
| "present v (DocumentRow i) \<longleftrightarrow> i \<in> doc_ID ` set (documents v)"

section \<open>Sessions\<close>

datatype call =
    SaveCall (call_user: string) (call_key: string) (call_hash: string) (call_type: string) (call_name: string) (call_size: int)
  | DeleteCall (call_file: string) (call_user: string)
  | CreateCall (call_user: string) (call_name: string) (call_key: string) (call_hash: string) (call_size: int)

datatype result = Saved save_result | Deleted delete_result | Created document

text \<open>The statement that a session executes next, with the variables it has by then; \<open>Begin\<close>
  is \<open>Beginx\<close>, \<open>Ended\<close> the return.\<close>

datatype position =
    Begin
  | LockUser | FindCanonical | IncrRef file_meta | InsertDup file_meta | InsertNew
  | UpdateUsage save_result | SaveCommit save_result
  | Fetch | FindCanon file_meta | HardDel file_meta | SoftDel file_meta uuid | DecrRef file_meta uuid
  | Reclaim file_meta bool | DelCommit delete_result
  | InsertDoc | ChargeDoc document | DocCommit document
  | Ended "go_error + result"

record session =
  ss_pg :: pg
  ss_call :: call
  ss_at :: position
  ss_writes :: "change list"
  ss_locks :: "lock list"

definition open_session :: "pg \<times> call \<Rightarrow> session" where
  "open_session = (\<lambda>(p, c). \<lparr>ss_pg = p, ss_call = c, ss_at = Begin, ss_writes = [], ss_locks = []\<rparr>)"

text \<open>A transaction that ends releases its locks; without a commit its writes are gone.\<close>

definition finish :: "go_error + result \<Rightarrow> session \<Rightarrow> session" where
  "finish r s = s\<lparr>ss_at := Ended r, ss_writes := [], ss_locks := []\<rparr>"

section \<open>Statements\<close>

text \<open>What one statement of \<open>Save\<close>, \<open>Delete\<close> and \<open>CreateDocument\<close> does on the version \<open>v\<close> that it sees: fail, or
  go on at the next position with further writes.\<close>

definition args :: "pg \<Rightarrow> string \<Rightarrow> (uuid \<Rightarrow> change) \<Rightarrow> change list" where
  "args p userID w = (case uuid_in p userID of None \<Rightarrow> [] | Some u \<Rightarrow> [w u])"

fun statement :: "pg \<Rightarrow> call \<Rightarrow> position \<Rightarrow> database \<Rightarrow> go_error + position \<times> change list" where
  "statement p (SaveCall userID objectKey hash ct nm sz) Begin v =
     and_then (wrapf ''begin tx'' (exec p S_SaveBegin (Inr ()))) (\<lambda>_. Inr (LockUser, []))"
| "statement p (SaveCall userID objectKey hash ct nm sz) LockUser v =
     and_then (wrapf ''lock user'' (lock_user p userID v)) (\<lambda>(bytesUsed, quota).
       if quota < int64 (bytesUsed + sz) then Inl ErrQuotaExceeded else Inr (FindCanonical, []))"
| "statement p (SaveCall userID objectKey hash ct nm sz) FindCanonical v =
     and_then (wrapf ''find canonical'' (find_canonical p hash v)) (\<lambda>existing.
       Inr (case existing of Some canon \<Rightarrow> IncrRef canon | None \<Rightarrow> InsertNew, []))"
| "statement p (SaveCall userID objectKey hash ct nm sz) (IncrRef canon) v =
     and_then (wrapf ''increment ref_count'' (update_ref p S_SaveIncrRef 1 (file_ID canon) v)) (\<lambda>_.
       Inr (InsertDup canon, [AddRef (file_ID canon) 1]))"
| "statement p (SaveCall userID objectKey hash ct nm sz) (InsertDup canon) v =
     and_then (wrapf ''insert dedup row''
         (insert_file p S_SaveInsertDup userID (ObjectKey canon) hash sz ct nm v)) (\<lambda>(newFile, _).
       Inr (UpdateUsage \<lparr>File = newFile, Duplicate = True\<rparr>, [InsertRow newFile]))"
| "statement p (SaveCall userID objectKey hash ct nm sz) InsertNew v =
     and_then (wrapf ''insert new file''
         (insert_file p S_SaveInsertNew userID objectKey hash sz ct nm v)) (\<lambda>(newFile, _).
       Inr (UpdateUsage \<lparr>File = newFile, Duplicate = False\<rparr>, [InsertRow newFile]))"
| "statement p (SaveCall userID objectKey hash ct nm sz) (UpdateUsage r) v =
     and_then (wrapf ''update storage usage'' (update_usage p S_SaveUpdateUsage sz (\<lambda>n. n) userID v)) (\<lambda>_.
       Inr (SaveCommit r, args p userID (\<lambda>u. ChangeUsage u sz)))"
| "statement p (DeleteCall fileID userID) Begin v =
     and_then (wrapf ''begin tx'' (exec p S_DelBegin (Inr ()))) (\<lambda>_. Inr (Fetch, []))"
| "statement p (DeleteCall fileID userID) Fetch v =
     and_then (no_rows_not_found ''fetch file for delete'' (fetch_file p fileID userID v)) (\<lambda>f.
       Inr (FindCanon f, []))"
| "statement p (DeleteCall fileID userID) (FindCanon f) v =
     and_then (wrapf ''find canonical for delete'' (find_canon p (SHA256 f) v)) (\<lambda>(canonID, refCount).
       Inr (if refCount \<le> 1 then HardDel f else SoftDel f canonID, []))"
| "statement p (DeleteCall fileID userID) (HardDel f) v =
     and_then (wrapf ''hard delete file'' (hard_delete p (file_ID f) v)) (\<lambda>_.
       Inr (Reclaim f True, [HardDelete (file_ID f)]))"
| "statement p (DeleteCall fileID userID) (SoftDel f canonID) v =
     and_then (wrapf ''soft delete file'' (soft_delete p (file_ID f) v)) (\<lambda>_.
       Inr (DecrRef f canonID, [SoftDelete (file_ID f) (clock p)]))"
| "statement p (DeleteCall fileID userID) (DecrRef f canonID) v =
     and_then (wrapf ''decrement ref_count'' (update_ref p S_DelDecrRef (- 1) canonID v)) (\<lambda>_.
       Inr (Reclaim f False, [AddRef canonID (- 1)]))"
| "statement p (DeleteCall fileID userID) (Reclaim f shouldDelete) v =
     and_then (wrapf ''update storage usage on delete''
         (update_usage p S_DelUpdateUsage (- Size f) (max 0) userID v)) (\<lambda>_.
       Inr (DelCommit \<lparr>res_ObjectKey = ObjectKey f, ShouldDeleteObject = shouldDelete\<rparr>,
            args p userID (\<lambda>u. ReclaimUsage u (Size f))))"
| "statement p (CreateCall userID nm path hash sz) Begin v =
     and_then (wrapf ''begin tx'' (exec p S_DocBegin (Inr ()))) (\<lambda>_. Inr (InsertDoc, []))"
| "statement p (CreateCall userID nm path hash sz) InsertDoc v =
     and_then (wrapf ''create document'' (insert_document p userID nm path hash sz v)) (\<lambda>(d, _).
       Inr (ChargeDoc d, [InsertDocument d]))"
| "statement p (CreateCall userID nm path hash sz) (ChargeDoc d) v =
     and_then (wrapf ''update storage usage'' (update_usage p S_DocUpdateUsage sz (\<lambda>n. n) userID v)) (\<lambda>_.
       Inr (DocCommit d, args p userID (\<lambda>u. ChangeUsage u sz)))"
| "statement p _ _ v = Inr (Ended (Inl ErrNotFound), [])"

text \<open>The rows that a statement locks: those that it finds, and the key of a row it inserts.\<close>

definition user_row :: "pg \<Rightarrow> string \<Rightarrow> database \<Rightarrow> lock list" where
  "user_row p userID v = (case uuid_in p userID of None \<Rightarrow> [] | Some u \<Rightarrow> filter (present v) [UserRow u])"

fun wanted :: "pg \<Rightarrow> call \<Rightarrow> position \<Rightarrow> database \<Rightarrow> lock list" where
  "wanted p c LockUser v = user_row p (call_user c) v"
| "wanted p c (IncrRef canon) v = filter (present v) [FileRow (file_ID canon)]"
| "wanted p c (InsertDup canon) v = filter (\<lambda>k. \<not> present v k) [FileRow (gen_uuid p)]"
| "wanted p c InsertNew v = filter (\<lambda>k. \<not> present v k) [FileRow (gen_uuid p)]"
| "wanted p c (UpdateUsage r) v = user_row p (call_user c) v"
| "wanted p (DeleteCall fileID userID) Fetch v =
     (case fetch_file (p\<lparr>fault := (\<lambda>_. False)\<rparr>) fileID userID v of
        Inl e \<Rightarrow> []
      | Inr f \<Rightarrow> [FileRow (file_ID f)])"
| "wanted p c (HardDel f) v = filter (present v) [FileRow (file_ID f)]"
| "wanted p c (SoftDel f canonID) v = filter (present v) [FileRow (file_ID f)]"
| "wanted p c (DecrRef f canonID) v = filter (present v) [FileRow canonID]"
| "wanted p c (Reclaim f shouldDelete) v = user_row p (call_user c) v"
| "wanted p c InsertDoc v = filter (\<lambda>k. \<not> present v k) [DocumentRow (gen_uuid p)]"
| "wanted p c (ChargeDoc d) v = user_row p (call_user c) v"
| "wanted p c _ v = []"

section \<open>Interleavings\<close>

type_synonym txn_state = "database \<times> session list"

definition wants :: "database \<Rightarrow> session \<Rightarrow> lock list" where
  "wants db s = wanted (ss_pg s) (ss_call s) (ss_at s) (seen (ss_writes s) db)"

definition blocked_by :: "database \<Rightarrow> session list \<Rightarrow> nat \<Rightarrow> nat \<Rightarrow> bool" where
  "blocked_by db ss i j \<longleftrightarrow> i \<noteq> j \<and> (\<exists>k \<in> set (wants db (ss ! i)). k \<in> set (ss_locks (ss ! j)))"

definition blocked :: "database \<Rightarrow> session list \<Rightarrow> nat \<Rightarrow> bool" where
  "blocked db ss i \<longleftrightarrow> list_ex (blocked_by db ss i) [0..<length ss]"

lemma blocked_iff: "blocked db ss i \<longleftrightarrow> (\<exists>j < length ss. blocked_by db ss i j)"
  by (auto simp: blocked_def list_ex_iff)

definition ended :: "session \<Rightarrow> bool" where
  "ended s \<longleftrightarrow> (case ss_at s of Ended r \<Rightarrow> True | _ \<Rightarrow> False)"

text \<open>The next statement of a session. A row that is not there is neither locked nor written.\<close>

definition advance :: "session \<Rightarrow> database \<Rightarrow> database \<times> session" where
  "advance s db =
     (case ss_at s of
        Ended r \<Rightarrow> (db, s)
      | SaveCommit r \<Rightarrow>
          (case wrapf ''commit'' (exec (ss_pg s) S_SaveCommit (Inr ())) of
             Inl e \<Rightarrow> (db, finish (Inl e) s)
           | Inr _ \<Rightarrow> (seen (ss_writes s) db, finish (Inr (Saved r)) s))
      | DelCommit r \<Rightarrow>
          (case wrapf ''commit delete'' (exec (ss_pg s) S_DelCommit (Inr ())) of
             Inl e \<Rightarrow> (db, finish (Inl e) s)
           | Inr _ \<Rightarrow> (seen (ss_writes s) db, finish (Inr (Deleted r)) s))
      | DocCommit d \<Rightarrow>
          (case wrapf ''commit'' (exec (ss_pg s) S_DocCommit (Inr ())) of
             Inl e \<Rightarrow> (db, finish (Inl e) s)
           | Inr _ \<Rightarrow> (seen (ss_writes s) db, finish (Inr (Created d)) s))
      | pos \<Rightarrow>
          (case statement (ss_pg s) (ss_call s) pos (seen (ss_writes s) db) of
             Inl e \<Rightarrow> (db, finish (Inl e) s)
           | Inr (pos', ws) \<Rightarrow>
               (let ls = ss_locks s @ wants db s
                in (db, s\<lparr>ss_at := pos', ss_writes := ss_writes s @ filter (\<lambda>w. lock_of w \<in> set ls) ws,
                          ss_locks := ls\<rparr>))))"

definition turn :: "nat \<Rightarrow> txn_state \<Rightarrow> txn_state" where
  "turn i = (\<lambda>(db, ss). let (db', s) = advance (ss ! i) db in (db', ss[i := s]))"

text \<open>A session that is not blocked executes its next statement; one that is blocked may be
  cancelled by the server (a deadlock, a lock timeout).\<close>

inductive txn_step :: "txn_state \<Rightarrow> txn_state \<Rightarrow> bool" where
  turn: "i < length ss \<Longrightarrow> \<not> blocked db ss i \<Longrightarrow> txn_step (db, ss) (turn i (db, ss))"
| victim: "i < length ss \<Longrightarrow> blocked db ss i \<Longrightarrow> txn_step (db, ss) (db, ss[i := finish (Inl e) (ss ! i)])"

text \<open>A schedule: the sessions that execute a statement, in order.\<close>

fun run_turns :: "nat list \<Rightarrow> txn_state \<Rightarrow> txn_state" where
  "run_turns [] x = x"
| "run_turns (i # is) x =
     run_turns is (if i < length (snd x) \<and> \<not> blocked (fst x) (snd x) i then turn i x else x)"

end
