(* ===== verification/TransactionSerial.thy ===== *)
theory TransactionSerial
  imports Transactions
begin

text \<open>
  The statements of a session, run without another session in between, do what the serial
  transactions of theories \<open>MetadataStore\<close> and \<open>DocumentStore\<close> do: the two descriptions of
  \<open>Save\<close>, \<open>Delete\<close> and \<open>CreateDocument\<close> agree.
\<close>

section \<open>A session alone\<close>

text \<open>\<open>n\<close> statements of one session.\<close>

definition solo :: "nat \<Rightarrow> session \<Rightarrow> database \<Rightarrow> database \<times> session" where
  "solo n s db = ((\<lambda>(db, s). advance s db) ^^ n) (db, s)"

lemma solo_simps [simp]:
  "solo 0 s db = (db, s)"
  "solo (Suc n) s db = (let (db', s') = advance s db in solo n s' db')"
  by (simp_all add: solo_def funpow_Suc_right split: prod.split del: funpow.simps)

lemma not_blocked_alone [simp]: "\<not> blocked db [s] 0"
  by (simp add: blocked_iff blocked_by_def)

lemma run_turns_solo:
  "run_turns (replicate n 0) (db, [s]) = (let (db', s') = solo n s db in (db', [s']))"
  by (induction n arbitrary: db s) (simp_all add: turn_def split: prod.split)

lemma seen_append [simp]: "seen (ws @ ws') db = seen ws' (seen ws db)"
  by (simp add: seen_def)

lemma seen_simps [simp]: "seen [] db = db" "seen (w # ws) db = seen ws (apply_write w db)"
  by (simp_all add: seen_def)

lemma finish_sel [simp]:
  "ss_pg (finish r s) = ss_pg s" "ss_call (finish r s) = ss_call s" "ss_at (finish r s) = Ended r"
  "ss_writes (finish r s) = []" "ss_locks (finish r s) = []"
  by (simp_all add: finish_def)

lemma finish_updates [simp]:
  "finish r (s\<lparr>ss_at := a\<rparr>) = finish r s" "finish r (s\<lparr>ss_writes := ws\<rparr>) = finish r s"
  "finish r (s\<lparr>ss_locks := ls\<rparr>) = finish r s" "finish r (finish r' s) = finish r s"
  by (simp_all add: finish_def)

lemma solo_ended: "ss_at s = Ended r \<Longrightarrow> solo n s db = (db, s)"
  by (induction n) (simp_all add: advance_def)

text \<open>A change of a row that is not there changes nothing.\<close>

lemma absent_row:
  "k \<notin> g ` set rs \<Longrightarrow> sql_update (\<lambda>r. g r = k) f rs = rs"
  "k \<notin> g ` set rs \<Longrightarrow> sql_delete (\<lambda>r. g r = k) rs = rs"
  by (auto intro!: sql_update_id sql_delete_id)

lemma apply_absent:
  "\<not> present v (lock_of w) \<Longrightarrow> (\<forall>f. w \<noteq> InsertRow f) \<Longrightarrow> (\<forall>d. w \<noteq> InsertDocument d) \<Longrightarrow> apply_write w v = v"
  by (cases w) (auto simp: ref_row_other charge_def refund_def mark_deleted_def absent_row)

text \<open>The end of a transaction, from the result of its body.\<close>

definition commit_of ::
  "pg \<Rightarrow> stmt \<Rightarrow> string \<Rightarrow> ('a \<Rightarrow> result) \<Rightarrow> (go_error + result \<Rightarrow> session) \<Rightarrow> database \<Rightarrow>
     go_error + 'a \<times> database \<Rightarrow> database \<times> session" where
  "commit_of p c m g fin db body =
     (case body of
        Inl e \<Rightarrow> (db, fin (Inl e))
      | Inr (x, v) \<Rightarrow>
          (case wrapf m (exec p c (Inr ())) of
             Inl e \<Rightarrow> (db, fin (Inl e))
           | Inr _ \<Rightarrow> (v, fin (Inr (g x)))))"

lemma commit_of_Inl [simp]: "commit_of p c m g fin db (Inl e) = (db, fin (Inl e))"
  by (simp add: commit_of_def)

lemma in_tx_commit_of:
  "(let (r, db') = in_tx p b c m body db in (db', fin (map_sum (\<lambda>e. e) g r))) =
    commit_of p c m g fin db (and_then (wrapf ''begin tx'' (exec p b (Inr ()))) (\<lambda>_. body db))"
  by (cases "fault p b"; cases "fault p c"; cases "body db") (auto simp: in_tx_def commit_of_def exec_def)

text \<open>A statement locks every row that it changes.\<close>

lemma insert_document_Inr:
  "insert_document p userID nm path h sz v = Inr (d, v') \<Longrightarrow>
     uuid_in p userID = Some (doc_UserID d) \<and> doc_UserID d \<in> user_ID ` set (users v) \<and>
     doc_ID d = gen_uuid p \<and> gen_uuid p \<notin> doc_ID ` set (documents v) \<and> doc_SizeBytes d = sz \<and>
     lifecycle d \<and> v' = v\<lparr>documents := documents v @ [d]\<rparr>"
  by (auto simp: insert_document_def lifecycle_def Let_def split: if_splits)

lemma user_row_covers:
  "lock_of w = UserRow u \<Longrightarrow> uuid_in p userID = Some u \<Longrightarrow>
     lock_of w \<in> set (user_row p userID v) \<or> \<not> present v (lock_of w)"
  by (simp add: user_row_def)

lemma statement_covered:
  assumes "statement p c pos v = Inr (pos', ws)" and "w \<in> set ws"
  shows "lock_of w \<in> set (wanted p c pos v) \<or>
    \<not> present v (lock_of w) \<and> (\<forall>f. w \<noteq> InsertRow f) \<and> (\<forall>d. w \<noteq> InsertDocument d)"
  using assms
  by (cases "(p, c, pos, v)" rule: statement.cases)
     (auto simp: args_def user_row_def new_row_def split: option.splits if_splits
       dest!: insert_file_Inr insert_document_Inr)

lemma statement_single:
  assumes "statement p c pos v = Inr (pos', ws)"
  shows "ws = [] \<or> (\<exists>w. ws = [w])"
  using assms
  by (cases "(p, c, pos, v)" rule: statement.cases)
     (auto simp: args_def split: option.splits if_splits prod.splits)

lemma statement_seen:
  assumes "statement p c pos v = Inr (pos', ws)" and "set (wanted p c pos v) \<subseteq> set ls"
  shows "seen (filter (\<lambda>w. lock_of w \<in> set ls) ws) v = seen ws v"
  using statement_single[OF assms(1)]
proof
  assume "\<exists>w. ws = [w]"
  then obtain w where w: "ws = [w]" by blast
  with statement_covered[OF assms(1), of w] assms(2) apply_absent[of v w] show ?thesis by auto
qed simp

text \<open>A statement of a session, from the version that it sees.\<close>

fun commits :: "position \<Rightarrow> bool" where
  "commits (SaveCommit r) = True"
| "commits (DelCommit r) = True"
| "commits (DocCommit d) = True"
| "commits (Ended r) = True"
| "commits _ = False"

lemma advance_statement:
  assumes "\<not> commits (ss_at s)" and "statement (ss_pg s) (ss_call s) (ss_at s) (seen (ss_writes s) db) = r"
  shows "(\<exists>e. r = Inl e \<and> advance s db = (db, finish (Inl e) s)) \<or>
    (\<exists>pos ws ls s'. r = Inr (pos, ws) \<and> ls = ss_locks s @ wants db s \<and>
       s' = s\<lparr>ss_at := pos, ss_writes := ss_writes s @ filter (\<lambda>w. lock_of w \<in> set ls) ws, ss_locks := ls\<rparr> \<and>
       advance s db = (db, s') \<and> seen (ss_writes s') db = seen ws (seen (ss_writes s) db))"
proof (cases r)
  case (Inl e)
  with assms show ?thesis by (cases "ss_at s") (simp_all add: advance_def)
next
  case (Inr y)
  obtain pos ws where y: "y = (pos, ws)" by fastforce
  have "set (wanted (ss_pg s) (ss_call s) (ss_at s) (seen (ss_writes s) db)) \<subseteq> set (ss_locks s @ wants db s)"
    by (simp add: wants_def)
  with statement_seen assms(2) Inr y
  have "seen (filter (\<lambda>w. lock_of w \<in> set (ss_locks s @ wants db s)) ws) (seen (ss_writes s) db) = seen ws (seen (ss_writes s) db)"
    by blast
  with assms Inr y show ?thesis by (cases "ss_at s") (simp_all add: advance_def Let_def)
qed

text \<open>The rest of a transaction alone, from a position on.\<close>

definition rest ::
  "nat \<Rightarrow> session \<Rightarrow> database \<Rightarrow> stmt \<Rightarrow> string \<Rightarrow> ('a \<Rightarrow> result) \<Rightarrow> go_error + 'a \<times> database \<Rightarrow> bool" where
  "rest n s db c m g body \<longleftrightarrow> solo n s db = commit_of (ss_pg s) c m g (\<lambda>r. finish r s) db body"

lemma rest_statement:
  assumes "\<not> commits (ss_at s)"
    and "statement (ss_pg s) (ss_call s) (ss_at s) (seen (ss_writes s) db) = r"
    and "\<And>e. r = Inl e \<Longrightarrow> body = Inl e"
    and "\<And>pos ws s'. r = Inr (pos, ws) \<Longrightarrow> ss_pg s' = ss_pg s \<Longrightarrow> ss_call s' = ss_call s \<Longrightarrow> ss_at s' = pos \<Longrightarrow>
      seen (ss_writes s') db = seen ws (seen (ss_writes s) db) \<Longrightarrow> rest n s' db c m g body"
  shows "rest (Suc n) s db c m g body"
  using advance_statement[OF assms(1,2)]
proof (elim disjE exE conjE)
  fix e
  assume "r = Inl e" and "advance s db = (db, finish (Inl e) s)"
  with assms(3) show ?thesis by (simp add: rest_def solo_ended)
next
  fix pos ws ls s'
  assume *: "r = Inr (pos, ws)" "ls = ss_locks s @ wants db s"
      "s' = s\<lparr>ss_at := pos, ss_writes := ss_writes s @ filter (\<lambda>w. lock_of w \<in> set ls) ws, ss_locks := ls\<rparr>"
      "advance s db = (db, s')" "seen (ss_writes s') db = seen ws (seen (ss_writes s) db)"
  then have "rest n s' db c m g body" by (intro assms(4)) simp_all
  moreover have "(\<lambda>r. finish r s') = (\<lambda>r. finish r s)" using *(3) by simp
  ultimately show ?thesis using *(3,4) by (simp add: rest_def)
qed

lemma rest_commit:
  "ss_at s = SaveCommit r \<Longrightarrow> rest (Suc n) s db S_SaveCommit ''commit'' Saved (Inr (r, seen (ss_writes s) db))"
  "ss_at s = DelCommit r' \<Longrightarrow> rest (Suc n) s db S_DelCommit ''commit delete'' Deleted (Inr (r', seen (ss_writes s) db))"
  "ss_at s = DocCommit d \<Longrightarrow> rest (Suc n) s db S_DocCommit ''commit'' Created (Inr (d, seen (ss_writes s) db))"
  by (cases "fault (ss_pg s) S_SaveCommit"; cases "fault (ss_pg s) S_DelCommit"; cases "fault (ss_pg s) S_DocCommit";
      simp add: rest_def advance_def commit_of_def exec_def solo_ended)+

lemma args_seen:
  "seen (args p userID (\<lambda>u. ChangeUsage u d)) v =
     (case uuid_in p userID of None \<Rightarrow> v | Some u \<Rightarrow> v\<lparr>users := charge u d (users v)\<rparr>)"
  "seen (args p userID (\<lambda>u. ReclaimUsage u d)) v =
     (case uuid_in p userID of None \<Rightarrow> v | Some u \<Rightarrow> v\<lparr>users := refund u d (users v)\<rparr>)"
  by (simp_all add: args_def split: option.splits)

lemma update_usage_seen:
  "update_usage p st sz (\<lambda>n. n) userID v = Inr v' \<Longrightarrow> seen (args p userID (\<lambda>u. ChangeUsage u sz)) v = v'"
  "update_usage p st (- sz) (max 0) userID v = Inr v' \<Longrightarrow> seen (args p userID (\<lambda>u. ReclaimUsage u sz)) v = v'"
  by (auto simp: update_usage_Inr args_seen charge_def refund_def)

lemma rest_bind:
  assumes "ss_at s = a" and "ss_pg s = p" and "ss_call s = c" and "seen (ss_writes s) db = v"
    and "\<not> commits a" and "statement p c a v = and_then m (\<lambda>x. Inr (pos x, ws x))"
    and "\<And>x s'. m = Inr x \<Longrightarrow> ss_at s' = pos x \<Longrightarrow> ss_pg s' = p \<Longrightarrow> ss_call s' = c \<Longrightarrow>
      seen (ss_writes s') db = seen (ws x) v \<Longrightarrow> rest n s' db cm msg g (k x)"
  shows "rest (Suc n) s db cm msg g (and_then m k)"
proof (cases m)
  case (Inl e)
  with assms show ?thesis by (intro rest_statement) auto
next
  case (Inr x)
  with assms show ?thesis by (intro rest_statement) auto
qed

text \<open>\<open>Save\<close>, backwards.\<close>

lemma rest_UpdateUsage:
  assumes "ss_at s = UpdateUsage r" and "ss_pg s = p" and "ss_call s = SaveCall userID key h ct nm sz"
    and "seen (ss_writes s) db = v"
  shows "rest (Suc (Suc n)) s db S_SaveCommit ''commit'' Saved
    (and_then (wrapf ''update storage usage'' (update_usage p S_SaveUpdateUsage sz (\<lambda>n. n) userID v)) (\<lambda>v'. Inr (r, v')))"
proof (rule rest_bind[OF assms _ statement.simps(7)])
  fix x and s' :: session
  assume u: "wrapf ''update storage usage'' (update_usage p S_SaveUpdateUsage sz (\<lambda>n. n) userID v) = Inr x"
    and s': "ss_at s' = SaveCommit r" and v: "seen (ss_writes s') db = seen (args p userID (\<lambda>u. ChangeUsage u sz)) v"
  from rest_commit(1)[OF s', of n db] u v update_usage_seen(1) 
  show "rest (Suc n) s' db S_SaveCommit ''commit'' Saved (Inr (r, x))" by fastforce
qed simp

lemma rest_insert:
  assumes "ss_pg s = p" and "ss_call s = SaveCall userID key h ct nm sz" and "seen (ss_writes s) db = v"
    and "ss_at s = InsertNew \<and> dup = False \<and> msg = ''insert new file'' \<and> st = S_SaveInsertNew \<and> k = key \<or>
      ss_at s = InsertDup canon \<and> dup = True \<and> msg = ''insert dedup row'' \<and> st = S_SaveInsertDup \<and> k = ObjectKey canon"
  shows "rest (Suc (Suc (Suc n))) s db S_SaveCommit ''commit'' Saved
    (and_then (wrapf msg (insert_file p st userID k h sz ct nm v)) (\<lambda>(f, v).
     and_then (wrapf ''update storage usage'' (update_usage p S_SaveUpdateUsage sz (\<lambda>n. n) userID v)) (\<lambda>v'.
       Inr (\<lparr>File = f, Duplicate = dup\<rparr>, v'))))"
proof (rule rest_bind[OF refl assms(1-3), where pos = "\<lambda>(f, _). UpdateUsage \<lparr>File = f, Duplicate = dup\<rparr>" and ws = "\<lambda>(f, _). [InsertRow f]"])
  fix x and s' :: session
  assume i: "wrapf msg (insert_file p st userID k h sz ct nm v) = Inr x"
    and s': "ss_at s' = (case x of (f, _) \<Rightarrow> UpdateUsage \<lparr>File = f, Duplicate = dup\<rparr>)" "ss_pg s' = p"
      "ss_call s' = SaveCall userID key h ct nm sz"
      "seen (ss_writes s') db = seen (case x of (f, _) \<Rightarrow> [InsertRow f]) v"
  obtain f v' where x: "x = (f, v')" by fastforce
  with i have "v' = v\<lparr>files := files v @ [f]\<rparr>" by (auto dest: insert_file_Inr)
  with s' x show "rest (Suc (Suc n)) s' db S_SaveCommit ''commit'' Saved (case x of (f, v) \<Rightarrow>
     and_then (wrapf ''update storage usage'' (update_usage p S_SaveUpdateUsage sz (\<lambda>n. n) userID v)) (\<lambda>v'.
       Inr (\<lparr>File = f, Duplicate = dup\<rparr>, v')))"
    by (simp add: rest_UpdateUsage)
qed (use assms(4) in \<open>auto simp: case_prod_unfold\<close>)

lemma and_then_assoc: "and_then (and_then m f) g = and_then m (\<lambda>x. and_then (f x) g)"
  by (cases m) simp_all

lemma rest_IncrRef:
  assumes "ss_at s = IncrRef canon" and "ss_pg s = p" and "ss_call s = SaveCall userID key h ct nm sz"
    and "seen (ss_writes s) db = v"
  shows "rest (Suc (Suc (Suc (Suc n)))) s db S_SaveCommit ''commit'' Saved
    (and_then (wrapf ''increment ref_count'' (update_ref p S_SaveIncrRef 1 (file_ID canon) v)) (\<lambda>v.
     and_then (wrapf ''insert dedup row'' (insert_file p S_SaveInsertDup userID (ObjectKey canon) h sz ct nm v)) (\<lambda>(f, v).
     and_then (wrapf ''update storage usage'' (update_usage p S_SaveUpdateUsage sz (\<lambda>n. n) userID v)) (\<lambda>v'.
       Inr (\<lparr>File = f, Duplicate = True\<rparr>, v')))))"
proof (rule rest_bind[OF assms _ statement.simps(4)])
  fix x and s' :: session
  assume *: "wrapf ''increment ref_count'' (update_ref p S_SaveIncrRef 1 (file_ID canon) v) = Inr x"
    and s': "ss_at s' = InsertDup canon" "ss_pg s' = p" "ss_call s' = SaveCall userID key h ct nm sz"
    and "seen (ss_writes s') db = seen [AddRef (file_ID canon) 1] v"
  with update_ref_Inr have "seen (ss_writes s') db = x" by fastforce
  from rest_insert[OF s'(2,3) this, where canon = canon] s'(1)
  show "rest (Suc (Suc (Suc n))) s' db S_SaveCommit ''commit'' Saved
    (and_then (wrapf ''insert dedup row'' (insert_file p S_SaveInsertDup userID (ObjectKey canon) h sz ct nm x)) (\<lambda>(f, v).
     and_then (wrapf ''update storage usage'' (update_usage p S_SaveUpdateUsage sz (\<lambda>n. n) userID v)) (\<lambda>v'.
       Inr (\<lparr>File = f, Duplicate = True\<rparr>, v'))))"
    by simp
qed simp

text \<open>The rest of \<open>Save\<close> after the test of the quota.\<close>

definition save_rest ::
  "pg \<Rightarrow> string \<Rightarrow> string \<Rightarrow> string \<Rightarrow> string \<Rightarrow> string \<Rightarrow> int \<Rightarrow> database \<Rightarrow> go_error + save_result \<times> database" where
  "save_rest p userID key h ct nm sz db =
     and_then (wrapf ''find canonical'' (find_canonical p h db)) (\<lambda>existing.
       and_then
         (case existing of
            Some canon \<Rightarrow>
              and_then (wrapf ''increment ref_count'' (update_ref p S_SaveIncrRef 1 (file_ID canon) db)) (\<lambda>tx.
                wrapf ''insert dedup row''
                  (insert_file p S_SaveInsertDup userID (ObjectKey canon) h sz ct nm tx))
          | None \<Rightarrow> wrapf ''insert new file'' (insert_file p S_SaveInsertNew userID key h sz ct nm db))
         (\<lambda>(newFile, tx).
       and_then (wrapf ''update storage usage'' (update_usage p S_SaveUpdateUsage sz (\<lambda>n. n) userID tx)) (\<lambda>tx.
         Inr (\<lparr>File = newFile, Duplicate = (existing \<noteq> None)\<rparr>, tx))))"

lemma rest_FindCanonical:
  assumes "ss_at s = FindCanonical" and "ss_pg s = p" and "ss_call s = SaveCall userID key h ct nm sz"
    and "seen (ss_writes s) db = db"
  shows "rest (Suc (Suc (Suc (Suc (Suc n))))) s db S_SaveCommit ''commit'' Saved (save_rest p userID key h ct nm sz db)"
  unfolding save_rest_def
proof (rule rest_bind[OF assms _ statement.simps(3)])
  fix x and s' :: session
  assume s': "ss_at s' = (case x of Some canon \<Rightarrow> IncrRef canon | None \<Rightarrow> InsertNew)" "ss_pg s' = p"
    "ss_call s' = SaveCall userID key h ct nm sz" "seen (ss_writes s') db = seen [] db"
  then show "rest (Suc (Suc (Suc (Suc n)))) s' db S_SaveCommit ''commit'' Saved
     (and_then
       (case x of
          Some canon \<Rightarrow>
            and_then (wrapf ''increment ref_count'' (update_ref p S_SaveIncrRef 1 (file_ID canon) db)) (\<lambda>tx.
              wrapf ''insert dedup row''
                (insert_file p S_SaveInsertDup userID (ObjectKey canon) h sz ct nm tx))
        | None \<Rightarrow> wrapf ''insert new file'' (insert_file p S_SaveInsertNew userID key h sz ct nm db))
       (\<lambda>(newFile, tx).
     and_then (wrapf ''update storage usage'' (update_usage p S_SaveUpdateUsage sz (\<lambda>n. n) userID tx)) (\<lambda>tx.
       Inr (\<lparr>File = newFile, Duplicate = (x \<noteq> None)\<rparr>, tx))))"
    using rest_insert[of s' p userID key h ct nm sz db db False _ S_SaveInsertNew key]
      rest_IncrRef[of s' _ p userID key h ct nm sz db db]
    by (cases x) (simp_all add: and_then_assoc)
qed simp

lemma rest_save_tx:
  assumes "ss_at s = LockUser" and "ss_pg s = p" and "ss_call s = SaveCall userID key h ct nm sz"
    and "seen (ss_writes s) db = db"
  shows "rest (Suc (Suc (Suc (Suc (Suc (Suc n)))))) s db S_SaveCommit ''commit'' Saved (save_tx p userID key h ct nm sz db)"
proof -
  have tx: "save_tx p userID key h ct nm sz db = and_then (wrapf ''lock user'' (lock_user p userID db)) (\<lambda>(bytesUsed, quota).
       if quota < int64 (bytesUsed + sz) then Inl ErrQuotaExceeded else save_rest p userID key h ct nm sz db)"
    by (simp only: save_tx_def save_rest_def)
  show ?thesis
    unfolding tx
  proof (rule rest_statement)
    fix e
    assume "and_then (wrapf ''lock user'' (lock_user p userID db)) (\<lambda>(bytesUsed, quota).
       if quota < int64 (bytesUsed + sz) then Inl ErrQuotaExceeded else Inr (FindCanonical, [])) = (Inl e :: go_error + position \<times> change list)"
    then show "and_then (wrapf ''lock user'' (lock_user p userID db)) (\<lambda>(bytesUsed, quota).
       if quota < int64 (bytesUsed + sz) then Inl ErrQuotaExceeded else save_rest p userID key h ct nm sz db) = Inl e"
      by (auto simp: and_then_eq_Inl split: if_splits)
  next
    fix pos ws and s' :: session
    assume "and_then (wrapf ''lock user'' (lock_user p userID db)) (\<lambda>(bytesUsed, quota).
       if quota < int64 (bytesUsed + sz) then Inl ErrQuotaExceeded else Inr (FindCanonical, [])) = Inr (pos, ws)"
      and "ss_pg s' = ss_pg s" "ss_call s' = ss_call s" "ss_at s' = pos"
      "seen (ss_writes s') db = seen ws (seen (ss_writes s) db)"
    with rest_FindCanonical[of s'] assms show "rest (Suc (Suc (Suc (Suc (Suc n))))) s' db S_SaveCommit ''commit'' Saved
      (and_then (wrapf ''lock user'' (lock_user p userID db)) (\<lambda>(bytesUsed, quota).
       if quota < int64 (bytesUsed + sz) then Inl ErrQuotaExceeded else save_rest p userID key h ct nm sz db))"
      by (auto split: if_splits)
  qed (use assms in simp_all)
qed

lemma solo_Save:
  fixes db :: database
  assumes "c = SaveCall userID key h ct nm sz"
  shows "solo 7 (open_session (p, c)) db =
     (let (r, db') = Save p userID key h ct nm sz db
      in (db', finish (map_sum (\<lambda>e. e) Saved r) (open_session (p, c))))"
proof -
  have "rest (Suc (Suc (Suc (Suc (Suc (Suc (Suc 0))))))) (open_session (p, c)) db S_SaveCommit ''commit'' Saved
     (and_then (wrapf ''begin tx'' (exec p S_SaveBegin (Inr ()))) (\<lambda>_. save_tx p userID key h ct nm sz db))"
    by (rule rest_bind[OF _ _ _ _ _ statement.simps(1)])
       (use assms in \<open>auto simp: open_session_def intro!: rest_save_tx\<close>)
  then show ?thesis
    using in_tx_commit_of[where fin = "\<lambda>r. finish r (open_session (p, c))" and g = Saved]
    by (simp add: Save_def rest_def eval_nat_numeral open_session_def)
qed

text \<open>\<open>Delete\<close>, backwards.\<close>

lemma rest_Reclaim:
  assumes "ss_at s = Reclaim f b" and "ss_pg s = p" and "ss_call s = DeleteCall fileID userID"
    and "seen (ss_writes s) db = v"
  shows "rest (Suc (Suc n)) s db S_DelCommit ''commit delete'' Deleted
    (and_then (wrapf ''update storage usage on delete'' (update_usage p S_DelUpdateUsage (- Size f) (max 0) userID v)) (\<lambda>v'.
       Inr (\<lparr>res_ObjectKey = ObjectKey f, ShouldDeleteObject = b\<rparr>, v')))"
proof (rule rest_bind[OF assms _ statement.simps(14)])
  fix x and s' :: session
  assume u: "wrapf ''update storage usage on delete'' (update_usage p S_DelUpdateUsage (- Size f) (max 0) userID v) = Inr x"
    and s': "ss_at s' = DelCommit \<lparr>res_ObjectKey = ObjectKey f, ShouldDeleteObject = b\<rparr>"
    and v: "seen (ss_writes s') db = seen (args p userID (\<lambda>u. ReclaimUsage u (Size f))) v"
  from rest_commit(2)[OF s', of n db] u v update_usage_seen(2)
  show "rest (Suc n) s' db S_DelCommit ''commit delete'' Deleted
    (Inr (\<lparr>res_ObjectKey = ObjectKey f, ShouldDeleteObject = b\<rparr>, x))" by fastforce
qed simp

lemma rest_HardDel:
  assumes "ss_at s = HardDel f" and "ss_pg s = p" and "ss_call s = DeleteCall fileID userID"
    and "seen (ss_writes s) db = v"
  shows "rest (Suc (Suc (Suc n))) s db S_DelCommit ''commit delete'' Deleted
    (and_then (wrapf ''hard delete file'' (hard_delete p (file_ID f) v)) (\<lambda>v.
     and_then (wrapf ''update storage usage on delete'' (update_usage p S_DelUpdateUsage (- Size f) (max 0) userID v)) (\<lambda>v'.
       Inr (\<lparr>res_ObjectKey = ObjectKey f, ShouldDeleteObject = True\<rparr>, v'))))"
  by (rule rest_bind[OF assms _ statement.simps(11)]) (auto simp: hard_delete_def intro: rest_Reclaim)

lemma rest_SoftDel:
  assumes "ss_at s = SoftDel f i" and "ss_pg s = p" and "ss_call s = DeleteCall fileID userID"
    and "seen (ss_writes s) db = v"
  shows "rest (Suc (Suc (Suc (Suc n)))) s db S_DelCommit ''commit delete'' Deleted
    (and_then (wrapf ''soft delete file'' (soft_delete p (file_ID f) v)) (\<lambda>v.
     and_then (wrapf ''decrement ref_count'' (update_ref p S_DelDecrRef (- 1) i v)) (\<lambda>v.
     and_then (wrapf ''update storage usage on delete'' (update_usage p S_DelUpdateUsage (- Size f) (max 0) userID v)) (\<lambda>v'.
       Inr (\<lparr>res_ObjectKey = ObjectKey f, ShouldDeleteObject = False\<rparr>, v')))))"
proof (rule rest_bind[OF assms _ statement.simps(12)])
  fix x and s' :: session
  assume x: "wrapf ''soft delete file'' (soft_delete p (file_ID f) v) = Inr x"
    and s': "ss_at s' = DecrRef f i" "ss_pg s' = p" "ss_call s' = DeleteCall fileID userID"
    and "seen (ss_writes s') db = seen [SoftDelete (file_ID f) (clock p)] v"
  with x have s'x: "seen (ss_writes s') db = x" by (auto simp: soft_delete_def mark_deleted_def)
  show "rest (Suc (Suc (Suc n))) s' db S_DelCommit ''commit delete'' Deleted
    (and_then (wrapf ''decrement ref_count'' (update_ref p S_DelDecrRef (- 1) i x)) (\<lambda>v.
     and_then (wrapf ''update storage usage on delete'' (update_usage p S_DelUpdateUsage (- Size f) (max 0) userID v)) (\<lambda>v'.
       Inr (\<lparr>res_ObjectKey = ObjectKey f, ShouldDeleteObject = False\<rparr>, v'))))"
    by (rule rest_bind[OF s' s'x _ statement.simps(13)]) (auto intro!: rest_Reclaim dest: update_ref_Inr)
qed simp

lemma rest_delete_tx:
  assumes "ss_at s = Fetch" and "ss_pg s = p" and "ss_call s = DeleteCall fileID userID"
    and "seen (ss_writes s) db = db"
  shows "rest (Suc (Suc (Suc (Suc (Suc (Suc n)))))) s db S_DelCommit ''commit delete'' Deleted (delete_tx p fileID userID db)"
  unfolding delete_tx_def
proof (rule rest_bind[OF assms _ statement.simps(9)])
  fix f and s' :: session
  assume s': "ss_at s' = FindCanon f" "ss_pg s' = p" "ss_call s' = DeleteCall fileID userID"
    and "seen (ss_writes s') db = seen [] db"
  then have s'db: "seen (ss_writes s') db = db" by simp
  let ?usage = "\<lambda>(shouldDelete, tx).
     and_then (wrapf ''update storage usage on delete'' (update_usage p S_DelUpdateUsage (- Size f) (max 0) userID tx)) (\<lambda>tx.
       Inr (\<lparr>res_ObjectKey = ObjectKey f, ShouldDeleteObject = shouldDelete\<rparr>, tx))"
  show "rest (Suc (Suc (Suc (Suc (Suc n))))) s' db S_DelCommit ''commit delete'' Deleted
     (and_then (wrapf ''find canonical for delete'' (find_canon p (SHA256 f) db)) (\<lambda>(canonID, refCount).
       and_then
       (if refCount \<le> 1
        then and_then (wrapf ''hard delete file'' (hard_delete p (file_ID f) db)) (\<lambda>tx. Inr (True, tx))
        else
          and_then (wrapf ''soft delete file'' (soft_delete p (file_ID f) db)) (\<lambda>tx.
          and_then (wrapf ''decrement ref_count'' (update_ref p S_DelDecrRef (- 1) canonID tx)) (\<lambda>tx.
            Inr (False, tx)))) ?usage))"
  proof (rule rest_bind[OF s' s'db, where pos = "\<lambda>(i, n). if n \<le> 1 then HardDel f else SoftDel f i" and ws = "\<lambda>_. []"])
    fix x and s2 :: session
    assume s2: "ss_at s2 = (case x of (i, n) \<Rightarrow> if n \<le> 1 then HardDel f else SoftDel f i)" "ss_pg s2 = p"
      "ss_call s2 = DeleteCall fileID userID" "seen (ss_writes s2) db = seen [] db"
    obtain i m where x: "x = (i, m)" by fastforce
    from s2(4) have s2db: "seen (ss_writes s2) db = db" by simp
    show "rest (Suc (Suc (Suc (Suc n)))) s2 db S_DelCommit ''commit delete'' Deleted
     (case x of (canonID, refCount) \<Rightarrow>
       and_then
       (if refCount \<le> 1
        then and_then (wrapf ''hard delete file'' (hard_delete p (file_ID f) db)) (\<lambda>tx. Inr (True, tx))
        else
          and_then (wrapf ''soft delete file'' (soft_delete p (file_ID f) db)) (\<lambda>tx.
          and_then (wrapf ''decrement ref_count'' (update_ref p S_DelDecrRef (- 1) canonID tx)) (\<lambda>tx.
            Inr (False, tx)))) ?usage)"
      using s2(1) x rest_HardDel[OF _ s2(2,3) s2db, of f "Suc n"] rest_SoftDel[OF _ s2(2,3) s2db, of f i n]
      by (simp add: and_then_assoc)
  qed (simp_all add: case_prod_unfold)
qed simp

lemma solo_Delete:
  fixes db :: database
  assumes "c = DeleteCall fileID userID"
  shows "solo 7 (open_session (p, c)) db =
     (let (r, db') = Delete p fileID userID db
      in (db', finish (map_sum (\<lambda>e. e) Deleted r) (open_session (p, c))))"
proof -
  have "rest (Suc (Suc (Suc (Suc (Suc (Suc (Suc 0))))))) (open_session (p, c)) db S_DelCommit ''commit delete'' Deleted
     (and_then (wrapf ''begin tx'' (exec p S_DelBegin (Inr ()))) (\<lambda>_. delete_tx p fileID userID db))"
    by (rule rest_bind[OF _ _ _ _ _ statement.simps(8)])
       (use assms in \<open>auto simp: open_session_def intro!: rest_delete_tx\<close>)
  then show ?thesis
    using in_tx_commit_of[where fin = "\<lambda>r. finish r (open_session (p, c))" and g = Deleted]
    by (simp add: Delete_def rest_def eval_nat_numeral open_session_def)
qed

text \<open>\<open>CreateDocument\<close>.\<close>

lemma rest_ChargeDoc:
  assumes "ss_at s = ChargeDoc d" and "ss_pg s = p" and "ss_call s = CreateCall userID nm path h sz"
    and "seen (ss_writes s) db = v"
  shows "rest (Suc (Suc n)) s db S_DocCommit ''commit'' Created
    (and_then (wrapf ''update storage usage'' (update_usage p S_DocUpdateUsage sz (\<lambda>n. n) userID v)) (\<lambda>v'. Inr (d, v')))"
proof (rule rest_bind[OF assms _ statement.simps(17)])
  fix x and s' :: session
  assume u: "wrapf ''update storage usage'' (update_usage p S_DocUpdateUsage sz (\<lambda>n. n) userID v) = Inr x"
    and s': "ss_at s' = DocCommit d" and v: "seen (ss_writes s') db = seen (args p userID (\<lambda>u. ChangeUsage u sz)) v"
  from rest_commit(3)[OF s', of n db] u v update_usage_seen(1)
  show "rest (Suc n) s' db S_DocCommit ''commit'' Created (Inr (d, x))" by fastforce
qed simp

lemma rest_create_document_tx:
  assumes "ss_at s = InsertDoc" and "ss_pg s = p" and "ss_call s = CreateCall userID nm path h sz"
    and "seen (ss_writes s) db = db"
  shows "rest (Suc (Suc (Suc n))) s db S_DocCommit ''commit'' Created (create_document_tx p userID nm path h sz db)"
  unfolding create_document_tx_def
proof (rule rest_bind[OF assms, where pos = "\<lambda>(d, _). ChargeDoc d" and ws = "\<lambda>(d, _). [InsertDocument d]"])
  fix x and s' :: session
  assume i: "wrapf ''create document'' (insert_document p userID nm path h sz db) = Inr x"
    and s': "ss_at s' = (case x of (d, _) \<Rightarrow> ChargeDoc d)" "ss_pg s' = p" "ss_call s' = CreateCall userID nm path h sz"
      "seen (ss_writes s') db = seen (case x of (d, _) \<Rightarrow> [InsertDocument d]) db"
  obtain d v where x: "x = (d, v)" by fastforce
  with i have "v = db\<lparr>documents := documents db @ [d]\<rparr>" by (auto dest: insert_document_Inr)
  with s' x show "rest (Suc (Suc n)) s' db S_DocCommit ''commit'' Created (case x of (d, tx) \<Rightarrow>
     and_then (wrapf ''update storage usage'' (update_usage p S_DocUpdateUsage sz (\<lambda>n. n) userID tx)) (\<lambda>tx. Inr (d, tx)))"
    by (simp add: rest_ChargeDoc)
qed (simp_all add: case_prod_unfold)

lemma solo_CreateDocument:
  fixes db :: database
  assumes "c = CreateCall userID nm path h sz"
  shows "solo 7 (open_session (p, c)) db =
     (let (r, db') = CreateDocument p userID nm path h sz db
      in (db', finish (map_sum (\<lambda>e. e) Created r) (open_session (p, c))))"
proof -
  have "rest (Suc (Suc (Suc (Suc (Suc (Suc (Suc 0))))))) (open_session (p, c)) db S_DocCommit ''commit'' Created
     (and_then (wrapf ''begin tx'' (exec p S_DocBegin (Inr ()))) (\<lambda>_. create_document_tx p userID nm path h sz db))"
    by (rule rest_bind[OF _ _ _ _ _ statement.simps(15)])
       (use assms in \<open>auto simp: open_session_def intro!: rest_create_document_tx\<close>)
  then show ?thesis
    using in_tx_commit_of[where fin = "\<lambda>r. finish r (open_session (p, c))" and g = Created]
    by (simp add: CreateDocument_def rest_def eval_nat_numeral open_session_def)
qed

end
