(* ===== verification/TransactionProps.thy ===== *)
theory TransactionProps
  imports TransactionSerial
begin

text \<open>
  Lemmas on concurrent transactions: what a commit leaves of the rows that other sessions
  have locked, what a session knows at every position, and the invariant of the accounts
  under every interleaving.
\<close>

section \<open>Rows that a session has locked\<close>

definition same_rows :: "lock list \<Rightarrow> database \<Rightarrow> database \<Rightarrow> bool" where
  "same_rows ls db db' \<longleftrightarrow>
     (\<forall>u. UserRow u \<in> set ls \<longrightarrow> filter (\<lambda>x. user_ID x = u) (users db') = filter (\<lambda>x. user_ID x = u) (users db)) \<and>
     (\<forall>i. FileRow i \<in> set ls \<longrightarrow> filter (\<lambda>f. file_ID f = i) (files db') = filter (\<lambda>f. file_ID f = i) (files db)) \<and>
     (\<forall>i. DocumentRow i \<in> set ls \<longrightarrow> (i \<in> doc_ID ` set (documents db') \<longleftrightarrow> i \<in> doc_ID ` set (documents db))) \<and>
     user_ID ` set (users db') = user_ID ` set (users db)"

lemma same_rows_refl [simp]: "same_rows ls db db"
  by (simp add: same_rows_def)

lemma same_rows_trans: "same_rows ls a b \<Longrightarrow> same_rows ls b c \<Longrightarrow> same_rows ls a c"
  by (simp add: same_rows_def)

lemma filter_other_key:
  "k \<noteq> k' \<Longrightarrow> (\<And>r. g (h r) = g r) \<Longrightarrow> filter (\<lambda>r. g r = k) (sql_update (\<lambda>r. g r = k') h rs) = filter (\<lambda>r. g r = k) rs"
  "k \<noteq> k' \<Longrightarrow> filter (\<lambda>r. g r = k) (sql_delete (\<lambda>r. g r = k') rs) = filter (\<lambda>r. g r = k) rs"
  by (induction rs) (auto simp: sql_update_def sql_delete_def)

lemma user_ids_write: "user_ID ` set (users (apply_write w db)) = user_ID ` set (users db)"
  by (cases w) simp_all

lemma same_rows_write: "lock_of w \<notin> set ls \<Longrightarrow> same_rows ls db (apply_write w db)"
  unfolding same_rows_def user_ids_write
  by (cases w)
     (auto simp: ref_row_def charge_def refund_def mark_deleted_def intro!: filter_other_key)

lemma same_rows_seen: "\<forall>w \<in> set ws. lock_of w \<notin> set ls \<Longrightarrow> same_rows ls db (seen ws db)"
  by (induction ws arbitrary: db) (auto intro: same_rows_trans same_rows_write)

text \<open>What the holder of the locks relies on: its rows are there as they were, the keys that it
  will insert are still free, and no user is gone.\<close>

definition keeps_rows :: "lock list \<Rightarrow> database \<Rightarrow> database \<Rightarrow> bool" where
  "keeps_rows ls db db' \<longleftrightarrow>
     (\<forall>x \<in> set (users db). UserRow (user_ID x) \<in> set ls \<longrightarrow> x \<in> set (users db')) \<and>
     (\<forall>f. FileRow (file_ID f) \<in> set ls \<longrightarrow> (f \<in> set (files db') \<longleftrightarrow> f \<in> set (files db)) \<and>
        (file_ID f \<in> file_ID ` set (files db') \<longleftrightarrow> file_ID f \<in> file_ID ` set (files db))) \<and>
     (\<forall>i. DocumentRow i \<in> set ls \<longrightarrow> i \<notin> doc_ID ` set (documents db) \<longrightarrow> i \<notin> doc_ID ` set (documents db')) \<and>
     user_ID ` set (users db) \<subseteq> user_ID ` set (users db')"

lemma same_keeps_rows:
  assumes "same_rows ls db db'"
  shows "keeps_rows ls db db'"
proof -
  have "x \<in> set (users db')" if "UserRow (user_ID x) \<in> set ls" "x \<in> set (users db)" for x
  proof -
    have "x \<in> set (filter (\<lambda>y. user_ID y = user_ID x) (users db'))"
      using assms that by (simp add: same_rows_def)
    then show ?thesis by simp
  qed
  moreover have "f \<in> set (files db') \<longleftrightarrow> f \<in> set (files db)"
      "file_ID f \<in> file_ID ` set (files db') \<longleftrightarrow> file_ID f \<in> file_ID ` set (files db)"
    if "FileRow (file_ID f) \<in> set ls" for f
  proof -
    have eq: "filter (\<lambda>g. file_ID g = file_ID f) (files db') = filter (\<lambda>g. file_ID g = file_ID f) (files db)"
      using assms that by (simp add: same_rows_def)
    from arg_cong[OF eq, of "\<lambda>xs. f \<in> set xs"] show "f \<in> set (files db') \<longleftrightarrow> f \<in> set (files db)" by simp
    have id: "file_ID f \<in> file_ID ` set fs \<longleftrightarrow> filter (\<lambda>g. file_ID g = file_ID f) fs \<noteq> []" for fs
      by (auto simp: filter_empty_conv image_iff) metis
    show "file_ID f \<in> file_ID ` set (files db') \<longleftrightarrow> file_ID f \<in> file_ID ` set (files db)"
      unfolding id eq ..
  qed
  ultimately show ?thesis using assms by (simp add: keeps_rows_def same_rows_def)
qed

section \<open>What a session knows\<close>

text \<open>The quota test, and the file to delete: both are protected by a lock.\<close>

definition has_room :: "pg \<Rightarrow> string \<Rightarrow> int \<Rightarrow> lock list \<Rightarrow> database \<Rightarrow> bool" where
  "has_room p userID sz ls db \<longleftrightarrow>
     (\<exists>x \<in> set (users db). uuid_in p userID = Some (user_ID x) \<and> UserRow (user_ID x) \<in> set ls \<and>
        int64 (StorageBytesUsed x + sz) \<le> StorageQuotaBytes x)"

definition holds_file :: "pg \<Rightarrow> string \<Rightarrow> file_meta \<Rightarrow> lock list \<Rightarrow> database \<Rightarrow> bool" where
  "holds_file p userID f ls db \<longleftrightarrow>
     uuid_in p userID = Some (file_UserID f) \<and> f \<in> set (files db) \<and> active f \<and> FileRow (file_ID f) \<in> set ls"

definition holds_new :: "pg \<Rightarrow> string \<Rightarrow> int \<Rightarrow> file_meta \<Rightarrow> lock list \<Rightarrow> database \<Rightarrow> bool" where
  "holds_new p userID sz f ls db \<longleftrightarrow>
     uuid_in p userID = Some (file_UserID f) \<and> Size f = sz \<and> active f \<and>
     file_ID f \<notin> file_ID ` set (files db) \<and> FileRow (file_ID f) \<in> set ls"

definition bumps :: "int \<Rightarrow> change list \<Rightarrow> bool" where
  "bumps d ws \<longleftrightarrow> ws = [] \<or> (\<exists>i. ws = [AddRef i d])"

fun removes :: "file_meta \<Rightarrow> change list \<Rightarrow> bool" where
  "removes f (HardDelete i # ws) \<longleftrightarrow> i = file_ID f \<and> ws = []"
| "removes f (SoftDelete i t # ws) \<longleftrightarrow> i = file_ID f \<and> bumps (- 1) ws"
| "removes f _ \<longleftrightarrow> False"

definition holds_document :: "pg \<Rightarrow> string \<Rightarrow> int \<Rightarrow> document \<Rightarrow> lock list \<Rightarrow> database \<Rightarrow> bool" where
  "holds_document p userID sz d ls db \<longleftrightarrow>
     uuid_in p userID = Some (doc_UserID d) \<and> doc_SizeBytes d = sz \<and> doc_UserID d \<in> user_ID ` set (users db) \<and>
     doc_ID d \<notin> doc_ID ` set (documents db) \<and> DocumentRow (doc_ID d) \<in> set ls \<and> lifecycle d"

text \<open>What holds at each position, of the transaction's writes, its locks and the committed
  database.\<close>

fun knows :: "pg \<Rightarrow> call \<Rightarrow> position \<Rightarrow> change list \<Rightarrow> lock list \<Rightarrow> database \<Rightarrow> bool" where
  "knows p c (Ended r) ws ls db \<longleftrightarrow> ws = []"
| "knows p c Begin ws ls db \<longleftrightarrow> ws = []"
| "knows p (SaveCall userID k h ct nm sz) LockUser ws ls db \<longleftrightarrow> ws = []"
| "knows p (SaveCall userID k h ct nm sz) FindCanonical ws ls db \<longleftrightarrow> ws = [] \<and> has_room p userID sz ls db"
| "knows p (SaveCall userID k h ct nm sz) (IncrRef canon) ws ls db \<longleftrightarrow> ws = [] \<and> has_room p userID sz ls db"
| "knows p (SaveCall userID k h ct nm sz) InsertNew ws ls db \<longleftrightarrow> ws = [] \<and> has_room p userID sz ls db"
| "knows p (SaveCall userID k h ct nm sz) (InsertDup canon) ws ls db \<longleftrightarrow> bumps 1 ws \<and> has_room p userID sz ls db"
| "knows p (SaveCall userID k h ct nm sz) (UpdateUsage r) ws ls db \<longleftrightarrow>
     (\<exists>ws'. ws = ws' @ [InsertRow (File r)] \<and> bumps 1 ws') \<and>
     has_room p userID sz ls db \<and> holds_new p userID sz (File r) ls db"
| "knows p (SaveCall userID k h ct nm sz) (SaveCommit r) ws ls db \<longleftrightarrow>
     (\<exists>ws'. ws = ws' @ [InsertRow (File r), ChangeUsage (file_UserID (File r)) sz] \<and> bumps 1 ws') \<and>
     has_room p userID sz ls db \<and> holds_new p userID sz (File r) ls db \<and>
     (\<exists>x \<in> set (users db). user_ID x = file_UserID (File r) \<and> UserRow (user_ID x) \<in> set ls \<and>
        StorageBytesUsed x + sz \<le> StorageQuotaBytes x)"
| "knows p (DeleteCall fileID userID) Fetch ws ls db \<longleftrightarrow> ws = []"
| "knows p (DeleteCall fileID userID) (FindCanon f) ws ls db \<longleftrightarrow> ws = [] \<and> holds_file p userID f ls db"
| "knows p (DeleteCall fileID userID) (HardDel f) ws ls db \<longleftrightarrow> ws = [] \<and> holds_file p userID f ls db"
| "knows p (DeleteCall fileID userID) (SoftDel f i) ws ls db \<longleftrightarrow> ws = [] \<and> holds_file p userID f ls db"
| "knows p (DeleteCall fileID userID) (DecrRef f i) ws ls db \<longleftrightarrow>
     (\<exists>t. ws = [SoftDelete (file_ID f) t]) \<and> holds_file p userID f ls db"
| "knows p (DeleteCall fileID userID) (Reclaim f b) ws ls db \<longleftrightarrow> removes f ws \<and> holds_file p userID f ls db"
| "knows p (DeleteCall fileID userID) (DelCommit r) ws ls db \<longleftrightarrow>
     (\<exists>f ws'. ws = ws' @ [ReclaimUsage (file_UserID f) (Size f)] \<and> removes f ws' \<and> holds_file p userID f ls db)"
| "knows p (CreateCall userID nm path h sz) InsertDoc ws ls db \<longleftrightarrow> ws = []"
| "knows p (CreateCall userID nm path h sz) (ChargeDoc d) ws ls db \<longleftrightarrow>
     ws = [InsertDocument d] \<and> holds_document p userID sz d ls db"
| "knows p (CreateCall userID nm path h sz) (DocCommit d) ws ls db \<longleftrightarrow>
     ws = [InsertDocument d, ChangeUsage (doc_UserID d) sz] \<and> holds_document p userID sz d ls db"
| "knows p c a ws ls db \<longleftrightarrow> False"

lemma has_room_mono: "has_room p userID sz ls db \<Longrightarrow> set ls \<subseteq> set ls' \<Longrightarrow> has_room p userID sz ls' db"
  by (auto simp: has_room_def)

lemma holds_file_mono: "holds_file p userID f ls db \<Longrightarrow> set ls \<subseteq> set ls' \<Longrightarrow> holds_file p userID f ls' db"
  by (auto simp: holds_file_def)

lemma holds_new_mono: "holds_new p userID sz f ls db \<Longrightarrow> set ls \<subseteq> set ls' \<Longrightarrow> holds_new p userID sz f ls' db"
  by (auto simp: holds_new_def)

lemma holds_document_mono: "holds_document p userID sz d ls db \<Longrightarrow> set ls \<subseteq> set ls' \<Longrightarrow> holds_document p userID sz d ls' db"
  by (auto simp: holds_document_def)

lemmas holds_mono = has_room_mono holds_file_mono holds_new_mono

lemma knows_same:
  assumes "keeps_rows ls db db'" and "knows p c a ws ls db"
  shows "knows p c a ws ls db'"
proof -
  have user: "x \<in> set (users db) \<Longrightarrow> UserRow (user_ID x) \<in> set ls \<Longrightarrow> x \<in> set (users db')" for x
    using assms(1) by (simp add: keeps_rows_def)
  then have "has_room p userID sz ls db \<Longrightarrow> has_room p userID sz ls db'" for userID sz
    by (auto simp: has_room_def)
  moreover have "holds_file p userID f ls db \<Longrightarrow> holds_file p userID f ls db'"
      "holds_new p userID sz f ls db \<Longrightarrow> holds_new p userID sz f ls db'"
      "holds_document p userID sz d ls db \<Longrightarrow> holds_document p userID sz d ls db'" for userID sz f d
    using assms(1) by (auto simp: holds_file_def holds_new_def holds_document_def keeps_rows_def)
  ultimately show ?thesis
    using assms(2) user by (cases "(p, c, a, ws, ls, db)" rule: knows.cases) (auto 0 3)
qed

section \<open>Every statement keeps what is known\<close>

lemma users_writes:
  "bumps d ws \<Longrightarrow> users (seen ws db) = users db"
  "users (seen (ws @ [InsertRow f]) db) = users (seen ws db)"
  "removes f' ws' \<Longrightarrow> users (seen ws' db) = users db"
  by (auto simp: bumps_def elim!: removes.elims)

lemma ids_bumps: "bumps d ws \<Longrightarrow> file_ID ` set (files (seen ws db)) = file_ID ` set (files db)"
  unfolding bumps_def by (elim disjE exE) simp_all

lemma user_row_in:
  "uuid_in p userID = Some (user_ID x) \<Longrightarrow> x \<in> set (users v) \<Longrightarrow> UserRow (user_ID x) \<in> set (user_row p userID v)"
  by (simp add: user_row_def)

lemma lock_user_room:
  assumes "lock_user p userID v = Inr (b, q)" and "\<not> q < int64 (b + sz)"
  shows "has_room p userID sz (ls @ user_row p userID v) v"
proof -
  from assms obtain x where x: "uuid_in p userID = Some (user_ID x)" "x \<in> set (users v)"
      "int64 (StorageBytesUsed x + sz) \<le> StorageQuotaBytes x"
    by (fastforce simp: lock_user_Inr dest!: filter_hdD)
  with user_row_in[OF x(1,2)] show ?thesis by (auto simp: has_room_def)
qed

lemma insert_holds:
  assumes "insert_file p st userID k h sz ct nm (seen ws db) = Inr (f, v)" and "bumps 1 ws"
  shows "holds_new p userID sz f (ls @ filter (\<lambda>k. \<not> present (seen ws db) k) [FileRow (gen_uuid p)]) db"
    and "FileRow (file_ID f) \<in> set (ls @ filter (\<lambda>k. \<not> present (seen ws db) k) [FileRow (gen_uuid p)])"
  using insert_file_Inr[OF assms(1)] ids_bumps[OF assms(2), of db]
  by (auto simp: holds_new_def new_row_def active_def)

lemma usage_room:
  assumes "update_usage p st sz (\<lambda>n. n) userID v = Inr v'" and "users v = users db"
    and "has_room p userID sz ls db" and "uuid_in p userID = Some u"
  shows "\<exists>x \<in> set (users db). user_ID x = u \<and> UserRow (user_ID x) \<in> set ls \<and>
    StorageBytesUsed x + sz \<le> StorageQuotaBytes x"
proof -
  from assms(3,4) obtain x where x: "x \<in> set (users db)" "user_ID x = u" "UserRow (user_ID x) \<in> set ls"
      "int64 (StorageBytesUsed x + sz) \<le> StorageQuotaBytes x"
    by (auto simp: has_room_def)
  moreover have "int8_ok (StorageBytesUsed x + sz)"
    using assms(1,2,4) x(1,2) by (auto simp: update_usage_Inr)
  ultimately show ?thesis by (intro bexI[of _ x]) simp_all
qed

lemma fetch_holds:
  assumes "fetch_file p fileID userID v = Inr f"
  shows "holds_file p userID f (ls @ wanted p (DeleteCall fileID userID) Fetch v) v"
proof -
  have "fetch_file (p\<lparr>fault := (\<lambda>_. False)\<rparr>) fileID userID v = Inr f"
    using assms by (auto simp: fetch_file_def)
  then show ?thesis using fetch_file_Inr[OF assms] by (simp add: holds_file_def)
qed

lemma knows_save_statement:
  assumes "c = SaveCall userID k h ct nm sz" and "knows p c a ws ls db"
    and "statement p c a (seen ws db) = Inr (a', ws')" and "ls' = ls @ wanted p c a (seen ws db)" and "\<not> commits a"
  shows "knows p c a' (ws @ filter (\<lambda>w. lock_of w \<in> set ls') ws') ls' db"
proof -
  have sub: "set ls \<subseteq> set ls'" using assms(4) by simp
  note mono = holds_mono[OF _ sub]
  show ?thesis
  proof (cases a)
    case LockUser
    with assms show ?thesis by (auto simp: lock_user_room split: if_splits)
  next
    case FindCanonical
    with assms show ?thesis by (auto split: option.splits)
  next
    case (IncrRef canon)
    with assms mono show ?thesis by (auto simp: bumps_def)
  next
    case (InsertDup canon)
    with assms obtain f v where f: "insert_file p S_SaveInsertDup userID (ObjectKey canon) h sz ct nm (seen ws db) = Inr (f, v)"
        "a' = UpdateUsage \<lparr>File = f, Duplicate = True\<rparr>" "ws' = [InsertRow f]"
      by auto
    from InsertDup assms(1,2) have ws: "bumps 1 ws" "has_room p userID sz ls db" by auto
    with f assms(1,4) InsertDup mono insert_holds[OF f(1) ws(1), of ls] show ?thesis by auto
  next
    case InsertNew
    with assms obtain f v where f: "insert_file p S_SaveInsertNew userID k h sz ct nm (seen ws db) = Inr (f, v)"
        "a' = UpdateUsage \<lparr>File = f, Duplicate = False\<rparr>" "ws' = [InsertRow f]"
      by auto
    from InsertNew assms(1,2) have ws: "bumps 1 ws" "has_room p userID sz ls db" by (auto simp: bumps_def)
    with f assms(1,4) InsertNew mono insert_holds[OF f(1) ws(1), of ls] show ?thesis by auto
  next
    case (UpdateUsage r)
    with assms obtain v where v: "update_usage p S_SaveUpdateUsage sz (\<lambda>n. n) userID (seen ws db) = Inr v"
        "a' = SaveCommit r" "ws' = args p userID (\<lambda>u. ChangeUsage u sz)"
      by auto
    from UpdateUsage assms(1,2) obtain ws1 where ws: "ws = ws1 @ [InsertRow (File r)]" "bumps 1 ws1"
        and room: "has_room p userID sz ls db" and new: "holds_new p userID sz (File r) ls db" by auto
    have "users (seen ws db) = users db" using ws by (simp add: users_writes(1) users_writes(2)[simplified])
    moreover have u: "uuid_in p userID = Some (file_UserID (File r))" using new by (simp add: holds_new_def)
    ultimately obtain x where x: "x \<in> set (users db)" "user_ID x = file_UserID (File r)" "UserRow (user_ID x) \<in> set ls"
        "StorageBytesUsed x + sz \<le> StorageQuotaBytes x"
      using usage_room[OF v(1) _ room] by blast
    then have "UserRow (file_UserID (File r)) \<in> set ls'" using sub by auto
    then show ?thesis using assms(1) v ws u x sub mono(1)[OF room] mono(3)[OF new] by (auto simp: args_def)
  qed (use assms in auto)
qed

lemma knows_delete_statement:
  assumes "c = DeleteCall fileID userID" and "knows p c a ws ls db"
    and "statement p c a (seen ws db) = Inr (a', ws')" and "ls' = ls @ wanted p c a (seen ws db)" and "\<not> commits a"
    and "db_constraints db"
  shows "knows p c a' (ws @ filter (\<lambda>w. lock_of w \<in> set ls') ws') ls' db"
proof -
  have sub: "set ls \<subseteq> set ls'" using assms(4) by simp
  note mono = holds_mono[OF _ sub]
  have mine: "lock_of (HardDelete (file_ID f)) \<in> set ls'" "lock_of (SoftDelete (file_ID f) t) \<in> set ls'"
    if "holds_file p userID f ls db" for f t
    using that sub by (auto simp: holds_file_def)
  show ?thesis
  proof (cases a)
    case Fetch
    with assms obtain f where "fetch_file p fileID userID db = Inr f" "a' = FindCanon f" "ws' = []" "ws = []" by auto
    with fetch_holds[of p fileID userID db f ls] assms(1,4) Fetch show ?thesis by simp
  next
    case (FindCanon f)
    with assms mono show ?thesis by (auto split: if_splits)
  next
    case (HardDel f)
    with assms mono mine show ?thesis by auto
  next
    case (SoftDel f i)
    with assms mono mine show ?thesis by auto
  next
    case (DecrRef f i)
    with assms mono show ?thesis by (auto simp: bumps_def)
  next
    case (Reclaim f b)
    with assms have r: "removes f ws" "holds_file p userID f ls db" "ws' = args p userID (\<lambda>u. ReclaimUsage u (Size f))"
        "a' = DelCommit \<lparr>res_ObjectKey = ObjectKey f, ShouldDeleteObject = b\<rparr>"
      by auto
    from r(2) assms(6) have u: "uuid_in p userID = Some (file_UserID f)" "file_UserID f \<in> user_ID ` set (users db)"
      using constraints_fk(1) by (auto simp: holds_file_def)
    with users_writes(3)[OF r(1)] have "UserRow (file_UserID f) \<in> set ls'"
      using assms(1,4) Reclaim by (simp add: user_row_def)
    with r u(1) mono(2)[OF r(2)] assms(1) show ?thesis by (auto simp: args_def)
  qed (use assms in auto)
qed

lemma knows_create_statement:
  assumes "c = CreateCall userID nm path h sz" and "knows p c a ws ls db"
    and "statement p c a (seen ws db) = Inr (a', ws')" and "ls' = ls @ wanted p c a (seen ws db)" and "\<not> commits a"
  shows "knows p c a' (ws @ filter (\<lambda>w. lock_of w \<in> set ls') ws') ls' db"
proof (cases a)
  case InsertDoc
  with assms obtain d v where d: "insert_document p userID nm path h sz db = Inr (d, v)" "a' = ChargeDoc d"
      "ws' = [InsertDocument d]" "ws = []"
    by auto
  from insert_document_Inr[OF d(1)] d assms(1,4) InsertDoc show ?thesis by (auto simp: holds_document_def)
next
  case (ChargeDoc d)
  with assms have d: "ws = [InsertDocument d]" "holds_document p userID sz d ls db"
      "a' = DocCommit d" "ws' = args p userID (\<lambda>u. ChangeUsage u sz)"
    by auto
  then have "UserRow (doc_UserID d) \<in> set ls'"
    using assms(1,4) ChargeDoc by (simp add: holds_document_def user_row_def)
  with d assms(1,4) show ?thesis by (auto simp: args_def holds_document_def)
qed (use assms in auto)

section \<open>The invariant of all sessions\<close>

fun call_ok :: "call \<Rightarrow> bool" where
  "call_ok (SaveCall userID k h ct nm sz) \<longleftrightarrow> 0 \<le> sz"
| "call_ok (DeleteCall fileID userID) \<longleftrightarrow> True"
| "call_ok (CreateCall userID nm path h sz) \<longleftrightarrow> 0 \<le> sz"

text \<open>The users for whom a session creates a document, which checks no quota.\<close>

fun creates_for :: "pg \<Rightarrow> call \<Rightarrow> uuid \<Rightarrow> bool" where
  "creates_for p (CreateCall userID nm path h sz) u \<longleftrightarrow> uuid_in p userID = Some u"
| "creates_for p c u \<longleftrightarrow> False"

definition session_ok :: "uuid set \<Rightarrow> database \<Rightarrow> session \<Rightarrow> bool" where
  "session_ok us db s \<longleftrightarrow>
     knows (ss_pg s) (ss_call s) (ss_at s) (ss_writes s) (ss_locks s) db \<and>
     (\<forall>w \<in> set (ss_writes s). lock_of w \<in> set (ss_locks s)) \<and> call_ok (ss_call s) \<and>
     (\<forall>u. creates_for (ss_pg s) (ss_call s) u \<longrightarrow> u \<in> us)"

text \<open>\<open>ok\<close> is the invariant of the committed database.\<close>

definition txn_ok :: "(uuid set \<Rightarrow> database \<Rightarrow> bool) \<Rightarrow> uuid set \<Rightarrow> txn_state \<Rightarrow> bool" where
  "txn_ok ok us x \<longleftrightarrow> (case x of (db, ss) \<Rightarrow>
     ok us db \<and> (\<forall>s \<in> set ss. session_ok us db s) \<and>
     (\<forall>i < length ss. \<forall>j < length ss. i \<noteq> j \<longrightarrow> set (ss_locks (ss ! i)) \<inter> set (ss_locks (ss ! j)) = {}))"

lemma session_ok_finish: "session_ok us db s \<Longrightarrow> session_ok us db' (finish r s)"
  by (simp add: session_ok_def)

lemma session_ok_same: "session_ok us db s \<Longrightarrow> keeps_rows (ss_locks s) db db' \<Longrightarrow> session_ok us db' s"
  by (auto simp: session_ok_def intro: knows_same)

lemma file_ids_mark_deleted: "file_ID ` set (mark_deleted i t fs) = file_ID ` set fs"
proof -
  have "map file_ID (mark_deleted i t fs) = map file_ID fs" by (rule map_mark_deleted) simp
  then show ?thesis by (metis set_map)
qed

section \<open>Commits\<close>

text \<open>What every committed change has to keep: the interface between the transactions and an
  invariant of the database. The users in \<open>us\<close> are those for whom documents are created.\<close>

locale database_law =
  fixes ok :: "uuid set \<Rightarrow> database \<Rightarrow> bool"
  assumes ok_constraints: "ok us db \<Longrightarrow> db_constraints db"
    and ok_save: "ok us db \<Longrightarrow> x \<in> set (users db) \<Longrightarrow> user_ID x = file_UserID f \<Longrightarrow>
      StorageBytesUsed x + Size f \<le> StorageQuotaBytes x \<Longrightarrow> file_ID f \<notin> file_ID ` set (files db) \<Longrightarrow>
      active f \<Longrightarrow> 0 \<le> Size f \<Longrightarrow> ok us (after_save found f db)"
    and ok_delete: "ok us db \<Longrightarrow> f \<in> set (files db) \<Longrightarrow> active f \<Longrightarrow> ok us (after_delete t f c db)"
    and ok_create: "ok us db \<Longrightarrow> doc_UserID d \<in> us \<Longrightarrow> doc_UserID d \<in> user_ID ` set (users db) \<Longrightarrow>
      doc_ID d \<notin> doc_ID ` set (documents db) \<Longrightarrow> 0 \<le> doc_SizeBytes d \<Longrightarrow> lifecycle d \<Longrightarrow>
      ok us (db\<lparr>users := charge (doc_UserID d) (doc_SizeBytes d) (users db), documents := documents db @ [d]\<rparr>)"
begin

lemma save_commit:
  assumes "knows p (SaveCall userID k h ct nm sz) (SaveCommit r) ws ls db" and "ok us db" and "0 \<le> sz"
  shows "ok us (seen ws db)"
proof -
  let ?f = "File r"
  from assms(1) obtain ws1 x where ws: "ws = ws1 @ [InsertRow ?f, ChangeUsage (file_UserID ?f) sz]" "bumps 1 ws1"
      and new: "holds_new p userID sz ?f ls db"
      and x: "x \<in> set (users db)" "user_ID x = file_UserID ?f" "StorageBytesUsed x + sz \<le> StorageQuotaBytes x"
    by auto
  from new have f: "Size ?f = sz" "active ?f" "file_ID ?f \<notin> file_ID ` set (files db)"
    by (simp_all add: holds_new_def)
  have "\<exists>found. seen ws db = after_save found ?f db"
    using ws(2) unfolding bumps_def
  proof (elim disjE exE)
    assume "ws1 = []"
    with ws(1) f(1) have "seen ws db = after_save None ?f db" by (simp add: after_save_def)
    then show ?thesis ..
  next
    fix i
    assume "ws1 = [AddRef i 1]"
    with ws(1) f(1) have "seen ws db = after_save (Some (?f\<lparr>file_ID := i\<rparr>)) ?f db" by (simp add: after_save_def)
    then show ?thesis ..
  qed
  with ok_save[OF assms(2) x(1,2)] x(3) f assms(3) show ?thesis by auto
qed

lemma delete_commit:
  assumes "knows p (DeleteCall fileID userID) (DelCommit r) ws ls db" and "ok us db"
  shows "ok us (seen ws db)"
proof -
  from assms(1) obtain f ws1 where ws: "ws = ws1 @ [ReclaimUsage (file_UserID f) (Size f)]" "removes f ws1"
      and f: "f \<in> set (files db)" "active f"
    by (auto simp: holds_file_def)
  have "\<exists>t c. seen ws db = after_delete t f c db"
  proof (cases ws1)
    case Nil
    with ws(2) show ?thesis by simp
  next
    case (Cons w ws2)
    show ?thesis
    proof (cases w)
      case (HardDelete i)
      with ws Cons have "seen ws db = after_delete 0 f (f\<lparr>RefCount := 0\<rparr>) db" by (simp add: after_delete_def)
      then show ?thesis by blast
    next
      case (SoftDelete i t)
      with ws Cons have i: "i = file_ID f" and "bumps (- 1) ws2" by simp_all
      obtain j0 where j0: "j0 \<notin> file_ID ` set (files db)"
        using ex_new_if_finite[OF infinite_UNIV_listI, of "file_ID ` set (files db)"] by auto
      have absent: "ref_row j0 (- 1) (mark_deleted (file_ID f) t (files db)) = mark_deleted (file_ID f) t (files db)"
        by (rule ref_row_other) (use j0 in \<open>simp add: file_ids_mark_deleted\<close>)
      from \<open>bumps (- 1) ws2\<close> have "\<exists>j. seen ws db = after_delete t f (f\<lparr>file_ID := j, RefCount := 2\<rparr>) db"
        unfolding bumps_def
      proof (elim disjE exE)
        assume "ws2 = []"
        with ws Cons SoftDelete i absent show ?thesis by (intro exI[of _ j0]) (simp add: after_delete_def)
      next
        fix j
        assume "ws2 = [AddRef j (- 1)]"
        with ws Cons SoftDelete i show ?thesis by (intro exI[of _ j]) (simp add: after_delete_def)
      qed
      then show ?thesis by blast
    qed (use ws Cons in simp_all)
  qed
  with ok_delete[OF assms(2) f] show ?thesis by auto
qed

lemma create_commit:
  assumes "knows p (CreateCall userID nm path h sz) (DocCommit d) ws ls db" and "ok us db" and "0 \<le> sz"
    and "uuid_in p userID = Some (doc_UserID d) \<Longrightarrow> doc_UserID d \<in> us"
  shows "ok us (seen ws db)"
proof -
  from assms(1) have ws: "seen ws db = db\<lparr>users := charge (doc_UserID d) (doc_SizeBytes d) (users db), documents := documents db @ [d]\<rparr>"
      and d: "uuid_in p userID = Some (doc_UserID d)" "doc_SizeBytes d = sz" "doc_UserID d \<in> user_ID ` set (users db)"
        "doc_ID d \<notin> doc_ID ` set (documents db)" "lifecycle d"
    by (auto simp: holds_document_def)
  show ?thesis unfolding ws by (rule ok_create) (use assms d in auto)
qed

lemma knows_statement:
  assumes "knows p c a ws ls db" and "statement p c a (seen ws db) = Inr (a', ws')"
    and "ls' = ls @ wanted p c a (seen ws db)" and "\<not> commits a" and "db_constraints db"
  shows "knows p c a' (ws @ filter (\<lambda>w. lock_of w \<in> set ls') ws') ls' db"
  using assms knows_save_statement knows_delete_statement knows_create_statement by (cases c) metis+

lemma advance_commit:
  assumes "session_ok us db s" and "commits (ss_at s)" and "ok us db" and "advance s db = (db', s')"
  shows "(db' = db \<or> db' = seen (ss_writes s) db \<and> ok us db') \<and> ((\<exists>r. s' = finish r s) \<or> s' = s \<and> db' = db)"
proof (cases "ss_at s")
  case (SaveCommit r)
  with assms(1) obtain userID k h ct nm sz where c: "ss_call s = SaveCall userID k h ct nm sz"
    by (cases "ss_call s") (auto simp: session_ok_def)
  with assms SaveCommit have "ok us (seen (ss_writes s) db)"
    by (intro save_commit[where p = "ss_pg s" and r = r and ls = "ss_locks s"]) (auto simp: session_ok_def)
  with assms(4) SaveCommit show ?thesis by (auto simp: advance_def split: sum.splits)
next
  case (DelCommit r)
  with assms(1) obtain fileID userID where c: "ss_call s = DeleteCall fileID userID"
    by (cases "ss_call s") (auto simp: session_ok_def)
  with assms DelCommit have "ok us (seen (ss_writes s) db)"
    by (intro delete_commit[where p = "ss_pg s" and r = r and ls = "ss_locks s"]) (auto simp: session_ok_def)
  with assms(4) DelCommit show ?thesis by (auto simp: advance_def split: sum.splits)
next
  case (DocCommit d)
  with assms(1) obtain userID nm path h sz where c: "ss_call s = CreateCall userID nm path h sz"
    by (cases "ss_call s") (auto simp: session_ok_def)
  with assms DocCommit have "ok us (seen (ss_writes s) db)"
    by (intro create_commit[where p = "ss_pg s" and d = d and ls = "ss_locks s"]) (auto simp: session_ok_def)
  with assms(4) DocCommit show ?thesis by (auto simp: advance_def split: sum.splits)
next
  case (Ended r)
  with assms(4) show ?thesis by (simp add: advance_def)
qed (use assms(2) in simp_all)

lemma session_advance:
  assumes "session_ok us db s" and "ok us db" and "advance s db = (db', s')"
  shows "ok us db' \<and> session_ok us db' s' \<and> (db' = db \<or> db' = seen (ss_writes s) db) \<and>
    set (ss_locks s') \<subseteq> set (ss_locks s) \<union> set (wants db s)"
proof (cases "commits (ss_at s)")
  case True
  from advance_commit[OF assms(1) True assms(2,3)] assms(1,2) session_ok_finish[OF assms(1)] show ?thesis by auto
next
  case False
  have dc: "db_constraints db" using assms(2) by (rule ok_constraints)
  from advance_statement[OF False refl, of db] show ?thesis
  proof (elim disjE exE conjE)
    fix e
    assume "advance s db = (db, finish (Inl e) s)"
    with assms session_ok_finish[OF assms(1)] show ?thesis by auto
  next
    fix pos ws ls s2
    assume st: "statement (ss_pg s) (ss_call s) (ss_at s) (seen (ss_writes s) db) = Inr (pos, ws)"
      and ls: "ls = ss_locks s @ wants db s"
      and s2: "s2 = s\<lparr>ss_at := pos, ss_writes := ss_writes s @ filter (\<lambda>w. lock_of w \<in> set ls) ws, ss_locks := ls\<rparr>"
      and adv: "advance s db = (db, s2)"
    from assms(3) adv have eq: "db' = db" "s' = s2" by (metis prod.inject)+
    have "knows (ss_pg s) (ss_call s) pos (ss_writes s @ filter (\<lambda>w. lock_of w \<in> set ls) ws) ls db"
      using knows_statement[OF _ st _ False dc, of "ss_locks s" ls] assms(1) ls
      by (simp add: session_ok_def wants_def)
    with assms(1) have "session_ok us db s2" by (auto simp: session_ok_def s2 ls)
    with eq assms(2) show ?thesis by (simp add: s2 ls)
  qed
qed

lemma txn_ok_turn:
  assumes "txn_ok ok us (db, ss)" and i: "i < length ss" and "\<not> blocked db ss i"
  shows "txn_ok ok us (turn i (db, ss))"
proof -
  obtain db' s' where adv: "advance (ss ! i) db = (db', s')" by fastforce
  have ok: "session_ok us db (ss ! k)" if "k < length ss" for k using assms(1) that by (simp add: txn_ok_def)
  have acc: "ok us db" using assms(1) by (simp add: txn_ok_def)
  note adv_ok = session_advance[OF ok[OF i] acc adv]
  have disj: "set (ss_locks (ss ! j)) \<inter> set (ss_locks (ss ! k)) = {}" if "j < length ss" "k < length ss" "j \<noteq> k" for j k
    using assms(1) that by (simp add: txn_ok_def)
  have free: "set (ss_locks s') \<inter> set (ss_locks (ss ! j)) = {}" if "j < length ss" "j \<noteq> i" for j
    using adv_ok disj[OF i that(1)] that assms(3) by (fastforce simp: blocked_iff blocked_by_def)
  have others: "session_ok us db' (ss ! j)" if j: "j < length ss" "j \<noteq> i" for j
  proof -
    have "\<forall>w \<in> set (ss_writes (ss ! i)). lock_of w \<notin> set (ss_locks (ss ! j))"
      using ok[OF i] disj[OF i j(1)] j(2) by (auto simp: session_ok_def)
    then have "same_rows (ss_locks (ss ! j)) db db'"
      using adv_ok same_rows_seen[of "ss_writes (ss ! i)" "ss_locks (ss ! j)" db] by auto
    then have "keeps_rows (ss_locks (ss ! j)) db db'" by (rule same_keeps_rows)
    with ok[OF j(1)] show ?thesis by (rule session_ok_same)
  qed
  have "session_ok us db' s" if "s \<in> set (ss[i := s'])" for s
    using that others adv_ok i by (auto simp: in_set_conv_nth nth_list_update split: if_splits)
  moreover have "set (ss_locks (ss[i := s'] ! j)) \<inter> set (ss_locks (ss[i := s'] ! k)) = {}"
    if "j < length ss" "k < length ss" "j \<noteq> k" for j k
    using that free[of j] free[of k] disj[OF that] i by (auto simp: nth_list_update)
  ultimately show ?thesis using adv_ok by (simp add: txn_ok_def turn_def adv)
qed

lemma txn_ok_victim:
  assumes "txn_ok ok us (db, ss)" and "i < length ss"
  shows "txn_ok ok us (db, ss[i := finish (Inl e) (ss ! i)])"
  using assms session_ok_finish[of us db "ss ! i" db "Inl e"]
  by (auto simp: txn_ok_def nth_list_update dest!: set_update_subset_insert[THEN subsetD] split: if_splits)

lemma txn_ok_step: "txn_step x y \<Longrightarrow> txn_ok ok us x \<Longrightarrow> txn_ok ok us y"
  by (induction rule: txn_step.induct) (simp_all add: txn_ok_turn txn_ok_victim)

lemma txn_ok_steps: "txn_step\<^sup>*\<^sup>* x y \<Longrightarrow> txn_ok ok us x \<Longrightarrow> txn_ok ok us y"
  by (induction rule: rtranclp_induct) (auto intro: txn_ok_step)

lemma txn_ok_start:
  assumes "ok us db" and "\<forall>(p, c) \<in> set calls. call_ok c \<and> (\<forall>u. creates_for p c u \<longrightarrow> u \<in> us)"
  shows "txn_ok ok us (db, map open_session calls)"
  using assms by (auto simp: txn_ok_def session_ok_def open_session_def split: prod.splits)

end

text \<open>The accounts are such an invariant.\<close>

lemma accounts_but_create:
  assumes "accounts_but us db" and "doc_UserID d \<in> us" and d: "doc_UserID d \<in> user_ID ` set (users db)"
    "doc_ID d \<notin> doc_ID ` set (documents db)" "0 \<le> doc_SizeBytes d"
  shows "accounts_but us (db\<lparr>users := charge (doc_UserID d) (doc_SizeBytes d) (users db), documents := documents db @ [d]\<rparr>)"
    (is "accounts_but us ?v")
proof -
  let ?sz = "doc_SizeBytes d"
  from assms(1) have m: "db_constraints db" "sizes_ok db" "usage_exact db"
      "\<forall>x \<in> set (users db). user_ID x \<in> us \<or> StorageBytesUsed x \<le> StorageQuotaBytes x"
    by (simp_all add: accounts_but_def meta_inv_def)
  have "db_constraints ?v" by (rule constraints_add_document[OF m(1) d(1,2)])
  moreover have "sizes_ok ?v" using m(2) d(3) by (auto simp: sizes_ok_def)
  moreover have "usage_exact ?v"
  proof -
    have "StorageBytesUsed y = live_bytes db (user_ID y) + (doc_bytes db (user_ID y) + (if doc_UserID d = user_ID y then ?sz else 0))"
      if "y \<in> set (charge (doc_UserID d) ?sz (users db))" for y
    proof -
      from that obtain x where "x \<in> set (users db)"
        "y = (if user_ID x = doc_UserID d then x\<lparr>StorageBytesUsed := StorageBytesUsed x + ?sz\<rparr> else x)"
        by (auto simp: charge_def in_set_sql_update)
      with m(3) show ?thesis by (auto simp: usage_exact_def)
    qed
    moreover have "live_bytes ?v u = live_bytes db u"
      "doc_bytes ?v u = doc_bytes db u + (if doc_UserID d = u then ?sz else 0)" for u
      by (simp_all add: live_bytes_def doc_bytes_def)
    moreover have "users ?v = charge (doc_UserID d) ?sz (users db)" by simp
    ultimately show ?thesis unfolding usage_exact_def by metis
  qed
  moreover have "\<forall>x \<in> set (users ?v). user_ID x \<in> us \<or> StorageBytesUsed x \<le> StorageQuotaBytes x"
    using m(4) assms(2) by (fastforce simp: charge_def in_set_sql_update)
  ultimately show ?thesis by (simp add: accounts_but_def meta_inv_def)
qed

interpretation accounts: database_law accounts_but
proof unfold_locales
  show "accounts_but us db \<Longrightarrow> db_constraints db" for us db
    by (simp add: accounts_but_def meta_inv_def)
qed (rule accounts_but_after_save accounts_but_after_delete accounts_but_create, assumption+)+

section \<open>Uploads alone make progress\<close>

text \<open>Which rows an upload holds: its user's from the quota test on; the canonical row, which
  is there, from its update on; and the key of its pending row, which is not there yet.\<close>

fun upload_locks :: "position \<Rightarrow> lock list \<Rightarrow> database \<Rightarrow> bool" where
  "upload_locks (InsertDup c) ls db \<longleftrightarrow> (\<forall>i. FileRow i \<in> set ls \<longrightarrow> present db (FileRow i))"
| "upload_locks (UpdateUsage r) ls db \<longleftrightarrow> True"
| "upload_locks (SaveCommit r) ls db \<longleftrightarrow> True"
| "upload_locks Begin ls db \<longleftrightarrow> ls = []"
| "upload_locks LockUser ls db \<longleftrightarrow> ls = []"
| "upload_locks (Ended r) ls db \<longleftrightarrow> ls = []"
| "upload_locks _ ls db \<longleftrightarrow> (\<forall>i. FileRow i \<notin> set ls)"

definition upload_ok :: "database \<Rightarrow> session \<Rightarrow> bool" where
  "upload_ok db s \<longleftrightarrow> (\<exists>userID k h ct nm sz. ss_call s = SaveCall userID k h ct nm sz) \<and>
     upload_locks (ss_at s) (ss_locks s) db"

lemma upload_no_hard:
  "knows p (SaveCall userID k h ct nm sz) a ws ls db \<Longrightarrow> HardDelete i \<notin> set ws"
  by (cases a) (auto simp: bumps_def)

lemma ids_grow:
  "(\<forall>i. HardDelete i \<notin> set ws) \<Longrightarrow> file_ID ` set (files db) \<subseteq> file_ID ` set (files (seen ws db))"
proof (induction ws arbitrary: db)
  case (Cons w ws)
  then have "file_ID ` set (files db) \<subseteq> file_ID ` set (files (apply_write w db))"
    by (cases w) (auto simp: file_ids_mark_deleted simp flip: image_iff)
  with Cons show ?case by fastforce
qed simp

lemma upload_commit_ids:
  assumes "session_ok us db s" and "accounts_but us db" and "upload_ok db s" and "advance s db = (db', s')"
  shows "file_ID ` set (files db) \<subseteq> file_ID ` set (files db')"
proof -
  have "HardDelete i \<notin> set (ss_writes s)" for i
    using assms(1,3) upload_no_hard by (fastforce simp: session_ok_def upload_ok_def)
  with ids_grow have "file_ID ` set (files db) \<subseteq> file_ID ` set (files (seen (ss_writes s) db))" by blast
  with accounts.session_advance[OF assms(1,2,4)] show ?thesis by auto
qed

lemma upload_locks_mono:
  "upload_locks a ls db \<Longrightarrow> file_ID ` set (files db) \<subseteq> file_ID ` set (files db') \<Longrightarrow> upload_locks a ls db'"
  by (cases a) auto

lemma user_row_no_file [simp]: "FileRow i \<notin> set (user_row p userID v)"
  by (simp add: user_row_def split: option.splits)

lemma upload_advance:
  assumes "session_ok us db s" and "accounts_but us db" and "upload_ok db s" and "advance s db = (db', s')"
  shows "upload_ok db' s'"
proof (cases "commits (ss_at s)")
  case True
  from accounts.advance_commit[OF assms(1) True assms(2,4)] assms(3) show ?thesis
    by (auto simp: upload_ok_def)
next
  case False
  from assms(3) obtain userID k h ct nm sz where c: "ss_call s = SaveCall userID k h ct nm sz"
    by (auto simp: upload_ok_def)
  from advance_statement[OF False refl, of db] show ?thesis
  proof (elim disjE exE conjE)
    fix e
    assume "advance s db = (db, finish (Inl e) s)"
    with assms(3,4) show ?thesis by (auto simp: upload_ok_def)
  next
    fix pos ws ls s2
    assume st: "statement (ss_pg s) (ss_call s) (ss_at s) (seen (ss_writes s) db) = Inr (pos, ws)"
      and ls: "ls = ss_locks s @ wants db s"
      and s2: "s2 = s\<lparr>ss_at := pos, ss_writes := ss_writes s @ filter (\<lambda>w. lock_of w \<in> set ls) ws, ss_locks := ls\<rparr>"
      and adv: "advance s db = (db, s2)"
    from assms(4) adv have eq: "db' = db" "s' = s2" by (metis prod.inject)+
    have "upload_locks pos ls db"
      using st False assms(1,3) c
      by (cases "ss_at s") (auto simp: ls wants_def upload_ok_def session_ok_def split: if_splits option.splits)
    with c eq show ?thesis by (simp add: upload_ok_def s2)
  qed
qed

definition uploads_ok :: "txn_state \<Rightarrow> bool" where
  "uploads_ok x \<longleftrightarrow> txn_ok accounts_but {} x \<and> (\<forall>s \<in> set (snd x). upload_ok (fst x) s)"

lemma uploads_ok_step: "txn_step x y \<Longrightarrow> uploads_ok x \<Longrightarrow> uploads_ok y"
proof (induction rule: txn_step.induct)
  case (turn i ss db)
  obtain db' s' where adv: "advance (ss ! i) db = (db', s')" by fastforce
  from turn have acc: "accounts_but {} db" and ok: "session_ok {} db (ss ! i)" and up: "upload_ok db (ss ! i)"
    by (simp_all add: uploads_ok_def txn_ok_def)
  note grow = upload_locks_mono[OF _ upload_commit_ids[OF ok acc up adv]]
  have "upload_ok db' s" if "s \<in> set (ss[i := s'])" for s
    using set_update_subset_insert[THEN subsetD, OF that] upload_advance[OF ok acc up adv] turn(3) grow
    by (auto simp: upload_ok_def uploads_ok_def)
  moreover have "txn_ok accounts_but {} (turn i (db, ss))" using turn accounts.txn_ok_turn by (simp add: uploads_ok_def)
  ultimately show ?case by (simp add: uploads_ok_def turn_def adv)
next
  case (victim i ss db e)
  then have "upload_ok db (finish (Inl e) (ss ! i))" by (simp add: uploads_ok_def upload_ok_def)
  with victim accounts.txn_ok_victim show ?case
    by (auto simp: uploads_ok_def dest!: set_update_subset_insert[THEN subsetD])
qed

lemma uploads_ok_steps: "txn_step\<^sup>*\<^sup>* x y \<Longrightarrow> uploads_ok x \<Longrightarrow> uploads_ok y"
  by (induction rule: rtranclp_induct) (auto intro: uploads_ok_step)

text \<open>How far an upload is on the way of its locks: only sessions further on can block it.\<close>

fun lock_rank :: "position \<Rightarrow> nat" where
  "lock_rank LockUser = 1"
| "lock_rank (IncrRef c) = 2"
| "lock_rank (InsertDup c) = 3"
| "lock_rank InsertNew = 3"
| "lock_rank _ = 4"

lemma upload_waits:
  assumes "session_ok {} db s" and "upload_ok db s" and "session_ok {} db t" and "upload_ok db t"
    and "set (ss_locks s) \<inter> set (ss_locks t) = {}" and "l \<in> set (wants db s)" and "l \<in> set (ss_locks t)"
  shows "lock_rank (ss_at s) < lock_rank (ss_at t) \<and> \<not> ended t"
proof -
  obtain userID k h ct nm sz where c: "ss_call s = SaveCall userID k h ct nm sz" using assms(2) by (auto simp: upload_ok_def)
  have t: "upload_locks (ss_at t) (ss_locks t) db" using assms(4) by (simp add: upload_ok_def)
  have known: "knows (ss_pg s) (SaveCall userID k h ct nm sz) (ss_at s) (ss_writes s) (ss_locks s) db"
    using assms(1) c by (simp add: session_ok_def)
  show ?thesis
  proof (cases "ss_at s")
    case LockUser
    with t assms(7) show ?thesis by (cases "ss_at t") (auto simp: ended_def)
  next
    case (IncrRef canon)
    with known assms(6) c have "l = FileRow (file_ID canon)" by (auto simp: wants_def split: if_splits)
    with t assms(7) IncrRef show ?thesis by (cases "ss_at t") (auto simp: ended_def)
  next
    case (InsertDup canon)
    with known assms(6) c have "l = FileRow (gen_uuid (ss_pg s))" "\<not> present db l"
      by (auto simp: wants_def ids_bumps split: if_splits)
    with t assms(7) InsertDup show ?thesis by (cases "ss_at t") (auto simp: ended_def)
  next
    case InsertNew
    with known assms(6) c have "l = FileRow (gen_uuid (ss_pg s))" "\<not> present db l"
      by (auto simp: wants_def split: if_splits)
    with t assms(7) InsertNew show ?thesis by (cases "ss_at t") (auto simp: ended_def)
  next
    case (UpdateUsage r)
    with known assms(6) c have "l \<in> set (ss_locks s)"
      by (auto simp: wants_def user_row_def has_room_def split: option.splits if_splits)
    with assms(5,7) show ?thesis by blast
  qed (use assms(6) c known in \<open>auto simp: wants_def\<close>)
qed

lemma uploads_progress:
  assumes "uploads_ok (db, ss)" and "i < length ss" and "\<not> ended (ss ! i)"
  shows "\<exists>j < length ss. \<not> ended (ss ! j) \<and> \<not> blocked db ss j"
  using assms(2,3)
proof (induction "4 - lock_rank (ss_at (ss ! i))" arbitrary: i rule: less_induct)
  case less
  show ?case
  proof (cases "blocked db ss i")
    case False
    with less show ?thesis by blast
  next
    case True
    then obtain j l where j: "j < length ss" "i \<noteq> j" and l: "l \<in> set (wants db (ss ! i))" "l \<in> set (ss_locks (ss ! j))"
      by (auto simp: blocked_iff blocked_by_def)
    with assms(1) less(2) have "lock_rank (ss_at (ss ! i)) < lock_rank (ss_at (ss ! j)) \<and> \<not> ended (ss ! j)"
      by (intro upload_waits[OF _ _ _ _ _ l]) (auto simp: uploads_ok_def txn_ok_def)
    moreover have "lock_rank a \<le> 4" for a by (cases a) auto
    then have "lock_rank (ss_at (ss ! j)) \<le> 4" .
    ultimately have "4 - lock_rank (ss_at (ss ! j)) < 4 - lock_rank (ss_at (ss ! i))" by linarith
    with less(1) j(1) \<open>_ \<and> \<not> ended (ss ! j)\<close> show ?thesis by blast
  qed
qed

end
