(* ===== verification/TransactionRaces.thy ===== *)
theory TransactionRaces
  imports TransactionProps
begin

text \<open>
  Interleavings of one deletion and one upload, run symbolically: the states after each
  part of the schedules in which the row locks do not protect the content's object, or
  make the two sessions wait for each other.
\<close>

lemma run_turns_steps: "txn_step\<^sup>*\<^sup>* x (run_turns is x)"
proof (induction "is" arbitrary: x)
  case (Cons i "is")
  obtain db ss where x: "x = (db, ss)" by fastforce
  show ?case
  proof (cases "i < length ss \<and> \<not> blocked db ss i")
    case True
    then have "txn_step x (turn i x)" unfolding x by (intro txn_step.turn) simp_all
    with Cons[of "turn i x"] True show ?thesis by (simp add: x converse_rtranclp_into_rtranclp)
  next
    case False
    with Cons[of x] show ?thesis by (auto simp: x)
  qed
qed simp

text \<open>Two sessions.\<close>

lemma blocked_two:
  "blocked db [a, b] 0 \<longleftrightarrow> (\<exists>k \<in> set (wants db a). k \<in> set (ss_locks b))"
  "blocked db [a, b] 1 \<longleftrightarrow> (\<exists>k \<in> set (wants db b). k \<in> set (ss_locks a))"
  by (auto simp: blocked_def blocked_by_def)

text \<open>A server on which no statement fails.\<close>

definition no_faults :: "pg \<Rightarrow> bool" where
  "no_faults p \<longleftrightarrow> fault p = (\<lambda>_. False)"

lemma no_faults_exec [simp]: "no_faults p \<Longrightarrow> exec p s r = r"
  by (simp add: no_faults_def exec_def)

lemma no_faults_cleared: "no_faults p \<Longrightarrow> p\<lparr>fault := (\<lambda>_. False)\<rparr> = p"
  by (cases p) (simp add: no_faults_def)

lemma fetch_file_found:
  assumes "no_faults p" and "uuid_in p fileID = Some (file_ID f)" and "uuid_in p userID = Some (file_UserID f)"
    and "distinct (map file_ID (files db))" and "f \<in> set (files db)" and "active f"
  shows "fetch_file p fileID userID db = Inr f"
proof -
  have "filter (\<lambda>x. file_ID x = file_ID f \<and> file_UserID x = file_UserID f \<and> active x) (files db) =
      filter (\<lambda>x. file_UserID x = file_UserID f \<and> active x) (filter (\<lambda>x. file_ID x = file_ID f) (files db))"
    by (simp add: conj_comms)
  also have "\<dots> = [f]" using filter_key_single[OF assms(4,5)] assms(6) by simp
  finally show ?thesis using assms(1-3) by (simp add: fetch_file_def uuid_arg_def)
qed

lemma lock_user_found:
  assumes "no_faults p" and "uuid_in p userID = Some (user_ID x)" and "distinct (map user_ID (users db))" and "x \<in> set (users db)"
  shows "lock_user p userID db = Inr (StorageBytesUsed x, StorageQuotaBytes x)"
  using assms filter_key_single[OF assms(3,4)] by (simp add: lock_user_def uuid_arg_def)

lemma find_found:
  assumes "no_faults p" and "live db h = [f]"
  shows "find_canonical p h db = Inr (Some f)" and "find_canon p h db = Inr (file_ID f, RefCount f)"
  using assms by (simp_all add: find_canonical_def find_canon_def query_limit1_def)

text \<open>The schedule: the deletion reads, the upload reads, the deletion commits, the upload
  writes.\<close>

definition late_schedule :: "nat list" where
  "late_schedule = [0, 0, 0, 1, 1, 1] @ [0, 0, 0] @ [1, 1, 1, 1]"

lemma run_turns_append: "run_turns (is @ js) x = run_turns js (run_turns is x)"
  by (induction "is" arbitrary: x) simp_all

text \<open>The deletion and the upload have both found the last row of the content.\<close>

lemma both_found:
  assumes "no_faults p" "no_faults q" and c: "db_constraints db"
    and f: "f \<in> set (files db)" "active f" "live db (SHA256 f) = [f]" "RefCount f \<le> 1"
    and p: "uuid_in p fileID = Some (file_ID f)" "uuid_in p owner = Some (file_UserID f)"
    and x: "x \<in> set (users db)" "uuid_in q userID = Some (user_ID x)"
    and room: "int64 (StorageBytesUsed x + sz) \<le> StorageQuotaBytes x"
  shows "run_turns [0, 0, 0, 1, 1, 1]
     (db, map open_session [(p, DeleteCall fileID owner), (q, SaveCall userID key (SHA256 f) ct nm sz)]) =
     (db, [\<lparr>ss_pg = p, ss_call = DeleteCall fileID owner, ss_at = HardDel f, ss_writes = [], ss_locks = [FileRow (file_ID f)]\<rparr>,
           \<lparr>ss_pg = q, ss_call = SaveCall userID key (SHA256 f) ct nm sz, ss_at = IncrRef f, ss_writes = [],
             ss_locks = [UserRow (user_ID x)]\<rparr>])"
proof -
  note rules = fetch_file_found[OF assms(1) p constraints_file_ids[OF c] f(1,2)]
    lock_user_found[OF assms(2) x(2) constraints_user_ids[OF c] x(1)]
    find_found[OF assms(1) f(3)] find_found[OF assms(2) f(3)] 
  show ?thesis
    using assms(1,2) room f(4) x(1,2)
    by (simp add: turn_def advance_def blocked_two[unfolded One_nat_def] wants_def open_session_def rules no_faults_cleared user_row_def no_rows_not_found_def)
qed

lemma update_usage_works:
  assumes "no_faults p" and "uuid_in p userID = Some u"
    and "\<And>x. x \<in> set (users v) \<Longrightarrow> user_ID x = u \<Longrightarrow> int8_ok (StorageBytesUsed x + d)"
  shows "\<exists>v'. update_usage p st d clip userID v = Inr v'"
  using assms by (auto simp: update_usage_Inr no_faults_def)

text \<open>The deletion goes on and commits.\<close>

lemma deletion_commits:
  assumes "no_faults p" and acc: "accounts_ok db"
    and f: "f \<in> set (files db)" "active f"
    and p: "uuid_in p fileID = Some (file_ID f)" "uuid_in p owner = Some (file_UserID f)"
    and big: "\<forall>y \<in> set (users db). int8_ok (StorageBytesUsed y)"
    and other: "u \<noteq> file_UserID f"
  shows "run_turns [0, 0, 0]
     (db, [\<lparr>ss_pg = p, ss_call = DeleteCall fileID owner, ss_at = HardDel f, ss_writes = [], ss_locks = [FileRow (file_ID f)]\<rparr>,
           \<lparr>ss_pg = q, ss_call = c, ss_at = IncrRef f, ss_writes = [], ss_locks = [UserRow u]\<rparr>]) =
     (seen [HardDelete (file_ID f), ReclaimUsage (file_UserID f) (Size f)] db,
      [finish (Inr (Deleted \<lparr>res_ObjectKey = ObjectKey f, ShouldDeleteObject = True\<rparr>)) (open_session (p, DeleteCall fileID owner)),
       \<lparr>ss_pg = q, ss_call = c, ss_at = IncrRef f, ss_writes = [], ss_locks = [UserRow u]\<rparr>])"
proof -
  let ?v = "db\<lparr>files := sql_delete (\<lambda>x. file_ID x = file_ID f) (files db)\<rparr>"
  have m: "db_constraints db" "sizes_ok db" "usage_exact db" using acc by (simp_all add: accounts_ok_def meta_inv_def)
  have small: "int8_ok (StorageBytesUsed y + - Size f)" if "y \<in> set (users ?v)" "user_ID y = file_UserID f" for y
    using live_bytes_ge_size[OF m(2) f] doc_bytes_nonneg[OF m(2), of "user_ID y"] m(2,3) big that f(1)
    by (force simp: usage_exact_def int8_ok_def sizes_ok_def)
  obtain v' where u: "update_usage p S_DelUpdateUsage (- Size f) (max 0) owner ?v = Inr v'"
    using update_usage_works[OF assms(1) p(2) small] by blast
  have "file_UserID f \<in> user_ID ` set (users db)" "file_ID f \<in> file_ID ` set (files db)"
    using constraints_fk(1)[OF m(1) f(1)] f(1) by auto
  with assms(1) p(2) other u show ?thesis
    by (simp add: turn_def advance_def blocked_two[unfolded One_nat_def] wants_def open_session_def finish_def
        user_row_def hard_delete_def args_def)
qed

text \<open>The upload goes on: its update finds no row, its insert names the object.\<close>

lemma upload_commits:
  assumes "no_faults q" and x: "x \<in> set (users db)" "uuid_in q userID = Some (user_ID x)" "int8_ok (StorageBytesUsed x + sz)"
    and c: "distinct (map user_ID (users db))"
    and gone: "file_ID f \<notin> file_ID ` set (files db)" and fresh: "gen_uuid q \<notin> file_ID ` set (files db)"
    and fin: "ended fin" "ss_locks fin = []"
    and g: "g = new_row q (user_ID x) (ObjectKey f) h ct nm sz"
  shows "run_turns [1, 1, 1, 1]
     (db, [fin, \<lparr>ss_pg = q, ss_call = SaveCall userID key h ct nm sz, ss_at = IncrRef f, ss_writes = [],
             ss_locks = [UserRow (user_ID x)]\<rparr>]) =
     (seen [InsertRow g, ChangeUsage (user_ID x) sz] db,
      [fin, finish (Inr (Saved \<lparr>File = g, Duplicate = True\<rparr>)) (open_session (q, SaveCall userID key h ct nm sz))])"
proof -
  have xu: "user_ID x \<in> user_ID ` set (users db)" using x(1) by simp
  have "update_ref q S_SaveIncrRef 1 (file_ID f) db = Inr db"
    using assms(1) gone absent_row(1)[OF gone] by (simp add: update_ref_def list_all_iff) (metis image_eqI)
  moreover have "insert_file q S_SaveInsertDup userID (ObjectKey f) h sz ct nm db = Inr (g, db\<lparr>files := files db @ [g]\<rparr>)"
    using assms(1) x(2) xu fresh by (simp add: insert_file_def uuid_arg_def g new_row_def Let_def)
  moreover obtain v where "update_usage q S_SaveUpdateUsage sz (\<lambda>n. n) userID (db\<lparr>files := files db @ [g]\<rparr>) = Inr v"
  proof -
    have "int8_ok (StorageBytesUsed y + sz)" if "y \<in> set (users (db\<lparr>files := files db @ [g]\<rparr>))" "user_ID y = user_ID x" for y
      using that x unique_row[OF c _ x(1)] by auto
    with update_usage_works[OF assms(1) x(2)] that show thesis by blast
  qed
  moreover have "file_ID g = gen_uuid q" by (simp add: g new_row_def)
  ultimately show ?thesis
    using assms(1) x(2) xu gone fresh fin
    by (simp add: turn_def advance_def blocked_two[unfolded One_nat_def] wants_def open_session_def finish_def
        user_row_def args_def)
qed

text \<open>Or it executes its deletion and needs the user's row.\<close>

lemma deletion_waits:
  assumes "no_faults p" and "f \<in> set (files db)"
  shows "run_turns [0]
     (db, [\<lparr>ss_pg = p, ss_call = DeleteCall fileID owner, ss_at = HardDel f, ss_writes = [], ss_locks = [FileRow (file_ID f)]\<rparr>,
           \<lparr>ss_pg = q, ss_call = c, ss_at = IncrRef f, ss_writes = [], ss_locks = [UserRow u]\<rparr>]) =
     (db, [\<lparr>ss_pg = p, ss_call = DeleteCall fileID owner, ss_at = Reclaim f True, ss_writes = [HardDelete (file_ID f)],
             ss_locks = [FileRow (file_ID f), FileRow (file_ID f)]\<rparr>,
           \<lparr>ss_pg = q, ss_call = c, ss_at = IncrRef f, ss_writes = [], ss_locks = [UserRow u]\<rparr>])"
  using assms
  by (simp add: turn_def advance_def blocked_two[unfolded One_nat_def] wants_def hard_delete_def)

end
