(* ===== verification/Routes.thy ===== *)
theory Routes
  imports DocumentHandlers AuthHandlers RateLimit
begin

text \<open>
  The HTTP server that \<open>main.go\<close> puts together: one state for the whole process, and for
  every route its chain of middleware and its handler. Matching a request's method and
  path against the routes is the web framework's part.
\<close>

section \<open>The state of the process\<close>

text \<open>The database and the pending usage marks of API keys, the bucket, the task queue, the
  upload limiter, and the object keys that deletion goroutines still have to remove.\<close>

record ('s, 'q) server_state =
  sv_keys :: key_server
  sv_store :: 's
  sv_queue :: 'q
  sv_limiter :: rate_limiter
  sv_removals :: "string list"

definition sv_db :: "('s, 'q) server_state \<Rightarrow> database" where
  "sv_db x = ks_db (sv_keys x)"

definition set_db :: "database \<Rightarrow> ('s, 'q) server_state \<Rightarrow> ('s, 'q) server_state" where
  "set_db db x = x\<lparr>sv_keys := (sv_keys x)\<lparr>ks_db := db\<rparr>\<rparr>"

text \<open>What one request meets: the database server and the clock at that time, the other
  services, and what the framework finds in the request's body.\<close>

record ('s, 'q) server_env =
  env_pg :: pg
  env_jwt :: jwt
  env_storage :: "'s storage"
  env_enqueuer :: "'q task_enqueuer"
  env_bcrypt :: bcrypt
  env_auth :: auth_handler
  env_clock :: time
  env_rand :: "nat \<Rightarrow> go_error + bytes"
  env_http :: http_client
  env_pct :: "int \<Rightarrow> int \<Rightarrow> json"
  FormFile :: "string \<Rightarrow> bytes \<Rightarrow> go_error + file_header"
  FormPDF :: "string \<Rightarrow> bytes \<Rightarrow> go_error + pdf_header"
  bind_register :: "bytes \<Rightarrow> go_error + register_request"
  bind_login :: "bytes \<Rightarrow> go_error + login_request"
  bind_key :: "bytes \<Rightarrow> go_error + key_request"
  bind_webhook :: "bytes \<Rightarrow> go_error + webhook_request"

section \<open>Handlers and middleware on the whole state\<close>

definition on_db :: "database handler \<Rightarrow> ('s, 'q) server_state handler" where
  "on_db h c x = (let (r, db) = h c (sv_db x) in (r, set_db db x))"

definition on_files :: "(database \<times> 's) handler \<Rightarrow> ('s, 'q) server_state handler" where
  "on_files h c x = (let (r, db, s) = h c (sv_db x, sv_store x) in (r, (set_db db x)\<lparr>sv_store := s\<rparr>))"

definition on_docs :: "(database \<times> 's \<times> 'q) handler \<Rightarrow> ('s, 'q) server_state handler" where
  "on_docs h c x =
     (let (r, db, s, q) = h c (sv_db x, sv_store x, sv_queue x)
      in (r, (set_db db x)\<lparr>sv_store := s, sv_queue := q\<rparr>))"

definition on_removals :: "(database \<times> string list) handler \<Rightarrow> ('s, 'q) server_state handler" where
  "on_removals h c x =
     (let (r, db, ks) = h c (sv_db x, sv_removals x) in (r, (set_db db x)\<lparr>sv_removals := ks\<rparr>))"

definition flexAuth :: "('s, 'q) server_env \<Rightarrow> ('s, 'q) server_state middleware" where
  "flexAuth E c x =
     (let (out, ks) = FlexAuth (env_jwt E) (jwtSecret (env_auth E)) (postgres_keys (env_pg E)) c (sv_keys x)
      in (out, x\<lparr>sv_keys := ks\<rparr>))"

definition uploadLimiter :: "('s, 'q) server_env \<Rightarrow> ('s, 'q) server_state middleware" where
  "uploadLimiter E c x =
     (let (out, rl) = Limit (env_clock E) c (sv_limiter x) in (out, x\<lparr>sv_limiter := rl\<rparr>))"

section \<open>The routes\<close>

datatype endpoint =
    GET_health
  | POST_register | POST_login
  | POST_api_keys | GET_api_keys | DELETE_api_key
  | GET_me
  | POST_file | GET_files | GET_file | GET_file_url | DELETE_file
  | POST_document | GET_documents | GET_document | DELETE_document
  | GET_all_pages | GET_page | GET_page_range
  | POST_webhook

definition routes :: "(string \<times> string \<times> endpoint) list" where
  "routes = [
     (''GET'', ''/health'', GET_health),
     (''POST'', ''/auth/register'', POST_register),
     (''POST'', ''/auth/login'', POST_login),
     (''POST'', ''/auth/api-keys'', POST_api_keys),
     (''GET'', ''/auth/api-keys'', GET_api_keys),
     (''DELETE'', ''/auth/api-keys/:id'', DELETE_api_key),
     (''GET'', ''/users/me'', GET_me),
     (''POST'', ''/files/upload'', POST_file),
     (''GET'', ''/files'', GET_files),
     (''GET'', ''/files/:id'', GET_file),
     (''GET'', ''/files/:id/url'', GET_file_url),
     (''DELETE'', ''/files/:id'', DELETE_file),
     (''POST'', ''/documents/upload'', POST_document),
     (''GET'', ''/documents'', GET_documents),
     (''GET'', ''/documents/:id'', GET_document),
     (''DELETE'', ''/documents/:id'', DELETE_document),
     (''GET'', ''/documents/:id/pages/all'', GET_all_pages),
     (''GET'', ''/documents/:id/pages/:page'', GET_page),
     (''GET'', ''/documents/:id/pages'', GET_page_range),
     (''POST'', ''/documents/:id/webhook'', POST_webhook)]"

text \<open>The middleware in front of the handler: none for the health check and the two ways to
  get a token, authentication for every other route, and the limiter behind it for the
  upload of documents.\<close>

fun chain :: "('s, 'q) server_env \<Rightarrow> endpoint \<Rightarrow> ('s, 'q) server_state middleware list" where
  "chain E GET_health = []"
| "chain E POST_register = []"
| "chain E POST_login = []"
| "chain E POST_document = [flexAuth E, uploadLimiter E]"
| "chain E _ = [flexAuth E]"

definition health :: "'s handler" where
  "health c x = (json_response 200 (JObj [(''status'', JStr ''ok'')]), x)"

fun handler :: "('s, 'q) server_env \<Rightarrow> endpoint \<Rightarrow> ('s, 'q) server_state handler" where
  "handler E GET_health = health"
| "handler E POST_register =
     on_db (Register (bind_register E) (env_bcrypt E) (env_jwt E) (env_clock E) (env_auth E) (postgres_users (env_pg E)))"
| "handler E POST_login =
     on_db (Login (bind_login E) (env_bcrypt E) (env_jwt E) (env_clock E) (env_auth E) (postgres_users (env_pg E)))"
| "handler E POST_api_keys = on_db (apikey_Create (bind_key E) (env_pg E) (env_rand E))"
| "handler E GET_api_keys = on_db (apikey_List (env_pg E))"
| "handler E DELETE_api_key = on_db (apikey_Delete (env_pg E))"
| "handler E GET_me = on_db (Me (env_pg E) (env_pct E))"
| "handler E POST_file = on_files (file_Upload (FormFile E) (postgres_repo (env_pg E)) (env_storage E))"
| "handler E GET_files = on_files (file_List (postgres_repo (env_pg E)))"
| "handler E GET_file = on_files (file_Get (postgres_repo (env_pg E)))"
| "handler E GET_file_url = on_files (file_PresignedURL (postgres_repo (env_pg E)) (env_storage E))"
| "handler E DELETE_file = on_files (file_Delete (postgres_repo (env_pg E)) (env_storage E))"
| "handler E POST_document =
     on_docs (doc_Upload (FormPDF E) (postgres_docs (env_pg E)) (env_storage E) (env_enqueuer E))"
| "handler E GET_documents = on_db (doc_ListDocuments (postgres_docs (env_pg E)))"
| "handler E GET_document = on_db (doc_GetDocument (postgres_docs (env_pg E)))"
| "handler E DELETE_document = on_removals (doc_DeleteDocument (postgres_docs (env_pg E)))"
| "handler E GET_all_pages = on_files (doc_ListPages (postgres_docs (env_pg E)) (env_storage E))"
| "handler E GET_page = on_files (doc_GetPage (postgres_docs (env_pg E)) (env_storage E))"
| "handler E GET_page_range = on_files (doc_GetPageRange (postgres_docs (env_pg E)) (env_storage E) (env_http E))"
| "handler E POST_webhook = on_db (doc_RegisterWebhook (bind_webhook E) (postgres_docs (env_pg E)))"

definition route :: "('s, 'q) server_env \<Rightarrow> endpoint \<Rightarrow> ('s, 'q) server_state handler" where
  "route E e = serve (chain E e) (handler E e)"

definition public :: "endpoint \<Rightarrow> bool" where
  "public e \<longleftrightarrow> e \<in> {GET_health, POST_register, POST_login}"

section \<open>Lemmas\<close>

lemma sv_db_simps [simp]:
  "sv_db (set_db db x) = db" "sv_db (x\<lparr>sv_store := s\<rparr>) = sv_db x" "sv_db (x\<lparr>sv_queue := q\<rparr>) = sv_db x"
  "sv_db (x\<lparr>sv_limiter := rl\<rparr>) = sv_db x" "sv_db (x\<lparr>sv_removals := ks\<rparr>) = sv_db x"
  "sv_db (x\<lparr>sv_keys := k\<rparr>) = ks_db k"
  by (simp_all add: sv_db_def set_db_def)

text \<open>The database behind a handler.\<close>

lemma lifted_db:
  "on_db h c x = (r, y) \<Longrightarrow> h c (sv_db x) = (r, sv_db y)"
  "on_files hf c x = (r, y) \<Longrightarrow> hf c (sv_db x, sv_store x) = (r, sv_db y, sv_store y)"
  "on_docs hx c x = (r, y) \<Longrightarrow> hx c (sv_db x, sv_store x, sv_queue x) = (r, sv_db y, sv_store y, sv_queue y)"
  "on_removals hr c x = (r, y) \<Longrightarrow> hr c (sv_db x, sv_removals x) = (r, sv_db y, sv_removals y)"
  by (auto simp: on_db_def on_files_def on_docs_def on_removals_def split: prod.splits)

lemma flexAuth_Abort: "flexAuth E c x = (Abort r, y) \<Longrightarrow> resp_status r = 401 \<and> y = x"
  by (auto simp: flexAuth_def split: prod.splits dest: FlexAuth_Abort)

lemma APIKeyAuth_db: "APIKeyAuth (postgres_keys p) c s = (out, s') \<Longrightarrow> ks_db s' = ks_db s"
  by (auto simp: APIKeyAuth_def Let_def postgres_keys_def go_TouchLastUsed_def split: if_splits sum.splits)

lemma FlexAuth_db: "FlexAuth lib sec (postgres_keys p) c s = (out, s') \<Longrightarrow> ks_db s' = ks_db s"
  by (auto simp: FlexAuth_def Auth_def split: if_splits sum.splits dest: APIKeyAuth_db)

lemma middleware_db:
  "flexAuth E c x = (out, y) \<Longrightarrow> sv_db y = sv_db x"
  "uploadLimiter E c x = (out', y) \<Longrightarrow> sv_db y = sv_db x"
  by (auto simp: flexAuth_def uploadLimiter_def sv_db_def split: prod.splits dest: FlexAuth_db)

lemma uploadLimiter_Next: "uploadLimiter E c x = (Next c', y) \<Longrightarrow> c' = c"
  by (auto simp: uploadLimiter_def Limit_def Let_def split: prod.splits if_splits bool.splits)

lemma chain_public: "public e \<Longrightarrow> chain E e = []"
  by (cases e) (simp_all add: public_def)

lemma chain_protected: "\<not> public e \<Longrightarrow> chain E e = flexAuth E # (if e = POST_document then [uploadLimiter E] else [])"
  by (cases e) (simp_all add: public_def)

text \<open>A request ends in the middleware, with the database as it was, or in its handler.\<close>

lemma route_ends:
  assumes "route E e c x = (r, y)"
  obtains (refused) "\<not> public e" and "sv_db y = sv_db x"
  | (public) "public e" and "handler E e c x = (r, y)"
  | (served) c' x1 x2 where "\<not> public e" and "flexAuth E c x = (Next c', x1)" and "sv_db x2 = sv_db x"
      and "handler E e c' x2 = (r, y)"
proof (cases "public e")
  case True
  with assms public show thesis by (simp add: route_def chain_public)
next
  case False
  obtain out x1 where f: "flexAuth E c x = (out, x1)" by fastforce
  note db1 = middleware_db(1)[OF f]
  show thesis
  proof (cases out)
    case (Abort r')
    with assms f False refused db1 show thesis by (simp add: route_def chain_protected)
  next
    case (Next c')
    obtain out2 x2 where l: "uploadLimiter E c' x1 = (out2, x2)" by fastforce
    note db2 = middleware_db(2)[OF l]
    show thesis
    proof (cases "e = POST_document")
      case True
      show thesis
      proof (cases out2)
        case (Abort r')
        with assms f Next l db1 db2 True False refused show thesis by (simp add: route_def)
      next
        case same: (Next c2)
        then have "c2 = c'" using uploadLimiter_Next[of E c' x1 c2 x2] l by simp
        with same assms f Next l True have "handler E e c' x2 = (r, y)" by (simp add: route_def)
        with served[OF False] f Next db1 db2 show thesis by simp
      qed
    next
      case e: False
      with assms f Next db1 False served show thesis by (simp add: route_def chain_protected)
    qed
  qed
qed

end
