(* ===== verification/System.thy ===== *)
theory System
  imports Routes Pipeline Watchdog
begin

text \<open>
  The running system: requests on all routes, usage marks and removals of background
  goroutines, extraction tasks and the watchdog, in any order. What one user's requests
  do to the database is a sequence of steps of that user; from it follow the invariant of
  the whole system and the separation of its users.
\<close>

section \<open>The steps of one user\<close>

inductive own_step :: "pg \<Rightarrow> string \<Rightarrow> database \<Rightarrow> database \<Rightarrow> bool" for p userID where
  create: "0 \<le> sz \<Longrightarrow> CreateDocument p userID nm path h sz db = (r_doc, db') \<Longrightarrow> own_step p userID db db'"
| path: "d \<in> set (documents db) \<Longrightarrow> uuid_in p userID = Some (doc_UserID d) \<Longrightarrow> uuid_in p i = Some (doc_ID d) \<Longrightarrow>
     UpdateOriginalPath p i path db = (r_unit, db') \<Longrightarrow> own_step p userID db db'"
| failed: "d \<in> set (documents db) \<Longrightarrow> uuid_in p userID = Some (doc_UserID d) \<Longrightarrow> uuid_in p i = Some (doc_ID d) \<Longrightarrow>
     MarkFailed p i msg db = (r_unit, db') \<Longrightarrow> own_step p userID db db'"
| remove: "DeleteDocument p i userID db = (r_doc, db') \<Longrightarrow> own_step p userID db db'"
| hook: "GetDocument p i userID db = Inr d \<Longrightarrow> CreateWebhook p userID i url secret db = (r_hook, db') \<Longrightarrow>
     own_step p userID db db'"
| key: "key_Create p rand userID nm e db = (r_key, db') \<Longrightarrow> own_step p userID db db'"
| revoke: "key_Delete p i userID db = (r_unit, db') \<Longrightarrow> own_step p userID db db'"

text \<open>Uploads and deletions of files also touch the canonical row, which may be another user's.\<close>

inductive user_step :: "pg \<Rightarrow> string \<Rightarrow> database \<Rightarrow> database \<Rightarrow> bool" for p userID where
  save: "0 \<le> sz \<Longrightarrow> Save p userID key h ct nm sz db = (r_save, db') \<Longrightarrow> user_step p userID db db'"
| delete: "Delete p i userID db = (r_del, db') \<Longrightarrow> user_step p userID db db'"
| own: "own_step p userID db db' \<Longrightarrow> user_step p userID db db'"

lemma own_store_step: "own_step p userID db db' \<Longrightarrow> store_step db db'"
  by (induction rule: own_step.induct) (blast intro: store_step.intros)+

lemma user_store_step: "user_step p userID db db' \<Longrightarrow> store_step db db'"
  by (induction rule: user_step.induct) (blast intro: store_step.intros meta_step.intros own_store_step)+

lemma own_user_steps: "(own_step p userID)\<^sup>*\<^sup>* db db' \<Longrightarrow> (user_step p userID)\<^sup>*\<^sup>* db db'"
  by (rule mono_rtranclp[rule_format]) (rule user_step.own)

lemma user_store_steps: "(user_step p userID)\<^sup>*\<^sup>* db db' \<Longrightarrow> store_step\<^sup>*\<^sup>* db db'"
  by (rule mono_rtranclp[rule_format]) (rule user_store_step)

section \<open>What a request does to the database\<close>

lemma fs_Upload_steps:
  assumes "fs_Upload (postgres_repo p) st userID hdr (db, s) = (r, db', s')" and "0 \<le> hdr_Size hdr"
  shows "(user_step p userID)\<^sup>*\<^sup>* db db'"
proof (cases "prepare_upload userID hdr")
  case (Inl e)
  with assms(1) show ?thesis by (simp add: fs_Upload_def)
next
  case (Inr pr)
  obtain sr db1 where save: "save_meta (postgres_repo p) userID hdr pr db = (sr, db1)" by fastforce
  then have one: "user_step p userID db db1"
    using user_step.save[OF assms(2)] by (simp add: save_meta_def)
  have "db' = db1 \<or> (\<exists>i x. Delete p i userID db1 = (x, db'))"
    using assms(1) Inr save
    by (auto simp: fs_Upload_def store_object_def deleteOrphanedMeta_def Let_def split: sum.splits prod.splits if_splits)
  with one show ?thesis
    by (auto intro: user_step.delete rtranclp.rtrancl_into_rtrancl[OF r_into_rtranclp])
qed

lemma fs_Delete_steps:
  assumes "fs_Delete (postgres_repo p) st i userID (db, s) = (r, db', s')"
  shows "user_step p userID db db'"
proof -
  obtain x db1 where "Delete p i userID db = (x, db1)" by fastforce
  moreover from this assms have "db1 = db'"
    by (auto simp: fs_Delete_def Let_def split: sum.splits prod.splits if_splits)
  ultimately show ?thesis by (auto intro: user_step.delete)
qed

lemma ds_Upload_steps:
  assumes "ds_Upload (postgres_docs p) st enq userID hdr (db, s, q) = (r, db', s', q')" and "0 \<le> pdf_Size hdr"
    and "uuid_in p (gen_uuid p) = Some (gen_uuid p)"
  shows "(own_step p userID)\<^sup>*\<^sup>* db db'"
proof (cases "prepare_document hdr")
  case (Inl e)
  with assms(1) show ?thesis by (simp add: ds_Upload_def)
next
  case (Inr pr)
  obtain h nm src where pr: "pr = (h, nm, src)" by (cases pr)
  obtain cr db1 where create: "CreateDocument p userID nm [] h (pdf_Size hdr) db = (cr, db1)" by fastforce
  have one: "own_step p userID db db1" by (rule own_step.create[OF assms(2) create])
  show ?thesis
  proof (cases cr)
    case (Inl e)
    with assms(1) Inr pr create one show ?thesis by (simp add: ds_Upload_def)
  next
    case doc: (Inr d)
    with create have "CreateDocument p userID nm [] h (pdf_Size hdr) db = (Inr d, db1)" by simp
    then have d: "d \<in> set (documents db1)" "uuid_in p userID = Some (doc_UserID d)" "uuid_in p (doc_ID d) = Some (doc_ID d)"
      using assms(3) by (auto elim!: CreateDocument_Inr)
    have "(\<exists>msg x. MarkFailed p (doc_ID d) msg db1 = (x, db')) \<or> (\<exists>path x. UpdateOriginalPath p (doc_ID d) path db1 = (x, db'))"
      using assms(1) Inr pr create doc
      by (auto simp: ds_Upload_def Let_def split: sum.splits prod.splits)
    then have "own_step p userID db1 db'" using d by (auto intro: own_step.failed own_step.path)
    with one show ?thesis by (rule rtranclp.rtrancl_into_rtrancl[OF r_into_rtranclp])
  qed
qed

text \<open>What requests meet: sizes are not negative, and the server gives new rows well-formed
  ids.\<close>

definition env_ok :: "('s, 'q) server_env \<Rightarrow> bool" where
  "env_ok E \<longleftrightarrow> (\<forall>k b hdr. FormFile E k b = Inr hdr \<longrightarrow> 0 \<le> hdr_Size hdr) \<and>
     (\<forall>k b hdr. FormPDF E k b = Inr hdr \<longrightarrow> 0 \<le> pdf_Size hdr) \<and> 0 \<le> defaultQuota (env_auth E) \<and>
     uuid_in (env_pg E) (gen_uuid (env_pg E)) = Some (gen_uuid (env_pg E))"

lemma reads_only:
  "file_List repo c w = (r, w') \<Longrightarrow> w' = w" "file_Get repo c w = (r, w') \<Longrightarrow> w' = w"
  "file_PresignedURL repo st c w2 = (r, w2') \<Longrightarrow> w2' = w2"
  "doc_ListDocuments drepo c m = (r, m') \<Longrightarrow> m' = m" "doc_GetDocument drepo c m = (r, m') \<Longrightarrow> m' = m"
  "doc_GetPage drepo st c w3 = (r, w3') \<Longrightarrow> w3' = w3" "doc_ListPages drepo st c w3 = (r, w3') \<Longrightarrow> w3' = w3"
  "doc_GetPageRange drepo st http c w3 = (r, w3') \<Longrightarrow> w3' = w3"
  "apikey_List p c db = (r, db') \<Longrightarrow> db' = db" "Me p pct c db = (r, db') \<Longrightarrow> db' = db"
  "Login bind bc lib t ah urepo c u = (r, u') \<Longrightarrow> u' = u"
  by (auto simp: file_List_def file_Get_def file_PresignedURL_def doc_ListDocuments_def doc_GetDocument_def
      doc_GetPage_def doc_ListPages_def doc_GetPageRange_def apikey_List_def Me_def Login_def Let_def
      split: sum.splits option.splits if_splits)

lemma handler_writes:
  "file_Upload FF (postgres_repo p) st c (db, s) = (r, db', s') \<Longrightarrow> (\<And>k b hdr. FF k b = Inr hdr \<Longrightarrow> 0 \<le> hdr_Size hdr) \<Longrightarrow>
     (user_step p (GetUserID c))\<^sup>*\<^sup>* db db'"
  "file_Delete (postgres_repo p) st c (db, s) = (r, db', s') \<Longrightarrow> (user_step p (GetUserID c))\<^sup>*\<^sup>* db db'"
  "doc_Upload FP (postgres_docs p) st enq c (db, s, q) = (r, db', s', q') \<Longrightarrow>
     (\<And>k b hdr. FP k b = Inr hdr \<Longrightarrow> 0 \<le> pdf_Size hdr) \<Longrightarrow> uuid_in p (gen_uuid p) = Some (gen_uuid p) \<Longrightarrow>
     (own_step p (GetUserID c))\<^sup>*\<^sup>* db db'"
  "doc_DeleteDocument (postgres_docs p) c (db, ks) = (r, db', ks') \<Longrightarrow> (own_step p (GetUserID c))\<^sup>*\<^sup>* db db'"
  "doc_RegisterWebhook bw (postgres_docs p) c db = (r, db') \<Longrightarrow> (own_step p (GetUserID c))\<^sup>*\<^sup>* db db'"
  "apikey_Create bk p rand c db = (r, db') \<Longrightarrow> (own_step p (GetUserID c))\<^sup>*\<^sup>* db db'"
  "apikey_Delete p c db = (r, db') \<Longrightarrow> (own_step p (GetUserID c))\<^sup>*\<^sup>* db db'"
proof -
  show "(user_step p (GetUserID c))\<^sup>*\<^sup>* db db'"
    if "file_Upload FF (postgres_repo p) st c (db, s) = (r, db', s')" "\<And>k b hdr. FF k b = Inr hdr \<Longrightarrow> 0 \<le> hdr_Size hdr"
  proof (cases "FF ''file'' (req_body c)")
    case (Inr hdr)
    obtain x db1 s1 where up: "fs_Upload (postgres_repo p) st (GetUserID c) hdr (db, s) = (x, db1, s1)" by (metis prod_cases3)
    with that(1) Inr have "db1 = db'" by (auto simp: file_Upload_def Let_def split: sum.splits if_splits)
    with fs_Upload_steps[OF up that(2)[OF Inr]] show ?thesis by simp
  qed (use that in \<open>simp add: file_Upload_def\<close>)
  show "(user_step p (GetUserID c))\<^sup>*\<^sup>* db db'" if "file_Delete (postgres_repo p) st c (db, s) = (r, db', s')"
  proof -
    obtain x db1 s1 where del: "fs_Delete (postgres_repo p) st (param c ''id'') (GetUserID c) (db, s) = (x, db1, s1)" by (metis prod_cases3)
    with that have "db1 = db'" by (auto simp: file_Delete_def Let_def split: sum.splits)
    with fs_Delete_steps[OF del] show ?thesis by auto
  qed
  show "(own_step p (GetUserID c))\<^sup>*\<^sup>* db db'"
    if "doc_Upload FP (postgres_docs p) st enq c (db, s, q) = (r, db', s', q')" "\<And>k b hdr. FP k b = Inr hdr \<Longrightarrow> 0 \<le> pdf_Size hdr"
      "uuid_in p (gen_uuid p) = Some (gen_uuid p)"
  proof (cases "FP ''file'' (req_body c)")
    case (Inr hdr)
    obtain x db1 s1 q1 where up: "ds_Upload (postgres_docs p) st enq (GetUserID c) hdr (db, s, q) = (x, db1, s1, q1)" by (metis prod_cases4)
    with that(1) Inr have "db1 = db'" by (auto simp: doc_Upload_def Let_def split: sum.splits if_splits)
    with ds_Upload_steps[OF up that(2)[OF Inr] that(3)] show ?thesis by simp
  qed (use that in \<open>simp add: doc_Upload_def\<close>)
  show "(own_step p (GetUserID c))\<^sup>*\<^sup>* db db'" if "doc_DeleteDocument (postgres_docs p) c (db, ks) = (r, db', ks')"
    using that own_step.remove[of p "param c ''id''" "GetUserID c" db]
    by (auto simp: doc_DeleteDocument_def ds_DeleteDocument_def Let_def split: sum.splits prod.splits)
  show "(own_step p (GetUserID c))\<^sup>*\<^sup>* db db'" if "doc_RegisterWebhook bw (postgres_docs p) c db = (r, db')"
    using that own_step.hook[of p "param c ''id''" "GetUserID c" db]
    by (auto simp: doc_RegisterWebhook_def ds_RegisterWebhook_def Let_def split: sum.splits prod.splits)
  show "(own_step p (GetUserID c))\<^sup>*\<^sup>* db db'" if "apikey_Create bk p rand c db = (r, db')"
    using that own_step.key[of p rand "GetUserID c" _ _ db]
    by (auto simp: apikey_Create_def Let_def split: sum.splits prod.splits)
  show "(own_step p (GetUserID c))\<^sup>*\<^sup>* db db'" if "apikey_Delete p c db = (r, db')"
    using that own_step.revoke[of p "param c ''id''" "GetUserID c" db]
    by (auto simp: apikey_Delete_def Let_def split: sum.splits prod.splits)
qed

lemma handler_steps:
  assumes "handler E e c x = (r, y)" and "\<not> public e" and "env_ok E"
  shows "(user_step (env_pg E) (GetUserID c))\<^sup>*\<^sup>* (sv_db x) (sv_db y)"
proof -
  have env: "\<And>k b hdr. FormFile E k b = Inr hdr \<Longrightarrow> 0 \<le> hdr_Size hdr" "\<And>k b hdr. FormPDF E k b = Inr hdr \<Longrightarrow> 0 \<le> pdf_Size hdr"
    "uuid_in (env_pg E) (gen_uuid (env_pg E)) = Some (gen_uuid (env_pg E))"
    using assms(3) by (simp_all add: env_ok_def)
  show ?thesis
    using assms(1,2)
    by (cases e) (auto simp: public_def dest!: lifted_db dest: reads_only handler_writes own_user_steps
        intro: handler_writes(1)[OF _ env(1)] own_user_steps[OF handler_writes(3)[OF _ env(2,3)]])
qed

lemma handler_own_steps:
  assumes "handler E e c x = (r, y)" and "\<not> public e" and "env_ok E" and "e \<notin> {POST_file, DELETE_file}"
  shows "(own_step (env_pg E) (GetUserID c))\<^sup>*\<^sup>* (sv_db x) (sv_db y)"
proof -
  have env: "\<And>k b hdr. FormPDF E k b = Inr hdr \<Longrightarrow> 0 \<le> pdf_Size hdr"
    "uuid_in (env_pg E) (gen_uuid (env_pg E)) = Some (gen_uuid (env_pg E))"
    using assms(3) by (simp_all add: env_ok_def)
  show ?thesis
    using assms(1,2,4)
    by (cases e) (auto simp: public_def dest!: lifted_db dest: reads_only handler_writes
        intro: handler_writes(3)[OF _ env])
qed

section \<open>The data of one user\<close>

text \<open>All that the database holds for the user \<open>v\<close>: the account with its usage, the file rows
  in every column but \<open>ref_count\<close> (which \<open>view\<close> leaves out: another user's upload or deletion of
  the same content moves it), the documents with their pages and webhooks, and the API keys.\<close>

record tenant_data =
  td_users :: "user list"
  td_files :: "file_meta list"
  td_docs :: "document list"
  td_pages :: "document_page list"
  td_hooks :: "webhook_subscription list"
  td_keys :: "api_key list"

definition doc_ids :: "uuid \<Rightarrow> database \<Rightarrow> uuid set" where
  "doc_ids v db = doc_ID ` {d \<in> set (documents db). doc_UserID d = v}"

definition tenant :: "uuid \<Rightarrow> database \<Rightarrow> tenant_data" where
  "tenant v db = \<lparr>td_users = filter (\<lambda>u. user_ID u = v) (users db), td_files = view v db,
     td_docs = filter (\<lambda>d. doc_UserID d = v) (documents db),
     td_pages = filter (\<lambda>pg. page_DocumentID pg \<in> doc_ids v db) (document_pages db),
     td_hooks = filter (\<lambda>w. hook_DocumentID w \<in> doc_ids v db) (webhook_subscriptions db),
     td_keys = filter (\<lambda>k. key_UserID k = v) (api_keys db)\<rparr>"

lemma tenant_cong:
  assumes "filter (\<lambda>u. user_ID u = v) (users db') = filter (\<lambda>u. user_ID u = v) (users db)" and "view v db' = view v db"
    and "filter (\<lambda>d. doc_UserID d = v) (documents db') = filter (\<lambda>d. doc_UserID d = v) (documents db)"
    and "filter (\<lambda>pg. page_DocumentID pg \<in> doc_ids v db) (document_pages db') = filter (\<lambda>pg. page_DocumentID pg \<in> doc_ids v db) (document_pages db)"
    and "filter (\<lambda>w. hook_DocumentID w \<in> doc_ids v db) (webhook_subscriptions db') = filter (\<lambda>w. hook_DocumentID w \<in> doc_ids v db) (webhook_subscriptions db)"
    and "filter (\<lambda>k. key_UserID k = v) (api_keys db') = filter (\<lambda>k. key_UserID k = v) (api_keys db)"
  shows "tenant v db' = tenant v db"
proof -
  have "doc_ids v db' = doc_ids v db" unfolding doc_ids_def by (metis assms(3) set_filter)
  with assms show ?thesis by (simp add: tenant_def)
qed

lemma filter_sql_delete: "(\<And>r. r \<in> set rs \<Longrightarrow> P r \<Longrightarrow> \<not> Q r) \<Longrightarrow> filter P (sql_delete Q rs) = filter P rs"
  by (induction rs) (auto simp: sql_delete_def)

text \<open>The document of one user is no document of another.\<close>

lemma foreign_doc:
  assumes "db_constraints db" and "d \<in> set (documents db)" and "doc_UserID d \<noteq> v"
  shows "doc_ID d \<notin> doc_ids v db"
proof
  assume "doc_ID d \<in> doc_ids v db"
  then obtain d' where "d' \<in> set (documents db)" "doc_UserID d' = v" "doc_ID d' = doc_ID d" by (auto simp: doc_ids_def)
  moreover have "distinct (map doc_ID (documents db))" using assms(1) by (simp add: db_constraints_def)
  ultimately show False using unique_row[of doc_ID "documents db" d' d] assms(2,3) by auto
qed

lemma tenant_update_document:
  assumes "db_constraints db" and "d \<in> set (documents db)" and "doc_UserID d \<noteq> v"
    and "\<And>d. doc_UserID (f d) = doc_UserID d"
  shows "tenant v (update_document (doc_ID d) f db) = tenant v db"
proof (rule tenant_cong)
  have "\<And>d'. d' \<in> set (documents db) \<Longrightarrow> doc_UserID d' = v \<Longrightarrow> doc_ID d' \<noteq> doc_ID d"
    using foreign_doc[OF assms(1-3)] unfolding doc_ids_def by (metis (mono_tags, lifting) imageI mem_Collect_eq)
  then have "filter (\<lambda>d. doc_UserID d = v) (sql_update (\<lambda>d'. doc_ID d' = doc_ID d) f (documents db)) = filter (\<lambda>d. doc_UserID d = v) (documents db)"
    using assms(4) by (auto simp: filter_sql_update intro!: sql_update_id)
  then show "filter (\<lambda>d. doc_UserID d = v) (documents (update_document (doc_ID d) f db)) = filter (\<lambda>d. doc_UserID d = v) (documents db)"
    by (simp add: update_document_def)
qed (simp_all add: update_document_def view_def)

lemma tenant_delete_document:
  assumes "db_constraints db" and "d \<in> set (documents db)" and "doc_UserID d \<noteq> v"
  shows "tenant v (delete_document (doc_ID d) db) = tenant v db"
proof (rule tenant_cong)
  note other = foreign_doc[OF assms]
  then have "\<And>d'. d' \<in> set (documents db) \<Longrightarrow> doc_UserID d' = v \<Longrightarrow> doc_ID d' \<noteq> doc_ID d"
    unfolding doc_ids_def by (metis (mono_tags, lifting) imageI mem_Collect_eq)
  then show "filter (\<lambda>d. doc_UserID d = v) (documents (delete_document (doc_ID d) db)) = filter (\<lambda>d. doc_UserID d = v) (documents db)"
    by (auto simp: delete_document_def intro!: filter_sql_delete)
  show "filter (\<lambda>pg. page_DocumentID pg \<in> doc_ids v db) (document_pages (delete_document (doc_ID d) db)) =
      filter (\<lambda>pg. page_DocumentID pg \<in> doc_ids v db) (document_pages db)"
    using other by (auto simp: delete_document_def intro!: filter_sql_delete)
  show "filter (\<lambda>w. hook_DocumentID w \<in> doc_ids v db) (webhook_subscriptions (delete_document (doc_ID d) db)) =
      filter (\<lambda>w. hook_DocumentID w \<in> doc_ids v db) (webhook_subscriptions db)"
    using other by (auto simp: delete_document_def intro!: filter_sql_delete)
qed (simp_all add: delete_document_def view_def)

lemma meta_frames:
  "Save p userID key h ct nm sz db = (r, db') \<Longrightarrow> \<exists>us fs. db' = db\<lparr>users := us, files := fs\<rparr>"
  "Delete p i userID db = (r', db') \<Longrightarrow> \<exists>us fs. db' = db\<lparr>users := us, files := fs\<rparr>"
proof -
  have same: "\<exists>us fs. db = db\<lparr>users := us, files := fs\<rparr>" by (intro exI[of _ "users db"] exI[of _ "files db"]) simp
  show "Save p userID key h ct nm sz db = (r, db') \<Longrightarrow> \<exists>us fs. db' = db\<lparr>users := us, files := fs\<rparr>"
  proof (cases r)
    case (Inr x)
    assume "Save p userID key h ct nm sz db = (r, db')"
    with Inr have "db' = after_save (limit1 (scan p S_SaveFindCanonical) (live db h)) (File x) db"
      by (blast elim: Save_Inr)
    then show ?thesis by (auto simp: after_save_def split: option.splits)
  qed (use same Save_error in blast)
  show "Delete p i userID db = (r', db') \<Longrightarrow> \<exists>us fs. db' = db\<lparr>users := us, files := fs\<rparr>"
  proof (cases r')
    case (Inr x)
    assume "Delete p i userID db = (r', db')"
    with Inr obtain f c where "db' = after_delete (clock p) f c db" by (blast elim: Delete_Inr)
    then show ?thesis by (auto simp: after_delete_def)
  qed (use same Delete_error in blast)
qed

lemma tenant_meta:
  assumes "db' = db\<lparr>users := us, files := fs\<rparr>" and "view v db' = view v db"
    and "filter (\<lambda>x. user_ID x = v) (users db') = filter (\<lambda>x. user_ID x = v) (users db)"
  shows "tenant v db' = tenant v db"
  by (rule tenant_cong) (use assms in auto)

text \<open>No step of a user changes the data of another: first the ones that add rows.\<close>

lemma tenant_create_document:
  assumes "CreateDocument p userID nm path h sz db = (Inr d, db')" and "uuid_in p userID \<noteq> Some v"
  shows "tenant v db' = tenant v db"
proof -
  obtain u where "uuid_in p userID = Some u" "doc_UserID d = u" "doc_ID d \<notin> doc_ID ` set (documents db)"
    and db': "db' = db\<lparr>users := charge u sz (users db), documents := documents db @ [d]\<rparr>"
    unfolding charge_def by (rule CreateDocument_Inr[OF assms(1)]) auto
  with assms(2) have "u \<noteq> v" "doc_UserID d \<noteq> v" by auto
  then show ?thesis by (intro tenant_cong) (simp_all add: db' other_users view_def)
qed

lemma tenant_create_webhook:
  assumes "CreateWebhook p userID i url secret db = (Inr w, db')" and "GetDocument p i userID db = Inr d"
    and "db_constraints db" and "uuid_in p userID \<noteq> Some v"
  shows "tenant v db' = tenant v db"
proof -
  note d = GetDocument_Inr[OF assms(2)]
  with assms(4) have "doc_UserID d \<noteq> v" by auto
  with foreign_doc[OF assms(3)] d have "doc_ID d \<notin> doc_ids v db" by blast
  then show ?thesis
    using d by (cases rule: CreateWebhook_Inr[OF assms(1)]) (auto intro!: tenant_cong simp: view_def)
qed

lemma tenant_create_key:
  assumes "key_Create p rand userID nm e db = (Inr x, db')" and "uuid_in p userID \<noteq> Some v"
  shows "tenant v db' = tenant v db"
  using assms(2) by (cases rule: key_Create_Inr[OF assms(1)]) (auto intro!: tenant_cong simp: view_def)

text \<open>A step that fails changes nothing.\<close>

lemma tenant_result:
  assumes "\<And>e. r = Inl e \<Longrightarrow> db' = db" and "\<And>x. r = Inr x \<Longrightarrow> tenant v db' = tenant v db"
  shows "tenant v db' = tenant v db"
  using assms by (cases r) auto

lemma own_step_tenant:
  assumes "own_step p userID db db'" and c: "db_constraints db" and other: "uuid_in p userID \<noteq> Some v"
  shows "tenant v db' = tenant v db"
  using assms(1)
proof cases
  case (create sz nm path h r)
  show ?thesis
    by (rule tenant_result[of r])
       (use create(2) document_errors(1) in blast, use create(2) tenant_create_document[OF _ other] in blast)
next
  case (path d i pth r)
  show ?thesis
  proof (cases r)
    case (Inl e)
    with path document_errors(4) show ?thesis by blast
  next
    case (Inr x)
    with path other show ?thesis by (auto simp: UpdateOriginalPath_Inr intro!: tenant_update_document[OF c])
  qed
next
  case (failed d i msg r)
  show ?thesis
  proof (cases r)
    case (Inl e)
    with failed document_errors(3) show ?thesis by blast
  next
    case (Inr x)
    with failed other show ?thesis by (auto simp: MarkFailed_Inr intro!: tenant_update_document[OF c])
  qed
next
  case (remove i r)
  show ?thesis
  proof (cases r)
    case (Inl e)
    with remove document_errors(5) show ?thesis by blast
  next
    case (Inr x)
    with remove other show ?thesis by (auto dest!: DeleteDocument_Inr intro!: tenant_delete_document[OF c])
  qed
next
  case (hook i d url secret r)
  show ?thesis
    by (rule tenant_result[of r])
       (use hook(2) document_errors(8) in blast, use hook(2) tenant_create_webhook[OF _ hook(1) c other] in blast)
next
  case (key rand nm e r)
  show ?thesis
    by (rule tenant_result[of r])
       (use key key_Create_error in blast, use key tenant_create_key[OF _ other] in blast)
next
  case (revoke i r)
  show ?thesis
  proof (cases r)
    case (Inl e)
    with revoke key_Delete_error show ?thesis by blast
  next
    case (Inr x)
    with revoke other show ?thesis by (auto simp: key_Delete_Inr view_def intro!: tenant_cong filter_sql_delete)
  qed
qed

lemma own_step_files: "own_step p userID db db' \<Longrightarrow> files db' = files db"
proof (induction rule: own_step.induct)
  case (create sz nm path h db r db')
  show ?case using create(2) by (rule CreateDocument_files)
qed (blast dest: single_step.intros single_step_files)+

lemma user_step_tenant:
  assumes "user_step p userID db db'" and c: "db_constraints db" and other: "uuid_in p userID \<noteq> Some v"
  shows "tenant v db' = tenant v db"
  using assms(1)
proof cases
  case (save sz key h ct nm r)
  show ?thesis
  proof (rule tenant_result)
    show "db' = db" if "r = Inl e" for e using save that by (blast dest: Save_error)
    show "tenant v db' = tenant v db" if "r = Inr x" for x
      using meta_frames(1)[OF save(2)] isolated_Save[OF save(2)[unfolded that] other] by (blast intro: tenant_meta)
  qed
next
  case (delete i r)
  show ?thesis
  proof (rule tenant_result)
    show "db' = db" if "r = Inl e" for e using delete that by (blast dest: Delete_error)
    show "tenant v db' = tenant v db" if "r = Inr x" for x
      using meta_frames(2)[OF delete] isolated_Delete[OF delete[unfolded that] other c] by (blast intro: tenant_meta)
  qed
next
  case own
  then show ?thesis using c other by (rule own_step_tenant)
qed

lemma own_steps_files: "(own_step p userID)\<^sup>*\<^sup>* db db' \<Longrightarrow> files db' = files db"
  by (induction rule: rtranclp_induct) (simp_all add: own_step_files)

lemma user_steps_tenant:
  assumes "(user_step p userID)\<^sup>*\<^sup>* db db'" and "store_inv db" and "uuid_in p userID \<noteq> Some v"
  shows "tenant v db' = tenant v db \<and> store_inv db'"
  using assms(1)
proof induction
  case base
  with assms(2) show ?case by simp
next
  case (step y z)
  then have "db_constraints y" by (simp add: store_inv_def)
  with step user_step_tenant[OF step(2) _ assms(3)] store_inv_step[OF user_store_step[OF step(2)]] show ?case by simp
qed

section \<open>The running system\<close>

lemma store_steps_inv: "store_step\<^sup>*\<^sup>* db db' \<Longrightarrow> store_inv db \<Longrightarrow> store_inv db'"
  by (induction rule: rtranclp_induct) (blast intro: store_inv_step)+

lemma Register_steps:
  assumes "Register bind bc lib t ah (postgres_users p) c db = (r, db')" and "0 \<le> defaultQuota ah"
  shows "store_step\<^sup>*\<^sup>* db db'"
proof -
  have "db' = db \<or> (\<exists>em h x. CreateUser p em h (defaultQuota ah) db = (x, db'))"
    using assms(1) by (auto simp: Register_def postgres_users_def split: sum.splits prod.splits)
  then show ?thesis using assms(2) by (auto intro: store_step.meta meta_step.create)
qed

lemma route_steps:
  assumes "route E e c x = (r, y)" and "env_ok E"
  shows "store_step\<^sup>*\<^sup>* (sv_db x) (sv_db y)"
  using assms(1)
proof (cases rule: route_ends)
  case refused
  then show ?thesis by simp
next
  case public
  have "0 \<le> defaultQuota (env_auth E)" using assms(2) by (simp add: env_ok_def)
  with public Register_steps show ?thesis
    by (auto simp: public_def health_def dest!: lifted_db reads_only(11))
next
  case (served c' x1 x2)
  with handler_steps[OF served(4) _ assms(2)] user_store_steps show ?thesis by metis
qed

lemma page_step_steps:
  "page_step W st p docID orig n j (dir, s, db) = (j', dir', s', db') \<Longrightarrow> store_step\<^sup>*\<^sup>* db db'"
proof (cases "db' = db")
  case False
  moreover assume "page_step W st p docID orig n j (dir, s, db) = (j', dir', s', db')"
  ultimately obtain sz x where "SavePage p docID n (page_path docID n) sz db = (x, db')"
    by (cases "(W, st, p, docID, orig, n, j, dir, s, db)" rule: page_step.cases)
       (auto simp: fail_job_def Let_def split: sum.splits prod.splits option.splits)
  then show ?thesis by (auto intro: store_step.page)
qed simp

lemma run_jobs_store_steps: "store_step\<^sup>*\<^sup>* (ex_db x) (ex_db (run_jobs W st docID orig ch k x))"
proof (induction "work_left x" arbitrary: x k rule: less_induct)
  case less
  show ?case
  proof (cases "movable x = []")
    case True
    then show ?thesis by (simp add: run_jobs_done)
  next
    case False
    let ?y = "move W st (snd (ch k)) docID orig (movable x ! (fst (ch k) mod length (movable x))) x"
    note mv = movable_nth[OF False, of "fst (ch k)"]
    have "store_step\<^sup>*\<^sup>* (ex_db x) (ex_db ?y)"
      using mv by (cases rule: move_cases[of _ _ W st "snd (ch k)" docID orig]) (auto dest: page_step_steps)
    moreover have "store_step\<^sup>*\<^sup>* (ex_db ?y) (ex_db (run_jobs W st docID orig ch (Suc k) ?y))"
      by (rule less[OF move_decreases[OF mv]])
    ultimately show ?thesis by (simp add: run_jobs_move[OF False])
  qed
qed

lemma worker_fail_steps: "worker_fail aq p docID e (s, db, q) = (r, s', db', q') \<Longrightarrow> store_step\<^sup>*\<^sup>* db db'"
  by (auto simp: worker_fail_def split: prod.splits intro: store_step.failed)

lemma HandleExtractPages_steps:
  assumes "HandleExtractPages W st aq p ch t (s, db, q) = (r, s', db', q')"
  shows "store_step\<^sup>*\<^sup>* db db'"
proof (cases "unmarshal_extract (task_Payload t)")
  case (Inl e)
  with assms show ?thesis by (simp add: HandleExtractPages_def)
next
  case (Inr payload)
  have run: "store_step\<^sup>*\<^sup>* db (ex_db (run_jobs W st docID orig ch 0 (start_extraction n s db)))" for docID orig n
    using run_jobs_store_steps[of "start_extraction n s db"] by (simp add: start_extraction_def)
  from assms Inr refl show ?thesis
  proof (cases rule: HandleExtractPages_ends)
    case prepare
    then show ?thesis by (blast dest: worker_fail_steps)
  next
    case (pages d orig n x e)
    with worker_fail_steps[OF pages(5)] run show ?thesis by (meson rtranclp_trans)
  next
    case (mark d orig n x e)
    with run store_step.ready[OF mark(5)] show ?thesis by (meson rtranclp.rtrancl_into_rtrancl)
  next
    case (ready d orig n x)
    with run store_step.ready[OF ready(5)] show ?thesis by (meson rtranclp.rtrancl_into_rtrancl)
  qed simp
qed

end
