(* ===== verification/Concurrency.thy ===== *)
theory Concurrency
  imports TransactionRaces System
begin

text \<open>
  The database under everything that the server runs at the same time: requests that overlap,
  extraction tasks, usage marks and the watchdog. Any number of sessions on \<open>Save\<close>, \<open>Delete\<close>
  and \<open>CreateDocument\<close> arrive at any time and interleave their statements; between them
  anyone executes the program's single-statement writes. The operations run one after
  another, as in \<open>System\<close>, are among these runs.
\<close>

section \<open>The steps of the server\<close>

text \<open>A statement of a session, or the cancellation of one that waits; a new session; a write of
  a single statement. The latter waits for no lock: the sessions lock users, files and the
  documents that they have not committed yet, and the single statements write none of these
  rows.\<close>

inductive server_step :: "txn_state \<Rightarrow> txn_state \<Rightarrow> bool" where
  transaction: "txn_step x y \<Longrightarrow> server_step x y"
| arrival: "call_ok c \<Longrightarrow> server_step (db, ss) (db, ss @ [open_session (p, c)])"
| statement: "single_step db db' \<Longrightarrow> server_step (db, ss) (db', ss)"

section \<open>The invariant of the database\<close>

definition over_quota_only :: "uuid set \<Rightarrow> database \<Rightarrow> bool" where
  "over_quota_only us db \<longleftrightarrow> (\<forall>x \<in> set (users db). user_ID x \<in> us \<or> StorageBytesUsed x \<le> StorageQuotaBytes x)"

definition server_inv :: "uuid set \<Rightarrow> database \<Rightarrow> bool" where
  "server_inv us db \<longleftrightarrow> core_inv db \<and> over_quota_only us db"

lemma server_inv_mono: "server_inv us db \<Longrightarrow> us \<subseteq> us' \<Longrightarrow> server_inv us' db"
  by (auto simp: server_inv_def over_quota_only_def)

lemma server_inv_save:
  assumes inv: "server_inv us db" and x: "x \<in> set (users db)" "user_ID x = file_UserID f"
    and room: "StorageBytesUsed x + Size f \<le> StorageQuotaBytes x"
    and f: "file_ID f \<notin> file_ID ` set (files db)" "active f" "0 \<le> Size f"
  shows "server_inv us (after_save found f db)"
proof -
  have c: "core_inv db" "db_constraints db" using inv by (simp_all add: server_inv_def core_inv_def)
  have "file_UserID f \<in> user_ID ` set (users db)" using x by (metis image_eqI)
  with c f have "core_inv (after_save found f db)"
    by (simp add: core_inv_def constraints_after_save sizes_after_save usage_covers_after_save)
  moreover have "y = x" if "y \<in> set (users db)" "user_ID y = file_UserID f" for y
    using unique_row[OF constraints_user_ids[OF c(2)] that(1) x(1)] that(2) x(2) by simp
  with inv room have "over_quota_only us (after_save found f db)"
    by (fastforce simp: server_inv_def over_quota_only_def charge_def in_set_sql_update)
  ultimately show ?thesis by (simp add: server_inv_def)
qed

lemma server_inv_delete:
  assumes inv: "server_inv us db" and f: "f \<in> set (files db)" "active f"
  shows "server_inv us (after_delete t f c db)"
proof -
  have c: "core_inv db" "db_constraints db" "sizes_ok db" using inv by (simp_all add: server_inv_def core_inv_def)
  have "core_inv (after_delete t f c db)"
    using c usage_covers_after_delete[OF _ constraints_file_ids[OF c(2)] f]
    by (simp add: core_inv_def constraints_after_delete sizes_after_delete)
  moreover have "0 \<le> StorageBytesUsed x" if "x \<in> set (users db)" for x
    using c(1) that live_bytes_nonneg[OF c(3), of "user_ID x"] doc_bytes_nonneg[OF c(3), of "user_ID x"]
    by (force simp: core_inv_def usage_covers_def)
  moreover have "0 \<le> Size f" using c(3) f(1) by (simp add: sizes_ok_def)
  ultimately show ?thesis
    using inv by (force simp: server_inv_def over_quota_only_def refund_def in_set_sql_update)
qed

lemma server_inv_create:
  assumes inv: "server_inv us db" and d: "doc_UserID d \<in> us" "doc_UserID d \<in> user_ID ` set (users db)"
    "doc_ID d \<notin> doc_ID ` set (documents db)" "0 \<le> doc_SizeBytes d" "lifecycle d"
  shows "server_inv us (db\<lparr>users := charge (doc_UserID d) (doc_SizeBytes d) (users db), documents := documents db @ [d]\<rparr>)"
    (is "server_inv us ?v")
proof -
  have c: "core_inv db" using inv by (simp add: server_inv_def)
  have "db_constraints ?v" using c d by (intro constraints_add_document) (simp_all add: core_inv_def)
  moreover have "usage_covers ?v"
  proof (rule usage_covers_grow)
    show "usage_covers db" using c by (simp add: core_inv_def)
    show "users ?v = map (\<lambda>x. if user_ID x = doc_UserID d
        then x\<lparr>StorageBytesUsed := StorageBytesUsed x + doc_SizeBytes d\<rparr> else x) (users db)"
      by (simp add: charge_def sql_update_def)
  qed (simp add: doc_bytes_def live_bytes_def)
  ultimately have "core_inv ?v" using c d by (auto simp: core_inv_def sizes_ok_def)
  moreover have "over_quota_only us ?v"
    using inv d(1) by (fastforce simp: server_inv_def over_quota_only_def charge_def in_set_sql_update)
  ultimately show ?thesis by (simp add: server_inv_def)
qed

interpretation server: database_law server_inv
proof unfold_locales
  show "server_inv us db \<Longrightarrow> db_constraints db" for us db by (simp add: server_inv_def core_inv_def)
qed (rule server_inv_save server_inv_delete server_inv_create, assumption+)+

section \<open>All sessions together\<close>

text \<open>Those for whom a session creates a document, finished or not.\<close>

definition creators :: "session list \<Rightarrow> uuid set" where
  "creators ss = {u. \<exists>s \<in> set ss. creates_for (ss_pg s) (ss_call s) u}"

definition calls_of :: "session list \<Rightarrow> (pg \<times> call) list" where
  "calls_of = map (\<lambda>s. (ss_pg s, ss_call s))"

lemma creators_calls: "calls_of ss = calls_of ss' \<Longrightarrow> creators ss = creators ss'"
proof -
  have "creators ss = {u. \<exists>(p, c) \<in> set (calls_of ss). creates_for p c u}" for ss
    by (auto simp: creators_def calls_of_def)
  then show "calls_of ss = calls_of ss' \<Longrightarrow> creators ss = creators ss'" by simp
qed

lemma advance_call: "advance s db = (db', s') \<Longrightarrow> (ss_pg s', ss_call s') = (ss_pg s, ss_call s)"
  by (auto simp: advance_def Let_def split: position.splits sum.splits prod.splits)

lemma calls_of_update:
  "(ss_pg s', ss_call s') = (ss_pg (ss ! i), ss_call (ss ! i)) \<Longrightarrow> calls_of (ss[i := s']) = calls_of ss"
  by (cases "i < length ss") (auto simp: calls_of_def map_update intro!: nth_equalityI simp: nth_list_update)

lemma calls_of_step: "txn_step x y \<Longrightarrow> calls_of (snd y) = calls_of (snd x)"
proof (induction rule: txn_step.induct)
  case (turn i ss db)
  obtain db' s' where "advance (ss ! i) db = (db', s')" by fastforce
  with advance_call[OF this] show ?case by (simp add: turn_def calls_of_update)
qed (simp add: calls_of_update)

definition server_ok :: "txn_state \<Rightarrow> bool" where
  "server_ok x \<longleftrightarrow> txn_ok server_inv (creators (snd x)) x"

text \<open>A single statement leaves what the sessions rely on.\<close>

lemma single_step_keeps: "single_step db db' \<Longrightarrow> keeps_rows ls db db'"
  by (drule single_step_frame, elim disjE) (auto simp: keeps_rows_def quiet_def adds_user_def)

lemma over_quota_frame: "quiet db db' \<or> adds_user db db' \<Longrightarrow> over_quota_only us db \<Longrightarrow> over_quota_only us db'"
  by (elim disjE) (auto simp: over_quota_only_def quiet_def adds_user_def)

lemma server_inv_single: "single_step db db' \<Longrightarrow> server_inv us db \<Longrightarrow> server_inv us db'"
  using over_quota_frame[OF single_step_frame] core_inv_single by (simp add: server_inv_def)

lemma session_ok_mono: "session_ok us db s \<Longrightarrow> us \<subseteq> us' \<Longrightarrow> session_ok us' db s"
  by (auto simp: session_ok_def)

lemma session_ok_open:
  "call_ok c \<Longrightarrow> {u. creates_for p c u} \<subseteq> us \<Longrightarrow> session_ok us db (open_session (p, c))"
  by (auto simp: session_ok_def open_session_def)

lemma server_ok_step: "server_step x y \<Longrightarrow> server_ok x \<Longrightarrow> server_ok y"
proof (induction rule: server_step.induct)
  case (transaction x y)
  then have "creators (snd y) = creators (snd x)" by (intro creators_calls calls_of_step)
  with transaction server.txn_ok_step show ?case by (simp add: server_ok_def)
next
  case (arrival c db ss p)
  let ?s = "open_session (p, c)"
  have us: "creators (ss @ [?s]) = creators ss \<union> {u. creates_for p c u}"
    by (auto simp: creators_def open_session_def)
  have "ss_locks ?s = []" by (simp add: open_session_def)
  with arrival show ?case
    unfolding server_ok_def snd_conv us
    by (auto simp: txn_ok_def nth_append less_Suc_eq intro: server_inv_mono session_ok_mono session_ok_open)
next
  case (statement db db' ss)
  then show ?case
    by (auto simp: server_ok_def txn_ok_def intro: server_inv_single session_ok_same[OF _ single_step_keeps])
qed

lemma server_ok_steps: "server_step\<^sup>*\<^sup>* x y \<Longrightarrow> server_ok x \<Longrightarrow> server_ok y"
  by (induction rule: rtranclp_induct) (blast intro: server_ok_step)+

lemma server_ok_empty: "server_ok (empty_db, [])"
  by (simp add: server_ok_def txn_ok_def server_inv_def core_inv_def over_quota_only_def
      db_constraints_def sizes_ok_def usage_covers_def empty_db_def)

section \<open>One operation after another\<close>

text \<open>Among sessions that have returned, one more session runs as it would alone.\<close>

definition idle :: "session list \<Rightarrow> bool" where
  "idle ss \<longleftrightarrow> (\<forall>s \<in> set ss. ended s \<and> ss_locks s = [])"

lemma idle_turn:
  assumes "idle ss"
  shows "txn_step (db, ss @ [s]) (fst (advance s db), ss @ [snd (advance s db)])"
proof -
  have "\<not> blocked db (ss @ [s]) (length ss)"
    using assms by (auto simp: blocked_iff blocked_by_def idle_def nth_append)
  from txn_step.turn[OF _ this] show ?thesis by (simp add: turn_def split: prod.splits)
qed

lemma idle_solo:
  assumes "idle ss"
  shows "txn_step\<^sup>*\<^sup>* (db, ss @ [s]) (fst (solo n s db), ss @ [snd (solo n s db)])"
proof (induction n arbitrary: s db)
  case (Suc n)
  from converse_rtranclp_into_rtranclp[OF idle_turn[OF assms, of db s] Suc] show ?case
    by (cases "advance s db") simp
qed simp

lemma idle_run:
  assumes "idle ss" and "call_ok c" and "solo n (open_session (p, c)) db = (db', finish r s)"
  shows "\<exists>ss'. server_step\<^sup>*\<^sup>* (db, ss) (db', ss') \<and> idle ss'"
proof -
  have "server_step\<^sup>*\<^sup>* x y" if "txn_step\<^sup>*\<^sup>* x y" for x y
    using that by (rule mono_rtranclp[rule_format, rotated]) (rule server_step.transaction)
  from this[OF idle_solo[OF assms(1), of db "open_session (p, c)" n]]
  have "server_step\<^sup>*\<^sup>* (db, ss @ [open_session (p, c)]) (db', ss @ [finish r s])" by (simp add: assms(3))
  with server_step.arrival[OF assms(2), of db ss p] have "server_step\<^sup>*\<^sup>* (db, ss) (db', ss @ [finish r s])"
    by (rule converse_rtranclp_into_rtranclp)
  moreover have "idle (ss @ [finish r s])" using assms(1) by (auto simp: idle_def ended_def)
  ultimately show ?thesis by blast
qed

lemma store_step_server:
  assumes "store_step db db'" and "idle ss"
  shows "\<exists>ss'. server_step\<^sup>*\<^sup>* (db, ss) (db', ss') \<and> idle ss'"
  using assms(1)
proof (cases rule: store_step_cases)
  case single
  with assms(2) show ?thesis by (blast intro: server_step.statement)
next
  case (save p userID key h ct nm sz r)
  then show ?thesis
    using idle_run[OF assms(2), of "SaveCall userID key h ct nm sz"] solo_Save[OF refl, of p userID key h ct nm sz db] by simp
next
  case (delete p i userID r)
  then show ?thesis
    using idle_run[OF assms(2), of "DeleteCall i userID"] solo_Delete[OF refl, of p i userID db] by simp
next
  case (create p userID nm path h sz r)
  then show ?thesis
    using idle_run[OF assms(2), of "CreateCall userID nm path h sz"] solo_CreateDocument[OF refl, of p userID nm path h sz db] by simp
qed

lemma store_steps_server:
  assumes "store_step\<^sup>*\<^sup>* db db'" and "idle ss"
  shows "\<exists>ss'. server_step\<^sup>*\<^sup>* (db, ss) (db', ss') \<and> idle ss'"
  using assms(1)
proof induction
  case (step y z)
  then obtain ss1 where "server_step\<^sup>*\<^sup>* (db, ss) (y, ss1)" "idle ss1" by blast
  moreover from store_step_server[OF step(2) this(2)] obtain ss2 where "server_step\<^sup>*\<^sup>* (y, ss1) (z, ss2)" "idle ss2" by blast
  ultimately show ?case by (meson rtranclp_trans)
qed (use assms(2) in blast)

section \<open>The invariant of the concurrent server\<close>

text \<open>C1: However the requests, extraction tasks, usage marks and watchdog ticks of a server that
  starts on an empty database overlap, statement by statement, and whichever statements fail or
  are cancelled: the committed database satisfies the schema's constraints, no user stores
  more than the recorded usage, every document's status tells what its other columns hold,
  and a user is over quota only if the upload of a document was started for that user.\<close>

theorem concurrent_server:
  assumes "server_step\<^sup>*\<^sup>* (empty_db, []) (db, ss)"
  shows "db_constraints db \<and> usage_covers db \<and> list_all lifecycle (documents db) \<and>
    list_all (\<lambda>x. StorageBytesUsed x \<le> StorageQuotaBytes x \<or> user_ID x \<in> creators ss) (users db)"
  using server_ok_steps[OF assms server_ok_empty]
  by (auto simp: server_ok_def txn_ok_def server_inv_def core_inv_def over_quota_only_def list_all_iff)

text \<open>Two users register; meanwhile the first uploads two files of 60 bytes, with room for one,
  and a document of 500 bytes.\<close>

definition overlapping_calls :: "(pg \<times> call) list" where
  "overlapping_calls = [(demo_pg ''f8'' 8, SaveCall ''u1'' ''k8'' ''bb'' ''ct'' ''b'' 60),
     (demo_pg ''f9'' 9, SaveCall ''u1'' ''k9'' ''cc'' ''ct'' ''c'' 60),
     (demo_pg ''d8'' 9, CreateCall ''u1'' ''d.pdf'' ''p'' ''dd'' 500)]"

definition overlap_start :: txn_state where
  "overlap_start = (snd (CreateUser (demo_pg ''u1'' 1) ''a@b.c'' ''pw'' 100 empty_db), map open_session overlapping_calls)"

definition overlap_middle :: txn_state where
  "overlap_middle = run_turns [0, 1, 2, 0, 1, 0] overlap_start"

definition overlap_end :: txn_state where
  "overlap_end = run_turns (replicate 7 0 @ replicate 7 1 @ replicate 7 2)
     (snd (CreateUser (demo_pg ''u2'' 2) ''b@b.c'' ''pw'' 100 (fst overlap_middle)), snd overlap_middle)"

lemma txn_steps_server: "txn_step\<^sup>*\<^sup>* x y \<Longrightarrow> server_step\<^sup>*\<^sup>* x y"
  by (rule mono_rtranclp[rule_format]) (rule server_step.transaction)

lemma arrivals: "\<forall>(p, c) \<in> set calls. call_ok c \<Longrightarrow> server_step\<^sup>*\<^sup>* (db, ss) (db, ss @ map open_session calls)"
proof (induction calls arbitrary: ss)
  case (Cons pc calls)
  obtain p c where pc: "pc = (p, c)" by fastforce
  with Cons(2) have "server_step (db, ss) (db, ss @ [open_session pc])" by (auto intro: server_step.arrival)
  moreover have "server_step\<^sup>*\<^sup>* (db, ss @ [open_session pc]) (db, (ss @ [open_session pc]) @ map open_session calls)"
    by (rule Cons.IH) (use Cons.prems in simp)
  ultimately show ?case by (simp add: converse_rtranclp_into_rtranclp)
qed simp

lemma registration_step: "0 \<le> q \<Longrightarrow> server_step (db, ss) (snd (CreateUser p email pw q db), ss)"
  by (intro server_step.statement single_step.user[OF _ surjective_pairing])

lemma overlap_steps: "server_step\<^sup>*\<^sup>* (empty_db, []) (fst overlap_end, snd overlap_end)"
proof -
  let ?next = "(snd (CreateUser (demo_pg ''u2'' 2) ''b@b.c'' ''pw'' 100 (fst overlap_middle)), snd overlap_middle)"
  have "server_step\<^sup>*\<^sup>* (empty_db, []) overlap_start"
    unfolding overlap_start_def
    by (rule converse_rtranclp_into_rtranclp[OF registration_step arrivals[where ss = "[]", simplified]])
       (simp_all add: overlapping_calls_def)
  moreover have "server_step\<^sup>*\<^sup>* overlap_start overlap_middle"
    unfolding overlap_middle_def by (intro txn_steps_server run_turns_steps)
  moreover have "server_step (fst overlap_middle, snd overlap_middle) ?next" by (rule registration_step) simp
  then have "server_step overlap_middle ?next" by (simp only: prod.collapse)
  moreover have "server_step\<^sup>*\<^sup>* ?next overlap_end"
    unfolding overlap_end_def by (intro txn_steps_server run_turns_steps)
  ultimately have "server_step\<^sup>*\<^sup>* (empty_db, []) overlap_end"
    by (blast intro: rtranclp_trans converse_rtranclp_into_rtranclp)
  then show ?thesis by (simp only: prod.collapse)
qed

theorem concurrent_server_witness:
  "map (\<lambda>x. (user_ID x, StorageBytesUsed x)) (users (fst overlap_end)) = [(''u1'', 560), (''u2'', 0)] \<and>
   map (\<lambda>s. case ss_at s of Ended (Inl e) \<Rightarrow> e = ErrQuotaExceeded | _ \<Rightarrow> False) (snd overlap_end) = [False, True, False] \<and>
   db_constraints (fst overlap_end) \<and> usage_covers (fst overlap_end) \<and> ''u1'' \<in> creators (snd overlap_end)"
proof -
  have run: "map (\<lambda>x. (user_ID x, StorageBytesUsed x, StorageQuotaBytes x)) (users (fst overlap_end)) = [(''u1'', 560, 100), (''u2'', 0, 100)]"
    "map (\<lambda>s. case ss_at s of Ended (Inl e) \<Rightarrow> e = ErrQuotaExceeded | _ \<Rightarrow> False) (snd overlap_end) = [False, True, False]"
    by code_simp+
  from run(1) have "map (\<lambda>x. (user_ID x, StorageBytesUsed x)) (users (fst overlap_end)) = [(''u1'', 560), (''u2'', 0)]"
    by (auto simp: map_eq_Cons_conv)
  moreover from run(1) have "\<exists>x \<in> set (users (fst overlap_end)). user_ID x = ''u1'' \<and> \<not> StorageBytesUsed x \<le> StorageQuotaBytes x"
    by (auto simp: map_eq_Cons_conv)
  ultimately show ?thesis
    using run(2) concurrent_server[OF overlap_steps] by (auto simp: list_all_iff)
qed

end
