(* ===== verification/SystemClaims.thy ===== *)
theory SystemClaims
  imports Concurrency AuthClaims DocumentHandlerClaims
begin

text \<open>
  The properties of the running system: who gets past the routes, what one user's requests
  can do to another user's data, and the invariant of the database when requests and tasks
  run one after another. Requests that overlap are in \<open>Concurrency\<close>.
\<close>

section \<open>The running system\<close>

text \<open>A request on any route; a usage mark or an object removal of a background goroutine; a
  cleanup of the limiter; an extraction task; a tick of the watchdog. Every step meets
  its own servers, clock and failures. A step runs to its end before the next one starts.\<close>

inductive system_step :: "('s, 'q) server_state \<Rightarrow> ('s, 'q) server_state \<Rightarrow> bool" where
  request: "env_ok E \<Longrightarrow> route E e c x = (r, y) \<Longrightarrow> system_step x y"
| touch: "system_step x (x\<lparr>sv_keys := touch_step p n (sv_keys x)\<rparr>)"
| removal: "sv_removals x = k # ks \<Longrightarrow> system_step x (x\<lparr>sv_store := snd (st_Delete (st :: 's storage) k (sv_store x)), sv_removals := ks\<rparr>)"
| limiter: "system_step x (x\<lparr>sv_limiter := cleanup t (sv_limiter x)\<rparr>)"
| task: "HandleExtractPages W st aq p ch t (sv_store x, sv_db x, sv_queue x) = (r, s, db, q) \<Longrightarrow>
     system_step x ((set_db db x)\<lparr>sv_store := s, sv_queue := q\<rparr>)"
| tick: "system_step x (set_db (sweep w p (sv_db x)) x)"

inductive_cases system_stepE: "system_step x y"

text \<open>The start: an empty database.\<close>

inductive system_reachable :: "('s, 'q) server_state \<Rightarrow> bool" where
  start: "sv_db x = empty_db \<Longrightarrow> system_reachable x"
| step: "system_reachable x \<Longrightarrow> system_step x y \<Longrightarrow> system_reachable y"

lemma touch_step_db:
  "ks_db (touch_step p n s) = ks_db s \<or> (\<exists>i. touch_key p i (ks_db s) = Inr (ks_db (touch_step p n s)))"
  by (auto simp: touch_step_def split: sum.splits)

lemma sweep_db: "\<exists>r. FailStuckDocuments p (clock p - wd_timeout w) db = (r, sweep w p db)"
  by (auto simp: sweep_def Let_def split: prod.splits sum.splits)

lemma system_step_db: "system_step x y \<Longrightarrow> store_step\<^sup>*\<^sup>* (sv_db x) (sv_db y)"
proof (induction rule: system_step.induct)
  case (request E e c x r y)
  then show ?case by (rule route_steps[rotated])
next
  case (touch x p n)
  then show ?case
    using touch_step_db[of p n "sv_keys x"] by (auto simp: sv_db_def intro: store_step.touch)
next
  case (task W st aq p ch t x r s db q)
  then show ?case by (simp add: HandleExtractPages_steps)
next
  case (tick x w p)
  then show ?case using sweep_db[of p w "sv_db x"] by (auto intro: store_step.stuck)
qed simp_all

lemma system_reachable_inv: "system_reachable x \<Longrightarrow> store_inv (sv_db x)"
  by (induction rule: system_reachable.induct)
     (simp add: store_inv_empty, blast intro: store_steps_inv system_step_db)

text \<open>These runs are among those of the concurrent server.\<close>

lemma system_among_concurrent:
  "system_reachable x \<Longrightarrow> \<exists>ss. server_step\<^sup>*\<^sup>* (empty_db, []) (sv_db x, ss) \<and> idle ss"
proof (induction rule: system_reachable.induct)
  case (step x y)
  then obtain ss where "server_step\<^sup>*\<^sup>* (empty_db, []) (sv_db x, ss)" "idle ss" by blast
  with store_steps_server[OF system_step_db[OF step(2)]] show ?case by (meson rtranclp_trans)
qed (auto simp: idle_def)

text \<open>C6: As long as requests, extraction tasks, goroutine steps and watchdog ticks run one after
  another, each to its end before the next starts, then with any failures and with any
  interleaving of the pages inside a task: the database satisfies the schema's
  constraints, all active rows of one content name one object, no user stores more than the
  recorded usage, and every document's status tells what its other columns hold. One object
  per content needs this: two first uploads that overlap make two objects
  (\<open>first_uploads_not_deduplicated\<close>); the rest also holds when they overlap
  (\<open>concurrent_server\<close>).\<close>

theorem system_invariant:
  assumes "system_reachable x"
  shows "db_constraints (sv_db x) \<and> one_object (sv_db x) \<and> usage_covers (sv_db x) \<and>
    (\<forall>d \<in> set (documents (sv_db x)). lifecycle d)"
  using system_reachable_inv[OF assms] by (simp add: store_inv_def)

section \<open>Example\<close>

definition demo_env :: "(mock_storage, (task \<times> task_option list) list) server_env" where
  "demo_env = \<lparr>env_pg = demo_pg ''u1'' 1,
     env_jwt = \<lparr>ParseWithClaims = (\<lambda>t k. case k (SigningMethodHMAC ''HS256'') of Inl e \<Rightarrow> Inl e
        | Inr _ \<Rightarrow> Inr \<lparr>Claims = Some \<lparr>claims_UserID = t, claims_ExpiresAt = None, claims_IssuedAt = None\<rparr>, Valid = True\<rparr>),
        SignedString = (\<lambda>cl _. Inr (claims_UserID cl))\<rparr>,
     env_storage = MockStorage, env_enqueuer = AsynqEnqueuer demo_queue,
     env_bcrypt = \<lparr>GenerateFromPassword = Inr, CompareHashAndPassword = (=)\<rparr>,
     env_auth = \<lparr>jwtSecret = ''secret'', jwtExpiryHours = 24, defaultQuota = 20\<rparr>, env_clock = 1,
     env_rand = (\<lambda>n. Inr (replicate n (CHR ''r''))),
     env_http = \<lparr>NewRequest = (\<lambda>_. Inr ()), http_Get = (\<lambda>url. Inr (200, url, None))\<rparr>,
     env_pct = (\<lambda>a b. JInt 0),
     FormFile = (\<lambda>_ b. Inr (demo_file_header ''a.txt'' b)), FormPDF = (\<lambda>_ b. Inr (demo_pdf b)),
     bind_register = (\<lambda>b. Inr \<lparr>reg_Email = b, reg_Password = ''pw''\<rparr>),
     bind_login = (\<lambda>b. Inr \<lparr>login_Email = b, login_Password = ''pw''\<rparr>),
     bind_key = (\<lambda>b. Inr \<lparr>kreq_Name = b, kreq_ExpiresAt = None\<rparr>),
     bind_webhook = (\<lambda>b. Inr \<lparr>wreq_URL = b, wreq_Secret = ''''\<rparr>)\<rparr>"

definition demo_request :: "string \<Rightarrow> bytes \<Rightarrow> gin_context" where
  "demo_request auth body = \<lparr>header = (\<lambda>k. if k = ''Authorization'' then auth else ''''), param = (\<lambda>_. ''''),
     query = (\<lambda>_. None), req_body = body, keys = (\<lambda>_. None)\<rparr>"

definition start_state :: "(mock_storage, (task \<times> task_option list) list) server_state" where
  "start_state = \<lparr>sv_keys = \<lparr>ks_db = empty_db, ks_pending = []\<rparr>, sv_store = NewMockStorage, sv_queue = [],
     sv_limiter = NewRateLimiter 5 (60 * second), sv_removals = []\<rparr>"

lemma demo_env_ok: "env_ok demo_env"
  by (auto simp: env_ok_def demo_env_def demo_pdf_def demo_file_header_def)

text \<open>A registered user is in the database of a reachable state.\<close>

definition registered_state :: "(mock_storage, (task \<times> task_option list) list) server_state" where
  "registered_state = snd (route demo_env POST_register (demo_request '''' ''a@b.c'') start_state)"

lemma registered_reachable: "system_reachable registered_state"
  unfolding registered_state_def
  by (intro system_reachable.step[OF _ system_step.request[OF demo_env_ok surjective_pairing]] system_reachable.start)
     (simp add: start_state_def sv_db_def)

theorem system_invariant_witness:
  "map Email (users (sv_db registered_state)) = [''a@b.c''] \<and> db_constraints (sv_db registered_state)"
proof -
  have "map Email (users (sv_db registered_state)) = [''a@b.c'']" by code_simp
  with system_invariant[OF registered_reachable] show ?thesis by simp
qed

section \<open>Authentication\<close>

text \<open>C17: Every route but the health check, the registration and the login is closed: a
  request either is answered 401 and changes nothing at all, or it carries a token that
  the JWT library validates for the server's secret, or an API key that is stored and has
  not expired, and then it is served as the user of that credential.\<close>

theorem authentication_required:
  assumes "\<not> public e" and "route E e c x = (r, y)"
  shows "resp_status r = 401 \<and> y = x \<or>
    (\<exists>c' x'. serve (if e = POST_document then [uploadLimiter E] else []) (handler E e) c' x' = (r, y) \<and>
       sv_db x' = sv_db x \<and>
       ((\<exists>t cl. extractToken c = Inr t \<and> parseToken (env_jwt E) t (jwtSecret (env_auth E)) = Inr cl \<and>
           GetUserID c' = claims_UserID cl) \<or>
        key_creds (clock (env_pg E)) (sv_db x) (header c apiKeyHeader) (GetUserID c')))"
proof -
  obtain out x' where f: "flexAuth E c x = (out, x')" by fastforce
  show ?thesis
  proof (cases out)
    case (Abort r')
    with f assms have "r = r'" "y = x'" by (simp_all add: route_def chain_protected)
    with flexAuth_Abort f Abort show ?thesis by blast
  next
    case (Next c')
    then obtain ks where "FlexAuth (env_jwt E) (jwtSecret (env_auth E)) (postgres_keys (env_pg E)) c (sv_keys x) = (Next c', ks)"
      using f by (auto simp: flexAuth_def split: prod.splits)
    from pg_keys.FlexAuth_user[OF this] have "(\<exists>t cl. extractToken c = Inr t \<and>
        parseToken (env_jwt E) t (jwtSecret (env_auth E)) = Inr cl \<and> GetUserID c' = claims_UserID cl) \<or>
        key_creds (clock (env_pg E)) (sv_db x) (header c apiKeyHeader) (GetUserID c')"
      by (simp add: sv_db_def)
    moreover have "serve (if e = POST_document then [uploadLimiter E] else []) (handler E e) c' x' = (r, y)"
      using assms f Next by (simp add: route_def chain_protected)
    ultimately show ?thesis using middleware_db(1)[OF f] by blast
  qed
qed

theorem authentication_required_witness:
  "\<exists>r. route demo_env GET_files (demo_request '''' '''') start_state = (r, start_state) \<and> resp_status r = 401"
proof -
  obtain r y where run: "route demo_env GET_files (demo_request '''' '''') start_state = (r, y)" by fastforce
  have "extractToken (demo_request '''' '''') \<noteq> Inr t" for t by (simp add: extractToken_def demo_request_def)
  moreover have "\<not> key_creds t (sv_db start_state) k u" for t k u
    by (simp add: key_creds_def sv_db_def start_state_def empty_db_def)
  ultimately show ?thesis using authentication_required[OF _ run] run by (auto simp: public_def)
qed

section \<open>Separation of users\<close>

text \<open>C5: Whatever an authenticated user requests, on any route, of what the database holds for
  another user the account and its usage, the documents, pages, webhooks and API keys do
  not change, and no column of a file row but its reference count, which an upload or a
  deletion of a file moves when both users have the content. On every other route no file
  row changes at all.\<close>

theorem request_isolation:
  assumes "\<not> public e" and "env_ok E" and "store_inv (sv_db x)"
    and "flexAuth E c x = (Next c', x')" and "uuid_in (env_pg E) (GetUserID c') \<noteq> Some v"
    and "route E e c x = (r, y)"
  shows "tenant v (sv_db y) = tenant v (sv_db x) \<and>
    (e \<notin> {POST_file, DELETE_file} \<longrightarrow> files (sv_db y) = files (sv_db x))"
  using assms(6)
proof (cases rule: route_ends)
  case refused
  then show ?thesis by simp
next
  case (served c1 x1 x2)
  with assms(4) have "c1 = c'" by simp
  with user_steps_tenant[OF handler_steps[OF served(4,1) assms(2)]] assms(3,5) served(3)
  have "tenant v (sv_db y) = tenant v (sv_db x)" by simp
  moreover have "files (sv_db y) = files (sv_db x)" if "e \<notin> {POST_file, DELETE_file}"
    using own_steps_files[OF handler_own_steps[OF served(4,1) assms(2) that]] served(3) by simp
  ultimately show ?thesis by blast
qed (use assms(1) in simp)

definition paged_state :: "(mock_storage, (task \<times> task_option list) list) server_state" where
  "paged_state = start_state\<lparr>sv_keys := \<lparr>ks_db = paged_db, ks_pending = []\<rparr>\<rparr>"

lemma paged_inv: "store_inv paged_db"
  unfolding store_inv_def
  by (intro conjI paged_db_constraints)
     (auto simp: paged_db_defs sizes_ok_def one_object_def live_def usage_covers_def live_bytes_def doc_bytes_def lifecycle_def)

lemma bearer_u2: "extractToken (demo_request ''Bearer u2'' b) = Inr ''u2''"
  by (simp add: extractToken_Inr demo_request_def equal_fold_def)

theorem request_isolation_witness:
  "tenant ''u1'' (sv_db (snd (route demo_env POST_document (demo_request ''Bearer u2'' ''%PDF-1.4'') paged_state))) = tenant ''u1'' paged_db \<and>
   length (td_docs (tenant ''u1'' paged_db)) = 2"
proof -
  have "has_prefix (to_lower ''Bearer u2'') ''bearer ''" by code_simp
  then have fa: "flexAuth demo_env (demo_request ''Bearer u2'' ''%PDF-1.4'') paged_state =
      (Next (set_key UserIDKey ''u2'' (demo_request ''Bearer u2'' ''%PDF-1.4'')), paged_state)"
    using bearer_u2[of "''%PDF-1.4''"]
    by (simp add: flexAuth_def FlexAuth_def Auth_def parseToken_def demo_env_def hmac_keyfunc_def)
       (simp add: demo_request_def)
  have "\<not> public POST_document" and "store_inv (sv_db paged_state)" and "sv_db paged_state = paged_db"
    using paged_inv by (simp_all add: public_def paged_state_def)
  with request_isolation[OF _ demo_env_ok _ fa _ surjective_pairing, of POST_document "''u1''"]
  show ?thesis by (simp add: demo_env_def tenant_def paged_db_defs)
qed

end
