(* ===== verification/ApiContract.thy ===== *)
theory ApiContract
  imports SystemClaims
begin

text \<open>
  Which fields no answer of any route of the HTTP interface has.
\<close>

section \<open>How a route answers\<close>

lemma FlexAuth_names: "FlexAuth lib sec store c s = (Abort r, s') \<Longrightarrow> response_names r = {''error''}"
  by (auto simp: FlexAuth_def Auth_def APIKeyAuth_def Let_def split: if_splits sum.splits)

lemma Limit_Abort:
  "Limit t c rl = (Abort r, rl') \<Longrightarrow> resp_status r = 429 \<and> response_names r = {''error'', ''limit'', ''window_seconds''}"
  by (auto simp: Limit_def Let_def split: if_splits prod.splits bool.splits)

lemma route_answer:
  assumes "route E e c x = (r, y)"
  obtains (handled) c' x' where "handler E e c' x' = (r, y)"
  | (closed) "\<not> public e" and "resp_status r = 401" and "response_names r = {''error''}"
  | (limited) "e = POST_document" and "resp_status r = 429" and "response_names r = {''error'', ''limit'', ''window_seconds''}"
proof (cases "public e")
  case True
  with assms handled show thesis by (simp add: route_def chain_public)
next
  case False
  obtain out x1 where f: "flexAuth E c x = (out, x1)" by fastforce
  show thesis
  proof (cases out)
    case (Abort r')
    with f assms False have "r = r'" by (simp add: route_def chain_protected)
    moreover obtain ks where "FlexAuth (env_jwt E) (jwtSecret (env_auth E)) (postgres_keys (env_pg E)) c (sv_keys x) = (Abort r', ks)"
      using f Abort by (auto simp: flexAuth_def split: prod.splits)
    ultimately show thesis using closed[OF False] FlexAuth_Abort FlexAuth_names by metis
  next
    case (Next c')
    show thesis
    proof (cases "e = POST_document")
      case doc: True
      obtain out2 x2 where l: "uploadLimiter E c' x1 = (out2, x2)" by fastforce
      show thesis
      proof (cases out2)
        case (Abort r')
        with f Next l assms doc have "r = r'" by (simp add: route_def)
        moreover obtain rl where "Limit (env_clock E) c' (sv_limiter x1) = (Abort r', rl)"
          using l Abort by (auto simp: uploadLimiter_def split: prod.splits)
        ultimately show thesis using limited[OF doc] Limit_Abort by metis
      next
        case (Next c2)
        with f \<open>out = Next c'\<close> l assms doc handled show thesis by (simp add: route_def)
      qed
    next
      case other: False
      with f Next assms False handled show thesis by (simp add: route_def chain_protected)
    qed
  qed
qed

section \<open>Hidden fields\<close>

text \<open>The columns that the structs keep from \<open>encoding/json\<close> with the tag \<open>json:"-"\<close>, and the
  password's hash; each with the name of its Go field, under which a field without a tag is
  written.\<close>

definition hidden_fields :: "string set" where
  "hidden_fields =
     {''object_key'', ''ref_count'', ''key_hash'', ''password_hash'', ''original_minio_path'', ''minio_path'', ''secret'',
      ''ObjectKey'', ''RefCount'', ''KeyHash'', ''PasswordHash'', ''OriginalMinioPath'', ''MinioPath'', ''Secret''}"

lemma hidden_json:
  "json_names (json_file f) \<inter> hidden_fields = {}" "json_names (json_document d) \<inter> hidden_fields = {}"
  "json_names (json_api_key k) \<inter> hidden_fields = {}" "json_names (json_webhook h) \<inter> hidden_fields = {}"
  "json_names (json_page_with_url g) \<inter> hidden_fields = {}"
  using json_file_names[of f] json_document_names[of d] json_api_key_names[of k]
  by (auto simp: hidden_fields_def json_webhook_def json_page_with_url_def)

lemma disjoint_UN: "(\<And>i. A i \<inter> S = {}) \<Longrightarrow> (\<Union>i. A i) \<inter> S = {}"
  by blast

lemma account_names:
  "response_names (fst (Register br bc lib t ah urepo c u)) \<subseteq> {''error'', ''token''} \<union> {}"
  "response_names (fst (Login bl bc lib t ah urepo c u)) \<subseteq> {''error'', ''token''} \<union> {}"
  by (auto simp: Register_def Login_def token_response_def split: sum.splits prod.splits
      dest!: names_panic[THEN subsetD] names_unless_panic[THEN subsetD])

lemma Me_names:
  assumes "\<And>a b. json_names (pct a b) = {}"
  shows "response_names (fst (Me p pct c db)) \<subseteq> {''error'', ''id'', ''email'', ''storage'', ''used_bytes'', ''quota_bytes'',
    ''used_pct'', ''documents'', ''total'', ''ready'', ''processing'', ''failed'', ''created_at''} \<union> {}"
  using assms by (auto simp: Me_def Let_def usedPct_def split: sum.splits if_splits
      dest!: names_panic[THEN subsetD] names_not_found[THEN subsetD])

lemma zip_answer_names: "response_names (zip_answer name r) \<subseteq> {''error'', ''status''}"
  by (auto simp: zip_answer_def Let_def unless_panic_def response_names_def still_processing_def
      split: prod.splits option.splits go_error.splits if_splits)

lemma page_range_names: "response_names (fst (doc_GetPageRange repo st http c ms)) \<subseteq> {''error'', ''status''} \<union> {}"
  by (auto simp: doc_GetPageRange_def Let_def split: option.splits if_splits dest!: zip_answer_names[THEN subsetD])

lemma handler_hidden:
  assumes "\<And>a b. json_names (env_pct E a b) = {}"
  shows "response_names (fst (handler E e c x)) \<inter> hidden_fields = {}"
proof -
  have lift: "fst (on_db h c x) = fst (h c (sv_db x))" "fst (on_files hf c x) = fst (hf c (sv_db x, sv_store x))"
    "fst (on_docs hx c x) = fst (hx c (sv_db x, sv_store x, sv_queue x))"
    "fst (on_removals hr c x) = fst (hr c (sv_db x, sv_removals x))" for h hf hx hr
    by (simp_all add: on_db_def on_files_def on_docs_def on_removals_def case_prod_beta)
  note json = hidden_json[THEN disjoint_UN]
  note names = disjoint_sub[OF file_response_names(1) _ json(1)] disjoint_sub[OF file_response_names(2) _ json(1)]
    disjoint_sub[OF file_response_names(3) _ json(1)] disjoint_sub[OF file_response_names(4) _ Int_empty_left]
    disjoint_sub[OF file_response_names(5) _ Int_empty_left] disjoint_sub[OF apikey_response_names(1) _ json(3)]
    disjoint_sub[OF apikey_response_names(2) _ json(3)] disjoint_sub[OF apikey_response_names(3) _ Int_empty_left]
    disjoint_sub[OF document_response_names(1) _ Int_empty_left] disjoint_sub[OF document_response_names(2) _ json(2)]
    disjoint_sub[OF document_response_names(3) _ json(2)] disjoint_sub[OF document_response_names(4) _ Int_empty_left]
    disjoint_sub[OF document_response_names(5) _ json(5)] disjoint_sub[OF document_response_names(6) _ json(4)]
    disjoint_sub[OF document_response_names(7) _ Int_empty_left] disjoint_sub[OF account_names(1) _ Int_empty_left]
    disjoint_sub[OF account_names(2) _ Int_empty_left] disjoint_sub[OF Me_names[OF assms] _ Int_empty_left]
    disjoint_sub[OF page_range_names _ Int_empty_left]
  have fixed: "''error'' \<notin> hidden_fields" "''status'' \<notin> hidden_fields"
    "A \<inter> hidden_fields = {} \<longleftrightarrow> (\<forall>a \<in> A. a \<notin> hidden_fields)" for A
    by (auto simp: hidden_fields_def)
  show ?thesis
    by (cases e; simp only: handler.simps lift; (rule names)?)
       (simp_all add: health_def hidden_fields_def)
qed

text \<open>C36: No answer of any route, at any depth, has a field for one of the columns
  \<open>object_key\<close>, \<open>ref_count\<close>, \<open>key_hash\<close>, \<open>password_hash\<close>, \<open>original_minio_path\<close>, \<open>minio_path\<close> or
  \<open>secret\<close>, neither under the column's name nor under the name of the Go field that holds it.
  (The percentage in the profile is a number.)\<close>

theorem routes_hide_internals:
  assumes "\<And>a b. json_names (env_pct E a b) = {}"
  shows "response_names (fst (route E e c x)) \<inter> hidden_fields = {}"
proof -
  obtain r y where run: "route E e c x = (r, y)" by fastforce
  then show ?thesis
  proof (cases rule: route_answer)
    case (handled c' x')
    with handler_hidden[OF assms, where e = e and c = c' and x = x'] run show ?thesis by simp
  qed (use run in \<open>simp_all add: hidden_fields_def\<close>)
qed

theorem routes_hide_internals_witness:
  "response_names (fst (route demo_env GET_files (demo_request ''Bearer u1'' '''') paged_state)) \<inter> hidden_fields = {} \<and>
   ''ObjectKey'' \<in> hidden_fields"
  using routes_hide_internals[of demo_env] by (simp add: demo_env_def hidden_fields_def)

end
