(* ===== verification/TransactionClaims.thy ===== *)
theory TransactionClaims
  imports TransactionRaces
begin

text \<open>
  The properties of concurrent uploads and deletions: what every interleaving of their
  transactions keeps, that uploads alone always progress, and the interleavings in which
  the row locks do not suffice.
\<close>

section \<open>What every interleaving keeps\<close>

text \<open>C3: However the statements of any number of concurrent uploads of files and documents and
  deletions of files are interleaved, and whichever of them fail or are cancelled while
  they wait, every committed database satisfies the schema's constraints, the recorded
  usage of each user is exactly the bytes of the user's active files and documents, and no
  user is over quota but those for whom documents are created, where the code does not
  look at the quota: the row locks are enough for the accounts.\<close>

theorem interleavings_keep_accounts:
  assumes "db_constraints db" and "sizes_ok db" and "usage_exact db" and "quota_ok db"
    and "\<forall>(p, c) \<in> set calls. call_ok c"
    and "txn_step\<^sup>*\<^sup>* (db, map open_session calls) (db', ss)"
  shows "db_constraints db' \<and> usage_exact db' \<and>
    (\<forall>x \<in> set (users db'). StorageBytesUsed x \<le> StorageQuotaBytes x \<or>
       (\<exists>(p, c) \<in> set calls. creates_for p c (user_ID x)))"
proof -
  let ?us = "{u. \<exists>(p, c) \<in> set calls. creates_for p c u}"
  have "accounts_but ?us db" using assms(1-4) by (simp add: accounts_but_def meta_inv_def quota_ok_def)
  moreover have "\<forall>(p, c) \<in> set calls. call_ok c \<and> (\<forall>u. creates_for p c u \<longrightarrow> u \<in> ?us)"
    using assms(5) by auto
  ultimately have "txn_ok accounts_but ?us (db, map open_session calls)" by (rule accounts.txn_ok_start)
  from accounts.txn_ok_steps[OF assms(6) this] show ?thesis by (auto simp: txn_ok_def accounts_but_def meta_inv_def)
qed

lemma demo_db_accounts: "sizes_ok demo_db" "usage_exact demo_db" "quota_ok demo_db"
  by (simp_all add: sizes_ok_def usage_exact_def quota_ok_def live_bytes_def doc_bytes_def active_def demo_defs)

definition two_uploads :: "(pg \<times> call) list" where
  "two_uploads = [(demo_pg ''f8'' 8, SaveCall ''u1'' ''k8'' ''bb'' ''ct'' ''b'' 60),
                  (demo_pg ''f9'' 9, SaveCall ''u1'' ''k9'' ''cc'' ''ct'' ''c'' 60)]"

definition and_a_document :: "(pg \<times> call) list" where
  "and_a_document = two_uploads @ [(demo_pg ''d8'' 9, CreateCall ''u2'' ''d.pdf'' ''p'' ''dd'' 500)]"

text \<open>Two uploads of 60 bytes by one user with room for 95: the second waits for the first at
  the user's row, and is refused after its commit. Meanwhile another user exceeds a quota
  with a document.\<close>

definition contended :: txn_state where
  "contended = run_turns ([2, 0, 1, 0, 1, 1, 2, 0, 1] @ replicate 7 0 @ [1, 2, 2]) (demo_db, map open_session and_a_document)"

theorem interleavings_keep_accounts_witness:
  "map StorageBytesUsed (users (fst contended)) = [65, 505, 5] \<and>
   map (\<lambda>s. case ss_at s of Ended (Inl e) \<Rightarrow> e = ErrQuotaExceeded | _ \<Rightarrow> False) (snd contended) = [False, True, False] \<and>
   db_constraints (fst contended) \<and> usage_exact (fst contended) \<and>
   list_all (\<lambda>x. StorageBytesUsed x \<le> StorageQuotaBytes x \<or> user_ID x = ''u2'') (users (fst contended))"
proof -
  have run: "map StorageBytesUsed (users (fst contended)) = [65, 505, 5]"
    "map (\<lambda>s. case ss_at s of Ended (Inl e) \<Rightarrow> e = ErrQuotaExceeded | _ \<Rightarrow> False) (snd contended) = [False, True, False]"
    by code_simp+
  have steps: "txn_step\<^sup>*\<^sup>* (demo_db, map open_session and_a_document) (fst contended, snd contended)"
    unfolding contended_def prod.collapse by (rule run_turns_steps)
  have "\<forall>(p, c) \<in> set and_a_document. call_ok c" by (simp add: two_uploads_def and_a_document_def)
  from interleavings_keep_accounts[OF demo_db_constraints demo_db_accounts this steps] run show ?thesis
    by (auto simp: and_a_document_def two_uploads_def list_all_iff)
qed

text \<open>A session that no other interrupts does exactly what the serial \<open>Save\<close>, \<open>Delete\<close> and
  \<open>CreateDocument\<close> do, on every path, errors included.\<close>

lemma alone_is_serial:
  "run_turns (replicate 7 0) (db, [open_session (p, SaveCall userID key h ct nm sz)]) =
     (let (r, db') = Save p userID key h ct nm sz db
      in (db', [finish (map_sum (\<lambda>e. e) Saved r) (open_session (p, SaveCall userID key h ct nm sz))])) \<and>
   run_turns (replicate 7 0) (db, [open_session (p, DeleteCall fileID userID)]) =
     (let (r, db') = Delete p fileID userID db
      in (db', [finish (map_sum (\<lambda>e. e) Deleted r) (open_session (p, DeleteCall fileID userID))])) \<and>
   run_turns (replicate 7 0) (db, [open_session (p, CreateCall userID nm path h sz)]) =
     (let (r, db') = CreateDocument p userID nm path h sz db
      in (db', [finish (map_sum (\<lambda>e. e) Created r) (open_session (p, CreateCall userID nm path h sz))]))"
  by (simp only: run_turns_solo solo_Save[OF refl] solo_Delete[OF refl] solo_CreateDocument[OF refl])
     (simp add: Let_def split: prod.split)

text \<open>C13: Uploads alone never deadlock: at every point of every interleaving of any number of
  uploads, as long as one has not returned there is one that can execute its next
  statement.\<close>

theorem uploads_never_deadlock:
  assumes "db_constraints db" and "sizes_ok db" and "usage_exact db" and "quota_ok db"
    and "\<forall>(p, c) \<in> set calls. \<exists>userID key h ct nm sz. c = SaveCall userID key h ct nm sz \<and> 0 \<le> sz"
    and "txn_step\<^sup>*\<^sup>* (db, map open_session calls) (db', ss)"
    and "i < length ss" and "\<not> ended (ss ! i)"
  shows "\<exists>j < length ss. \<not> ended (ss ! j) \<and> \<not> blocked db' ss j"
proof -
  have "accounts_but {} db" using assms(1-4) by (simp add: accounts_but_none accounts_ok_def meta_inv_def)
  moreover have "\<forall>(p, c) \<in> set calls. call_ok c \<and> (\<forall>u. creates_for p c u \<longrightarrow> u \<in> {})" using assms(5) by fastforce
  ultimately have "txn_ok accounts_but {} (db, map open_session calls)" by (rule accounts.txn_ok_start)
  moreover have "\<forall>s \<in> set (map open_session calls). upload_ok db s"
    using assms(5) by (fastforce simp: upload_ok_def open_session_def)
  ultimately have "uploads_ok (db, map open_session calls)" by (simp add: uploads_ok_def)
  from uploads_progress[OF uploads_ok_steps[OF assms(6) this] assms(7,8)] show ?thesis .
qed

theorem uploads_never_deadlock_witness:
  "\<exists>db ss. run_turns [0, 0, 1, 1] (demo_db, map open_session two_uploads) = (db, ss) \<and>
     length ss = 2 \<and> blocked db ss 1 \<and> (\<exists>j < length ss. \<not> ended (ss ! j) \<and> \<not> blocked db ss j)"
proof -
  let ?x = "run_turns [0, 0, 1, 1] (demo_db, map open_session two_uploads)"
  have run: "length (snd ?x) = 2" "blocked (fst ?x) (snd ?x) 1" "\<not> ended (snd ?x ! 1)" by code_simp+
  have steps: "txn_step\<^sup>*\<^sup>* (demo_db, map open_session two_uploads) (fst ?x, snd ?x)"
    unfolding prod.collapse by (rule run_turns_steps)
  have "\<forall>(p, c) \<in> set two_uploads. \<exists>userID key h ct nm sz. c = SaveCall userID key h ct nm sz \<and> 0 \<le> sz"
    by (simp add: two_uploads_def)
  from uploads_never_deadlock[OF demo_db_constraints demo_db_accounts this steps, of 1] run
  show ?thesis by (metis one_less_numeral_iff prod.collapse semiring_norm(76))
qed

section \<open>Where the locks do not suffice\<close>

text \<open>C4: An upload can be answered with an object that a concurrent deletion removes: while
  the last row of a content is being deleted, another user's upload of the same content
  finds it, waits for the deletion's commit, updates no row, and still inserts a row that
  names the object, as a duplicate that will not be stored again, although the deletion
  has been told to remove it.\<close>

theorem upload_joins_deleted_object:
  assumes "accounts_ok db" and "no_faults p" and "no_faults q"
    and f: "f \<in> set (files db)" "active f" "live db (SHA256 f) = [f]" "RefCount f \<le> 1"
    and p: "uuid_in p fileID = Some (file_ID f)" "uuid_in p owner = Some (file_UserID f)"
    and x: "x \<in> set (users db)" "uuid_in q userID = Some (user_ID x)" "user_ID x \<noteq> file_UserID f"
    and room: "int8_ok (StorageBytesUsed x + sz)" "StorageBytesUsed x + sz \<le> StorageQuotaBytes x"
    and fresh: "gen_uuid q \<notin> file_ID ` set (files db)"
    and big: "\<forall>y \<in> set (users db). int8_ok (StorageBytesUsed y)"
  shows "\<exists>db' s t g. txn_step\<^sup>*\<^sup>*
      (db, map open_session [(p, DeleteCall fileID owner), (q, SaveCall userID key (SHA256 f) ct nm sz)]) (db', [s, t]) \<and>
    ss_at s = Ended (Inr (Deleted \<lparr>res_ObjectKey = ObjectKey f, ShouldDeleteObject = True\<rparr>)) \<and>
    ss_at t = Ended (Inr (Saved \<lparr>File = g, Duplicate = True\<rparr>)) \<and>
    g \<in> set (files db') \<and> active g \<and> file_UserID g = user_ID x \<and> ObjectKey g = ObjectKey f"
proof -
  have m: "db_constraints db" using assms(1) by (simp add: accounts_ok_def meta_inv_def)
  let ?db1 = "seen [HardDelete (file_ID f), ReclaimUsage (file_UserID f) (Size f)] db"
  let ?g = "new_row q (user_ID x) (ObjectKey f) (SHA256 f) ct nm sz"
  let ?start = "(db, map open_session [(p, DeleteCall fileID owner), (q, SaveCall userID key (SHA256 f) ct nm sz)])"
  have x1: "x \<in> set (users ?db1)" using x(1,3) by (force simp: refund_def in_set_sql_update)
  have "int64 (StorageBytesUsed x + sz) \<le> StorageQuotaBytes x" using room by simp
  note s1 = both_found[OF assms(2,3) m f p x(1,2) this, of key ct nm]
  note s2 = deletion_commits[OF assms(2,1) f(1,2) p big x(3), of q "SaveCall userID key (SHA256 f) ct nm sz"]
  have "distinct (map user_ID (users ?db1))" using constraints_user_ids[OF m] by simp
  note s3 = upload_commits[OF assms(3) x1 x(2) room(1) this, where f = f and key = key and h = "SHA256 f" and ct = ct and nm = nm
      and fin = "finish (Inr (Deleted \<lparr>res_ObjectKey = ObjectKey f, ShouldDeleteObject = True\<rparr>)) (open_session (p, DeleteCall fileID owner))"]
  have "run_turns late_schedule ?start =
     (seen [InsertRow ?g, ChangeUsage (user_ID x) sz] ?db1,
      [finish (Inr (Deleted \<lparr>res_ObjectKey = ObjectKey f, ShouldDeleteObject = True\<rparr>)) (open_session (p, DeleteCall fileID owner)),
       finish (Inr (Saved \<lparr>File = ?g, Duplicate = True\<rparr>)) (open_session (q, SaveCall userID key (SHA256 f) ct nm sz))])"
    unfolding late_schedule_def run_turns_append s1 s2
    by (rule s3[OF _ _ _ _ refl]) (use fresh in \<open>auto simp: set_sql_delete ended_def\<close>)
  with run_turns_steps[of ?start late_schedule] have "txn_step\<^sup>*\<^sup>* ?start
     (seen [InsertRow ?g, ChangeUsage (user_ID x) sz] ?db1,
      [finish (Inr (Deleted \<lparr>res_ObjectKey = ObjectKey f, ShouldDeleteObject = True\<rparr>)) (open_session (p, DeleteCall fileID owner)),
       finish (Inr (Saved \<lparr>File = ?g, Duplicate = True\<rparr>)) (open_session (q, SaveCall userID key (SHA256 f) ct nm sz))])"
    by simp
  moreover have "?g \<in> set (files (seen [InsertRow ?g, ChangeUsage (user_ID x) sz] ?db1))" by simp
  moreover have "active ?g" "file_UserID ?g = user_ID x" "ObjectKey ?g = ObjectKey f"
    by (simp_all add: new_row_def active_def)
  ultimately show ?thesis using finish_sel(3) by blast
qed

definition last_db :: database where
  "last_db = empty_db\<lparr>users := [demo_user ''u1'' 5 100, demo_user ''u2'' 0 100], files := [demo_file ''f1'' ''u1'' 1]\<rparr>"

lemma last_db_accounts: "accounts_ok last_db"
  by (simp add: accounts_ok_def meta_inv_def db_constraints_def sizes_ok_def usage_exact_def quota_ok_def
      live_bytes_def doc_bytes_def active_def last_db_def demo_defs)

lemma demo_pg_no_faults: "no_faults (demo_pg i t)"
  by (simp add: no_faults_def demo_pg_def)

lemma last_db_file:
  "demo_file ''f1'' ''u1'' 1 \<in> set (files last_db)" "active (demo_file ''f1'' ''u1'' 1)"
  "live last_db (SHA256 (demo_file ''f1'' ''u1'' 1)) = [demo_file ''f1'' ''u1'' 1]" "RefCount (demo_file ''f1'' ''u1'' 1) \<le> 1"
  by (simp_all add: last_db_def demo_file_def active_def live_def)

theorem upload_joins_deleted_object_witness:
  "\<exists>db' s t g. txn_step\<^sup>*\<^sup>*
      (last_db, map open_session [(demo_pg ''x'' 5, DeleteCall ''f1'' ''u1''), (demo_pg ''f9'' 6, SaveCall ''u2'' ''k9'' ''aa'' ''ct'' ''c'' 5)])
      (db', [s, t]) \<and>
    ss_at s = Ended (Inr (Deleted \<lparr>res_ObjectKey = ''k'', ShouldDeleteObject = True\<rparr>)) \<and>
    ss_at t = Ended (Inr (Saved \<lparr>File = g, Duplicate = True\<rparr>)) \<and>
    g \<in> set (files db') \<and> active g \<and> file_UserID g = ''u2'' \<and> ObjectKey g = ''k''"
proof -
  have x: "demo_user ''u2'' 0 100 \<in> set (users last_db)" by (simp add: last_db_def)
  have f: "SHA256 (demo_file ''f1'' ''u1'' 1) = ''aa''" "ObjectKey (demo_file ''f1'' ''u1'' 1) = ''k''"
    "file_ID (demo_file ''f1'' ''u1'' 1) = ''f1''" "file_UserID (demo_file ''f1'' ''u1'' 1) = ''u1''"
    "user_ID (demo_user ''u2'' 0 100) = ''u2''" "StorageBytesUsed (demo_user ''u2'' 0 100) = 0"
    "StorageQuotaBytes (demo_user ''u2'' 0 100) = 100"
    by (simp_all add: demo_file_def demo_user_def)
  have fresh: "gen_uuid (demo_pg ''f9'' 6) \<notin> file_ID ` set (files last_db)" by (simp add: last_db_def demo_file_def)
  have big: "\<forall>y \<in> set (users last_db). int8_ok (StorageBytesUsed y)" by (simp add: last_db_def demo_user_def int8_ok_def)
  show ?thesis
    using upload_joins_deleted_object[OF last_db_accounts demo_pg_no_faults[of "''x''" 5] demo_pg_no_faults
        last_db_file _ _ x _ _ _ _ fresh big, where fileID = "''f1''" and owner = "''u1''" and userID = "''u2''"
        and sz = 5 and key = "''k9''" and ct = "''ct''" and nm = "''c''"]
    by (simp add: f int8_ok_def)
qed

text \<open>C14: Save and Delete take their row locks in opposite orders: a user's upload of a
  content whose canonical row the same user is deleting can deadlock with the deletion,
  each waiting for the other; only the server's cancellation ends it, and one of the two
  requests fails.\<close>

theorem upload_deletion_deadlock:
  assumes "accounts_ok db" and "no_faults p" and "no_faults q"
    and f: "f \<in> set (files db)" "active f" "live db (SHA256 f) = [f]" "RefCount f \<le> 1"
    and p: "uuid_in p fileID = Some (file_ID f)" "uuid_in p userID = Some (file_UserID f)"
    and x: "x \<in> set (users db)" "uuid_in q userID = Some (user_ID x)" "user_ID x = file_UserID f"
    and room: "int64 (StorageBytesUsed x + sz) \<le> StorageQuotaBytes x"
  shows "\<exists>db' s t. txn_step\<^sup>*\<^sup>*
      (db, map open_session [(p, DeleteCall fileID userID), (q, SaveCall userID key (SHA256 f) ct nm sz)]) (db', [s, t]) \<and>
    \<not> ended s \<and> \<not> ended t \<and> blocked_by db' [s, t] 0 1 \<and> blocked_by db' [s, t] 1 0"
proof -
  have m: "db_constraints db" using assms(1) by (simp add: accounts_ok_def meta_inv_def)
  let ?start = "(db, map open_session [(p, DeleteCall fileID userID), (q, SaveCall userID key (SHA256 f) ct nm sz)])"
  let ?s = "\<lparr>ss_pg = p, ss_call = DeleteCall fileID userID, ss_at = Reclaim f True, ss_writes = [HardDelete (file_ID f)],
             ss_locks = [FileRow (file_ID f), FileRow (file_ID f)]\<rparr>"
  let ?t = "\<lparr>ss_pg = q, ss_call = SaveCall userID key (SHA256 f) ct nm sz, ss_at = IncrRef f, ss_writes = [],
             ss_locks = [UserRow (user_ID x)]\<rparr>"
  have run: "run_turns ([0, 0, 0, 1, 1, 1] @ [0]) ?start = (db, [?s, ?t])"
    unfolding run_turns_append both_found[OF assms(2,3) m f p x(1,2) room] by (rule deletion_waits[OF assms(2) f(1)])
  have "txn_step\<^sup>*\<^sup>* ?start (db, [?s, ?t])"
    using run_turns_steps[of ?start "[0, 0, 0, 1, 1, 1] @ [0]"] unfolding run .
  moreover have "\<not> ended ?s" "\<not> ended ?t" by (simp_all add: ended_def)
  moreover have "file_UserID f \<in> user_ID ` set (users db)" "file_ID f \<in> file_ID ` set (files db)"
    using constraints_fk(1)[OF m f(1)] f(1) by auto
  then have "blocked_by db [?s, ?t] 0 1" "blocked_by db [?s, ?t] 1 0"
    using p(2) x(3) by (simp_all add: blocked_by_def wants_def user_row_def)
  ultimately show ?thesis by blast
qed

theorem upload_deletion_deadlock_witness:
  "\<exists>db' s t. txn_step\<^sup>*\<^sup>*
      (last_db, map open_session [(demo_pg ''x'' 5, DeleteCall ''f1'' ''u1''), (demo_pg ''f9'' 6, SaveCall ''u1'' ''k9'' ''aa'' ''ct'' ''c'' 5)])
      (db', [s, t]) \<and>
    \<not> ended s \<and> \<not> ended t \<and> blocked_by db' [s, t] 0 1 \<and> blocked_by db' [s, t] 1 0"
proof -
  have x: "demo_user ''u1'' 5 100 \<in> set (users last_db)" by (simp add: last_db_def)
  have "SHA256 (demo_file ''f1'' ''u1'' 1) = ''aa''" "file_ID (demo_file ''f1'' ''u1'' 1) = ''f1''"
    "file_UserID (demo_file ''f1'' ''u1'' 1) = ''u1''" "user_ID (demo_user ''u1'' 5 100) = ''u1''"
    "StorageBytesUsed (demo_user ''u1'' 5 100) = 5" "StorageQuotaBytes (demo_user ''u1'' 5 100) = 100"
    by (simp_all add: demo_file_def demo_user_def)
  then show ?thesis
    using upload_deletion_deadlock[OF last_db_accounts demo_pg_no_faults[of "''x''" 5] demo_pg_no_faults[of "''f9''" 6]
        last_db_file _ _ x, where fileID = "''f1''" and userID = "''u1''" and sz = 5 and key = "''k9''" and ct = "''ct''"
        and nm = "''c''"]
    by (simp add: int8_ok_def)
qed

text \<open>Two first uploads of one content can both insert a canonical row, under two object keys:
  the index on the hash is not unique.\<close>

definition first_uploads :: "(pg \<times> call) list" where
  "first_uploads = [(demo_pg ''f8'' 8, SaveCall ''u1'' ''k8'' ''bb'' ''ct'' ''b'' 5),
                    (demo_pg ''f9'' 9, SaveCall ''u2'' ''k9'' ''bb'' ''ct'' ''c'' 5)]"

theorem first_uploads_not_deduplicated:
  "\<exists>db' ss. txn_step\<^sup>*\<^sup>* (demo_db, map open_session first_uploads) (db', ss) \<and>
     map ended ss = [True, True] \<and> map ObjectKey (live db' ''bb'') = [''k8'', ''k9'']"
proof -
  let ?x = "run_turns ([0, 0, 0, 1, 1, 1] @ [0, 0, 0] @ [1, 1, 1]) (demo_db, map open_session first_uploads)"
  have "map ended (snd ?x) = [True, True]" "map ObjectKey (live (fst ?x) ''bb'') = [''k8'', ''k9'']" by code_simp+
  moreover have "txn_step\<^sup>*\<^sup>* (demo_db, map open_session first_uploads) (fst ?x, snd ?x)"
    unfolding prod.collapse by (rule run_turns_steps)
  ultimately show ?thesis by (intro exI[of _ "fst ?x"] exI[of _ "snd ?x"] conjI)
qed

end
