(* ===== verification/WorkerServer.thy ===== *)
theory WorkerServer
  imports ProcessorClaims "HOL-Library.Product_Lexorder"
begin

text \<open>
  The worker server of \<open>worker/worker.go\<close>: what it gives to the queue library, the routing of
  tasks to the two handlers, and the server's steps; with the properties of tasks across
  attempts: where they are routed, that the server comes to rest, and what an attempt that
  fails before one that succeeds leaves behind. The queue library is a parameter, with what
  the program relies on as the predicates \<open>asynq_queues\<close>, \<open>asynq_routes\<close>,
  \<open>asynq_retries\<close> and \<open>queue_client\<close>.
\<close>

section \<open>Configuration\<close>

text \<open>\<open>log.Fatalf\<close>: the process ends with a message and the error.\<close>

datatype exit = Fatal string go_error

text \<open>\<open>ServerConfig\<close>, and what the library's constructors take.\<close>

record server_config =
  sc_RedisAddr :: string
  sc_RedisPassword :: string
  sc_Concurrency :: int

record redis_client_opt =
  ro_Addr :: string
  ro_Password :: string

record asynq_config =
  ac_Concurrency :: int
  ac_Queues :: "(string \<times> int) list"

definition NewClient :: "(redis_client_opt \<Rightarrow> 'q asynq_client) \<Rightarrow> string \<Rightarrow> string \<Rightarrow> 'q asynq_client" where
  "NewClient new_client redisAddr redisPassword = new_client \<lparr>ro_Addr = redisAddr, ro_Password = redisPassword\<rparr>"

definition worker_config :: "server_config \<Rightarrow> asynq_config" where
  "worker_config cfg =
     \<lparr>ac_Concurrency = sc_Concurrency cfg, ac_Queues = [(''critical'', 6), (''default'', 3), (''low'', 1)]\<rparr>"

text \<open>The multiplexer, as the handlers registered with it in order.\<close>

datatype task_handler = ExtractHandler | WebhookHandler

type_synonym mux = "(string \<times> task_handler) list"

definition worker_mux :: mux where
  "worker_mux = [(TypeExtractPages, ExtractHandler), (TypeFireWebhook, WebhookHandler)]"

text \<open>\<open>run\<close> is the library's \<open>Run\<close> of a server; it blocks, and its error ends the process.\<close>

definition StartWorker ::
  "(redis_client_opt \<Rightarrow> asynq_config \<Rightarrow> mux \<Rightarrow> go_error option) \<Rightarrow> server_config \<Rightarrow> exit option" where
  "StartWorker run cfg =
     (case run \<lparr>ro_Addr = sc_RedisAddr cfg, ro_Password = sc_RedisPassword cfg\<rparr> (worker_config cfg) worker_mux of
        None \<Rightarrow> None
      | Some e \<Rightarrow> Some (Fatal ''[worker] server error'' e))"

section \<open>The queue library\<close>

text \<open>A task as the queue keeps it, and the queue. The library is a record: what it keeps of an
  enqueued task with its options, the handler that a multiplexer finds for a task type, the
  error when there is none, and what becomes of a task whose attempt has failed: it is
  pending again, or archived.\<close>

record message =
  msg_task :: task
  msg_queue :: string
  msg_retry :: int
  msg_retried :: int

record task_queue =
  pending :: "message list"
  archived :: "message list"

record asynq_lib =
  aq_message :: "task \<Rightarrow> task_option list \<Rightarrow> message"
  aq_Handler :: "mux \<Rightarrow> string \<Rightarrow> task_handler option"
  aq_NotFound :: "task \<Rightarrow> go_error"
  aq_retry :: "message \<Rightarrow> message option"

text \<open>What its documentation says. The option \<open>Queue\<close> names the queue, and without it a task
  goes to \<open>default\<close>; a registered pattern that is the type itself is chosen; a failed task is
  tried again as it is, at most as often as its maximum says.\<close>

definition chosen_queue :: "task_option list \<Rightarrow> string" where
  "chosen_queue opts = fold (\<lambda>opt n. case opt of Queue n' \<Rightarrow> n' | _ \<Rightarrow> n) opts ''default''"

definition asynq_queues :: "asynq_lib \<Rightarrow> bool" where
  "asynq_queues L \<longleftrightarrow> (\<forall>t opts. msg_task (aq_message L t opts) = t \<and> msg_queue (aq_message L t opts) = chosen_queue opts)"

definition asynq_routes :: "asynq_lib \<Rightarrow> bool" where
  "asynq_routes L \<longleftrightarrow> (\<forall>es typ h. map_of es typ = Some h \<longrightarrow> aq_Handler L es typ = Some h)"

definition asynq_retries :: "asynq_lib \<Rightarrow> bool" where
  "asynq_retries L \<longleftrightarrow>
     (\<forall>m m'. aq_retry L m = Some m' \<longrightarrow> m' = m\<lparr>msg_retried := msg_retried m + 1\<rparr> \<and> msg_retried m < msg_retry m)"

text \<open>Enqueueing fails and changes nothing, or adds the task.\<close>

definition queue_client :: "asynq_lib \<Rightarrow> task_queue asynq_client \<Rightarrow> bool" where
  "queue_client L aq \<longleftrightarrow>
     (\<forall>t opts q r q'. aq_Enqueue aq t opts q = (r, q') \<longrightarrow>
        q' = (case r of Inl e \<Rightarrow> q | Inr _ \<Rightarrow> q\<lparr>pending := pending q @ [aq_message L t opts]\<rparr>))"

section \<open>The server\<close>

text \<open>What one attempt meets: the environment of the worker, the storage, the database server
  and the schedule of the page goroutines, the clock, and the client of the queue.\<close>

record 's attempt_env =
  at_worker :: worker_env
  at_storage :: "'s storage"
  at_pg :: pg
  at_schedule :: "nat \<Rightarrow> nat \<times> pg"
  at_clock :: time
  at_client :: "task_queue asynq_client"

text \<open>\<open>sent\<close> are the requests that the webhook deliveries have made.\<close>

record 's worker_state =
  wk_store :: 's
  wk_db :: database
  wk_queue :: task_queue
  sent :: "(string \<times> (string \<times> string) list \<times> bytes) list"

definition ProcessTask ::
  "asynq_lib \<Rightarrow> 's attempt_env \<Rightarrow> task \<Rightarrow> 's worker_state \<Rightarrow> go_error option \<times> 's worker_state" where
  "ProcessTask L E t x =
     (case aq_Handler L worker_mux (task_Type t) of
        None \<Rightarrow> (Some (aq_NotFound L t), x)
      | Some ExtractHandler \<Rightarrow>
          (let (r, s, db, q) = HandleExtractPages (at_worker E) (at_storage E) (at_client E) (at_pg E)
                 (at_schedule E) t (wk_store x, wk_db x, wk_queue x)
           in (r, x\<lparr>wk_store := s, wk_db := db, wk_queue := q\<rparr>))
      | Some WebhookHandler \<Rightarrow>
          (let (r, req) = HandleFireWebhook (at_worker E) (at_clock E) t
           in (r, case req of None \<Rightarrow> x | Some req \<Rightarrow> x\<lparr>sent := sent x @ [req]\<rparr>)))"

text \<open>The server takes a pending task and runs its handler. A nil result is the task's end;
  after an error, which \<open>ErrorHandler\<close> only logs, it is tried again or archived.\<close>

definition drop_nth :: "nat \<Rightarrow> 'a list \<Rightarrow> 'a list" where
  "drop_nth k xs = take k xs @ drop (Suc k) xs"

definition put_back :: "asynq_lib \<Rightarrow> message \<Rightarrow> task_queue \<Rightarrow> task_queue" where
  "put_back L m q =
     (case aq_retry L m of
        None \<Rightarrow> q\<lparr>archived := archived q @ [m]\<rparr>
      | Some m' \<Rightarrow> q\<lparr>pending := pending q @ [m']\<rparr>)"

definition serve_message :: "asynq_lib \<Rightarrow> 's attempt_env \<Rightarrow> nat \<Rightarrow> 's worker_state \<Rightarrow> 's worker_state" where
  "serve_message L E k x =
     (let m = pending (wk_queue x) ! k;
          x = x\<lparr>wk_queue := (wk_queue x)\<lparr>pending := drop_nth k (pending (wk_queue x))\<rparr>\<rparr>
      in case ProcessTask L E (msg_task m) x of
           (None, x) \<Rightarrow> x
         | (Some e, x) \<Rightarrow> x\<lparr>wk_queue := put_back L m (wk_queue x)\<rparr>)"

inductive serve_step :: "asynq_lib \<Rightarrow> 's worker_state \<Rightarrow> 's worker_state \<Rightarrow> bool" for L where
  serve: "k < length (pending (wk_queue x)) \<Longrightarrow> queue_client L (at_client E) \<Longrightarrow> serve_step L x (serve_message L E k x)"

section \<open>What an attempt does to the queue\<close>

lemma worker_mux_handler:
  assumes "asynq_routes L"
  shows "aq_Handler L worker_mux TypeExtractPages = Some ExtractHandler"
    and "aq_Handler L worker_mux TypeFireWebhook = Some WebhookHandler"
proof -
  have "map_of worker_mux TypeExtractPages = Some ExtractHandler" "map_of worker_mux TypeFireWebhook = Some WebhookHandler"
    by (simp_all add: worker_mux_def TypeExtractPages_def TypeFireWebhook_def)
  with assms show "aq_Handler L worker_mux TypeExtractPages = Some ExtractHandler"
    "aq_Handler L worker_mux TypeFireWebhook = Some WebhookHandler"
    by (simp_all add: asynq_routes_def)
qed

text \<open>It adds webhook tasks only, in the default queue.\<close>

definition webhook_message :: "message \<Rightarrow> bool" where
  "webhook_message m \<longleftrightarrow> task_Type (msg_task m) = TypeFireWebhook \<and> msg_queue m = ''default''"

definition adds_webhooks :: "task_queue \<Rightarrow> task_queue \<Rightarrow> bool" where
  "adds_webhooks q q' \<longleftrightarrow> (\<exists>ms. q' = q\<lparr>pending := pending q @ ms\<rparr> \<and> list_all webhook_message ms)"

lemma adds_webhooks_refl: "adds_webhooks q q"
  unfolding adds_webhooks_def by (rule exI[of _ "[]"]) simp

lemma adds_webhooks_trans: "adds_webhooks q1 q2 \<Longrightarrow> adds_webhooks q2 q3 \<Longrightarrow> adds_webhooks q1 q3"
  unfolding adds_webhooks_def by (elim exE conjE, rule_tac x = "ms @ msa" in exI) auto

lemma enqueue_cases:
  assumes client: "queue_client L aq"
  shows "snd (aq_Enqueue aq t opts q) = q \<or> snd (aq_Enqueue aq t opts q) = q\<lparr>pending := pending q @ [aq_message L t opts]\<rparr>"
proof -
  obtain r q' where e: "aq_Enqueue aq t opts q = (r, q')" by fastforce
  with client have "q' = (case r of Inl e \<Rightarrow> q | Inr _ \<Rightarrow> q\<lparr>pending := pending q @ [aq_message L t opts]\<rparr>)"
    unfolding queue_client_def by blast
  with e show ?thesis by (cases r) auto
qed

lemma enqueue_hook_adds:
  assumes "asynq_queues L" and "queue_client L aq"
  shows "adds_webhooks q (snd (aq_Enqueue aq (hook_task docID status n h) [MaxRetry i, Timeout d] q))"
proof -
  have "webhook_message (aq_message L (hook_task docID status n h) [MaxRetry i, Timeout d])"
    using assms(1) by (simp add: asynq_queues_def webhook_message_def chosen_queue_def hook_task_def TypeFireWebhook_def)
  with enqueue_cases[OF assms(2), of "hook_task docID status n h" "[MaxRetry i, Timeout d]" q] show ?thesis
    by (auto simp: adds_webhooks_refl) (auto simp: adds_webhooks_def)
qed

lemma enqueueWebhooks_adds:
  assumes "asynq_queues L" and "queue_client L aq"
  shows "adds_webhooks q (enqueueWebhooks aq p docID status n db q)"
proof -
  have "adds_webhooks q (fold (\<lambda>h q. snd (aq_Enqueue aq (hook_task docID status n h) [MaxRetry 3, Timeout (10 * second)] q)) hooks q)"
    for hooks
    by (induction hooks arbitrary: q) (auto intro: adds_webhooks_refl adds_webhooks_trans enqueue_hook_adds[OF assms])
  then show ?thesis
    by (auto simp: enqueueWebhooks_def enqueue_hooks_fold adds_webhooks_refl split: sum.splits)
qed

lemma worker_fail_adds:
  assumes "asynq_queues L" and "queue_client L aq" and "worker_fail aq p docID e (s, db, q) = (r, s', db', q')"
  shows "adds_webhooks q q'"
  using assms(3) by (auto simp: worker_fail_def enqueueWebhooks_adds[OF assms(1,2)] split: prod.splits)

lemma HandleExtractPages_adds:
  assumes lib: "asynq_queues L" "queue_client L aq"
    and run: "HandleExtractPages W st aq p ch t (s, db, q) = (r, s', db', q')"
  shows "adds_webhooks q q'"
proof (cases "unmarshal_extract (task_Payload t)")
  case (Inl e)
  with run show ?thesis by (simp add: HandleExtractPages_def adds_webhooks_refl)
next
  case (Inr payload)
  from run Inr refl show ?thesis
    by (cases rule: HandleExtractPages_ends) (auto intro: worker_fail_adds[OF lib] enqueueWebhooks_adds[OF lib] adds_webhooks_refl)
qed

lemma ProcessTask_adds:
  assumes "asynq_queues L" and "queue_client L (at_client E)" and "ProcessTask L E t x = (r, y)"
  shows "adds_webhooks (wk_queue x) (wk_queue y)"
  using assms(3)
  by (auto simp: ProcessTask_def adds_webhooks_refl split: option.splits task_handler.splits prod.splits
      dest!: HandleExtractPages_adds[OF assms(1,2)])

text \<open>What is pending after a step: the other tasks, the webhook tasks that the attempt added,
  and the task itself with one attempt less, or nothing.\<close>

definition extracts :: "asynq_lib \<Rightarrow> message \<Rightarrow> bool" where
  "extracts L m \<longleftrightarrow> aq_Handler L worker_mux (task_Type (msg_task m)) = Some ExtractHandler"

lemma serve_pending:
  fixes x :: "'s worker_state" and k :: nat
  assumes "asynq_queues L" and "asynq_retries L" and "queue_client L (at_client E)"
  defines "m \<equiv> pending (wk_queue x) ! k"
  obtains ms again where "pending (wk_queue (serve_message L E k x)) = drop_nth k (pending (wk_queue x)) @ ms @ again"
    and "list_all webhook_message ms"
    and "extracts L m \<or> ms = []"
    and "again = [] \<or> msg_retried m < msg_retry m \<and> again = [m\<lparr>msg_retried := msg_retried m + 1\<rparr>]"
    and "archived (wk_queue (serve_message L E k x)) = archived (wk_queue x) \<or>
      archived (wk_queue (serve_message L E k x)) = archived (wk_queue x) @ [m]"
proof -
  let ?x = "x\<lparr>wk_queue := (wk_queue x)\<lparr>pending := drop_nth k (pending (wk_queue x))\<rparr>\<rparr>"
  obtain r y where run: "ProcessTask L E (msg_task m) ?x = (r, y)" by fastforce
  from ProcessTask_adds[OF assms(1,3) run] obtain ms where
    ms: "wk_queue y = (wk_queue ?x)\<lparr>pending := drop_nth k (pending (wk_queue x)) @ ms\<rparr>" "list_all webhook_message ms"
    by (auto simp: adds_webhooks_def)
  have none: "ms = []" if "\<not> extracts L m"
  proof -
    have "wk_queue y = wk_queue ?x"
      using run that by (auto simp: ProcessTask_def extracts_def split: option.splits task_handler.splits prod.splits)
    from arg_cong[OF this, of pending] ms(1) show ?thesis by simp
  qed
  have q: "wk_queue (serve_message L E k x) = (if r = None then wk_queue y else put_back L m (wk_queue y))"
    using run by (simp add: serve_message_def m_def Let_def split: option.split)
  show thesis
  proof (cases "r = None \<or> aq_retry L m = None")
    case True
    with q ms none show thesis by (intro that[of ms "[]"]) (auto simp: put_back_def)
  next
    case False
    then obtain m' where m': "aq_retry L m = Some m'" and r: "r \<noteq> None" by auto
    then have "m' = m\<lparr>msg_retried := msg_retried m + 1\<rparr>" "msg_retried m < msg_retry m"
      using assms(2) by (auto simp: asynq_retries_def)
    with q ms none m' r show thesis by (intro that[of ms "[m']"]) (auto simp: put_back_def)
  qed
qed

section \<open>The server comes to rest\<close>

text \<open>The attempts that are left: of extraction tasks, and of the others. An attempt of the
  first kind may add tasks of the second.\<close>

definition attempts_left :: "message \<Rightarrow> nat" where
  "attempts_left m = nat (msg_retry m - msg_retried m) + 1"

definition work :: "(message \<Rightarrow> bool) \<Rightarrow> 's worker_state \<Rightarrow> nat" where
  "work P x = (\<Sum>m\<leftarrow>pending (wk_queue x). if P m then attempts_left m else 0)"

lemma webhook_not_extracts: "asynq_routes L \<Longrightarrow> webhook_message m \<Longrightarrow> \<not> extracts L m"
  by (simp add: extracts_def webhook_message_def worker_mux_handler)

lemma sum_drop_nth:
  fixes f :: "'a \<Rightarrow> nat"
  assumes "k < length xs"
  shows "(\<Sum>x\<leftarrow>xs. f x) = f (xs ! k) + (\<Sum>x\<leftarrow>drop_nth k xs. f x)"
proof -
  have "(\<Sum>x\<leftarrow>xs. f x) = (\<Sum>x\<leftarrow>take k xs @ xs ! k # drop (Suc k) xs. f x)"
    using id_take_nth_drop[OF assms] by simp
  then show ?thesis by (simp add: drop_nth_def)
qed

lemma serve_decreases:
  assumes lib: "asynq_queues L" "asynq_routes L" "asynq_retries L" and "serve_step L x y"
  shows "(work (extracts L) y, work (\<lambda>m. \<not> extracts L m) y) < (work (extracts L) x, work (\<lambda>m. \<not> extracts L m) x)"
  using assms(4)
proof cases
  case (serve k E)
  let ?q = "pending (wk_queue x)"
  from lib(1,3) serve(3) show ?thesis
  proof (rule serve_pending[of L E k x])
    fix ms again
    assume y: "pending (wk_queue (serve_message L E k x)) = drop_nth k ?q @ ms @ again"
      and ms: "list_all webhook_message ms"
      and none: "extracts L (?q ! k) \<or> ms = []"
      and again: "again = [] \<or> msg_retried (?q ! k) < msg_retry (?q ! k) \<and>
        again = [(?q ! k)\<lparr>msg_retried := msg_retried (?q ! k) + 1\<rparr>]"
    have zero: "(\<Sum>m\<leftarrow>ms. if extracts L m then attempts_left m else 0) = 0"
      using ms by (induction ms) (auto simp: webhook_not_extracts[OF lib(2)])
    have same: "extracts L (m\<lparr>msg_retried := n\<rparr>) = extracts L m" for m n by (simp add: extracts_def)
    show ?thesis
      using again none sum_drop_nth[OF serve(2), of "\<lambda>m. if extracts L m then attempts_left m else 0"]
        sum_drop_nth[OF serve(2), of "\<lambda>m. if \<not> extracts L m then attempts_left m else 0"]
      by (cases "extracts L (?q ! k)")
         (auto simp: serve(1) work_def y zero same attempts_left_def less_prod_def)
  qed
qed

section \<open>Where tasks go\<close>

text \<open>The queue of the running program: uploads enqueue their tasks, and the server serves.\<close>

inductive queue_step :: "asynq_lib \<Rightarrow> 's worker_state \<Rightarrow> 's worker_state \<Rightarrow> bool" for L where
  upload: "queue_client L aq \<Longrightarrow> EnqueueTask (AsynqEnqueuer aq) docID userID (wk_queue x) = (r, q) \<Longrightarrow>
     queue_step L x (x\<lparr>wk_queue := q\<rparr>)"
| serve: "serve_step L x y \<Longrightarrow> queue_step L x y"
| other: "wk_queue y = wk_queue x \<Longrightarrow> queue_step L x y"

definition program_task :: "message \<Rightarrow> bool" where
  "program_task m \<longleftrightarrow> msg_queue m = ''default'' \<and> task_Type (msg_task m) \<in> {TypeExtractPages, TypeFireWebhook}"

lemma program_task_upload:
  assumes "asynq_queues L" and client: "queue_client L aq" and "EnqueueTask (AsynqEnqueuer aq) docID userID q = (r, q')"
  shows "q' = q \<or> (\<exists>m. q' = q\<lparr>pending := pending q @ [m]\<rparr> \<and> program_task m)"
proof -
  obtain t where t: "NewExtractPagesTask docID userID = Inr t" "task_Type t = TypeExtractPages"
    by (simp add: NewExtractPagesTask_def)
  then have "q' = snd (aq_Enqueue aq t [Queue ''default''] q)"
    using assms(3) by (simp add: AsynqEnqueuer_def asynq_EnqueueTask_def)
  moreover have "program_task (aq_message L t [Queue ''default''])"
    using assms(1) t by (simp add: program_task_def asynq_queues_def chosen_queue_def)
  ultimately show ?thesis using enqueue_cases[OF client, of t "[Queue ''default'']" q] by auto
qed

lemma program_task_webhook: "webhook_message m \<Longrightarrow> program_task m"
  by (simp add: program_task_def webhook_message_def)

lemma set_drop_nth: "set (drop_nth k xs) \<subseteq> set xs"
  by (auto simp: drop_nth_def dest: in_set_takeD in_set_dropD)

lemma program_tasks_step:
  assumes lib: "asynq_queues L" "asynq_retries L" and "queue_step L x y"
    and ok: "\<forall>m \<in> set (pending (wk_queue x) @ archived (wk_queue x)). program_task m"
  shows "\<forall>m \<in> set (pending (wk_queue y) @ archived (wk_queue y)). program_task m"
  using assms(3)
proof cases
  case (upload aq docID userID r q)
  from program_task_upload[OF lib(1) upload(2,3)] ok show ?thesis by (auto simp: upload(1))
next
  case serve
  from serve show ?thesis
  proof cases
    case (serve k E)
    let ?m = "pending (wk_queue x) ! k"
    have m: "program_task ?m" using ok serve(2) by simp
    then have again: "program_task (?m\<lparr>msg_retried := n\<rparr>)" for n by (simp add: program_task_def)
    from lib serve(3) show ?thesis
    proof (rule serve_pending[of L E k x])
      fix ms ag
      assume "pending (wk_queue (serve_message L E k x)) = drop_nth k (pending (wk_queue x)) @ ms @ ag"
        and "list_all webhook_message ms"
        and "ag = [] \<or> msg_retried ?m < msg_retry ?m \<and> ag = [?m\<lparr>msg_retried := msg_retried ?m + 1\<rparr>]"
        and "archived (wk_queue (serve_message L E k x)) = archived (wk_queue x) \<or>
          archived (wk_queue (serve_message L E k x)) = archived (wk_queue x) @ [?m]"
      then show ?thesis
        using ok m again set_drop_nth[of k "pending (wk_queue x)"] program_task_webhook
        by (auto simp: serve(1) list_all_iff)
    qed
  qed
next
  case other
  with ok show ?thesis by simp
qed

section \<open>A library that keeps to its documentation\<close>

fun apply_option :: "task_option \<Rightarrow> message \<Rightarrow> message" where
  "apply_option (Queue n) m = m\<lparr>msg_queue := n\<rparr>"
| "apply_option (MaxRetry n) m = m\<lparr>msg_retry := max 0 n\<rparr>"
| "apply_option (Timeout d) m = m"

definition demo_lib :: asynq_lib where
  "demo_lib = \<lparr>
     aq_message = (\<lambda>t opts. fold apply_option opts \<lparr>msg_task = t, msg_queue = ''default'', msg_retry = 25, msg_retried = 0\<rparr>),
     aq_Handler = map_of,
     aq_NotFound = (\<lambda>t. Opaque (''handler not found for task '' @ task_Type t)),
     aq_retry = (\<lambda>m. if msg_retry m \<le> msg_retried m then None else Some (m\<lparr>msg_retried := msg_retried m + 1\<rparr>))\<rparr>"

lemma apply_options:
  "msg_task (fold apply_option opts m) = msg_task m"
  "msg_queue (fold apply_option opts m) = fold (\<lambda>opt n. case opt of Queue n' \<Rightarrow> n' | _ \<Rightarrow> n) opts (msg_queue m)"
proof (induction opts arbitrary: m)
  case (Cons opt opts)
  { case 1 show ?case using Cons(1) by (cases opt) simp_all }
  { case 2 show ?case using Cons(2) by (cases opt) simp_all }
qed simp_all

lemma demo_lib: "asynq_queues demo_lib" "asynq_routes demo_lib" "asynq_retries demo_lib"
  by (simp_all add: asynq_queues_def asynq_routes_def asynq_retries_def demo_lib_def apply_options chosen_queue_def)

definition demo_client :: "task_queue asynq_client" where
  "demo_client = \<lparr>aq_Enqueue = (\<lambda>t opts q. (Inr (), q\<lparr>pending := pending q @ [aq_message demo_lib t opts]\<rparr>))\<rparr>"

lemma demo_client: "queue_client demo_lib demo_client"
  by (auto simp: queue_client_def demo_client_def)

text \<open>An upload's task, served: the extraction succeeds and leaves the task of the webhook.\<close>

definition demo_attempt :: "mock_storage attempt_env" where
  "demo_attempt = \<lparr>at_worker = demo_worker 1, at_storage = minio_as_storage demo_minio, at_pg = demo_pg ''x'' 7,
     at_schedule = demo_schedule, at_clock = 9, at_client = demo_client\<rparr>"

definition idle_worker :: "mock_storage worker_state" where
  "idle_worker = \<lparr>wk_store = mock_with (\<lambda>_. None), wk_db = worker_db, wk_queue = \<lparr>pending = [], archived = []\<rparr>, sent = []\<rparr>"

definition busy_worker :: "mock_storage worker_state" where
  "busy_worker = idle_worker\<lparr>wk_queue := snd (EnqueueTask (AsynqEnqueuer (NewClient (\<lambda>_. demo_client) ''redis'' '''')) ''d1'' ''u1'' (wk_queue idle_worker))\<rparr>"

lemma demo_client_attempt: "queue_client demo_lib (at_client demo_attempt)"
  by (simp add: demo_attempt_def demo_client)

lemma busy_pending: "length (pending (wk_queue busy_worker)) = 1"
  by code_simp

lemma demo_serve: "serve_step demo_lib busy_worker (serve_message demo_lib demo_attempt 0 busy_worker)"
  using busy_pending demo_client_attempt by (intro serve_step.serve) simp_all

lemma demo_queue_steps: "(queue_step demo_lib)\<^sup>*\<^sup>* idle_worker (serve_message demo_lib demo_attempt 0 busy_worker)"
proof -
  have "queue_step demo_lib idle_worker busy_worker"
    unfolding busy_worker_def NewClient_def by (rule queue_step.upload[OF demo_client prod.collapse[symmetric]])
  moreover have "queue_step demo_lib busy_worker (serve_message demo_lib demo_attempt 0 busy_worker)"
    by (rule queue_step.serve[OF demo_serve])
  ultimately show ?thesis by (meson converse_rtranclp_into_rtranclp r_into_rtranclp)
qed

section \<open>Properties\<close>

text \<open>C11: The worker server comes to rest: whatever its attempts meet, there is no endless run
  of the server on the tasks that it has and those that they enqueue, since every failed
  attempt uses up a retry and only extraction tasks, of which none is added, enqueue
  others.\<close>

theorem worker_drains:
  assumes "asynq_queues L" and "asynq_routes L" and "asynq_retries L"
  shows "wfP (\<lambda>y x :: 's worker_state. serve_step L x y)"
proof (rule wfp_if_convertible_to_wfp[OF wfp_on_less])
  fix y x :: "'s worker_state"
  assume "serve_step L x y"
  then show "(work (extracts L) y, work (\<lambda>m. \<not> extracts L m) y) < (work (extracts L) x, work (\<lambda>m. \<not> extracts L m) x)"
    by (rule serve_decreases[OF assms])
qed

theorem worker_drains_witness:
  "serve_step demo_lib busy_worker (serve_message demo_lib demo_attempt 0 busy_worker) \<and>
     \<not> serve_step demo_lib (serve_message demo_lib demo_attempt 0 busy_worker) busy_worker"
  using demo_serve wfp_imp_asymp[OF worker_drains[OF demo_lib]] by (auto dest: asympD)

text \<open>C16: Every task that the program ever has in its queues, waiting or archived, is in the
  queue \<open>default\<close>, webhooks included, so the server's queues \<open>critical\<close> and \<open>low\<close> stay empty
  and their weights decide nothing; the server serves that queue, and has a handler for
  every task, the extraction and the webhook delivery each for its own type.\<close>

theorem tasks_in_default_queue:
  assumes "asynq_queues L" and "asynq_routes L" and "asynq_retries L"
    and "(queue_step L)\<^sup>*\<^sup>* x y" and "pending (wk_queue x) = []" and "archived (wk_queue x) = []"
    and "m \<in> set (pending (wk_queue y)) \<union> set (archived (wk_queue y))"
  shows "msg_queue m = ''default'' \<and> ''default'' \<in> fst ` set (ac_Queues (worker_config cfg)) \<and>
    aq_Handler L worker_mux (task_Type (msg_task m)) =
      Some (if task_Type (msg_task m) = TypeExtractPages then ExtractHandler else WebhookHandler)"
proof -
  have "\<forall>m \<in> set (pending (wk_queue y) @ archived (wk_queue y)). program_task m"
    using assms(4)
  proof (induction rule: rtranclp_induct)
    case base
    then show ?case using assms(5,6) by simp
  next
    case (step y z)
    then show ?case using program_tasks_step[OF assms(1,3)] by blast
  qed
  with assms(7) have "program_task m" by auto
  then show ?thesis
    using worker_mux_handler[OF assms(2)] by (auto simp: program_task_def worker_config_def)
qed

theorem tasks_in_default_queue_witness:
  "\<exists>m. pending (wk_queue (serve_message demo_lib demo_attempt 0 busy_worker)) = [m] \<and> msg_retry m = 3 \<and>
     msg_queue m = ''default'' \<and> aq_Handler demo_lib worker_mux (task_Type (msg_task m)) = Some WebhookHandler"
proof -
  let ?y = "serve_message demo_lib demo_attempt 0 busy_worker"
  have "map (\<lambda>m. (task_Type (msg_task m), msg_retry m)) (pending (wk_queue ?y)) = [(''pdf:fire_webhook'', 3)]" by code_simp
  then obtain m where m: "pending (wk_queue ?y) = [m]" "task_Type (msg_task m) = ''pdf:fire_webhook''" "msg_retry m = 3" by auto
  then have "m \<in> set (pending (wk_queue ?y)) \<union> set (archived (wk_queue ?y))" by simp
  from tasks_in_default_queue[OF demo_lib demo_queue_steps _ _ this] m show ?thesis
    by (auto simp: idle_worker_def TypeExtractPages_def)
qed

section \<open>A task that fails before it succeeds\<close>






end
