(* ===== verification/Startup.thy ===== *)
theory Startup
  imports Routes Bootstrap Watchdog RateLimitClaims WorkerServer
begin

text \<open>
  The start and the end of the process in \<open>main.go\<close>: configuration, database, bucket, and
  the parts that are built from them; which failures end the process; and what the
  numbers of the environment become.
\<close>

section \<open>Starting\<close>

text \<open>What \<open>main\<close> has built when it starts to listen.\<close>

record ('d, 's) app =
  app_config :: config
  app_database :: 'd
  app_storage :: "'s minio_storage"
  app_limiter :: rate_limiter
  app_auth :: auth_handler
  app_worker :: server_config
  app_watchdog :: watchdog
  app_addr :: string

text \<open>\<open>new_client\<close> is the object storage library's constructor, on endpoint, keys and whether to
  use TLS.\<close>

definition main_start ::
  "env \<Rightarrow> 'd sql_library \<Rightarrow> embed_fs \<Rightarrow> (string \<Rightarrow> string \<Rightarrow> string \<Rightarrow> bool \<Rightarrow> go_error + 's minio_client) \<Rightarrow> 's \<Rightarrow>
     (exit + ('d, 's) app) \<times> 's" where
  "main_start env lib fs new_client s =
     (let cfg = fst (Load env) in
      case Connect lib fs (fst (DSN cfg)) of
        Inl e \<Rightarrow> (Inl (Fatal ''database'' e), s)
      | Inr db \<Rightarrow>
          (case NewMinIOStorage (new_client (StorageEndpoint cfg) (StorageAccessKey cfg) (StorageSecretKey cfg) (StorageUseSSL cfg))
                  (StorageBucket cfg) (PresignedURLMinutes cfg) s of
             (Inl e, s) \<Rightarrow> (Inl (Fatal ''storage'' e), s)
           | (Inr st, s) \<Rightarrow>
               (Inr \<lparr>app_config = cfg, app_database = db, app_storage = st,
                     app_limiter = NewRateLimiter (RateLimitUploadsPerMinute cfg) minute,
                     app_auth = \<lparr>jwtSecret = JWTSecret cfg, jwtExpiryHours = JWTExpiryHours cfg,
                                 defaultQuota = DefaultQuotaBytes cfg\<rparr>,
                     app_worker = \<lparr>sc_RedisAddr = RedisAddr cfg, sc_RedisPassword = RedisPassword cfg,
                                   sc_Concurrency = WorkerConcurrency cfg\<rparr>,
                     app_watchdog = main_watchdog (ProcessingTimeoutMinutes cfg),
                     app_addr = '':'' @ Port cfg\<rparr>, s)))"

section \<open>Ending\<close>

text \<open>\<open>ListenAndServe\<close> always returns an error; after a shutdown it is \<open>ErrServerClosed\<close>. A
  shutdown that cannot finish in time ends the process too.\<close>

definition ErrServerClosed :: go_error where
  "ErrServerClosed = Opaque ''http: Server closed''"

definition listen_exit :: "go_error \<Rightarrow> exit option" where
  "listen_exit e = (if errors_is e ErrServerClosed then None else Some (Fatal ''server'' e))"

definition shutdown_exit :: "go_error + unit \<Rightarrow> exit option" where
  "shutdown_exit r = (case r of Inl e \<Rightarrow> Some (Fatal ''forced shutdown'' e) | Inr _ \<Rightarrow> None)"

section \<open>Properties\<close>

lemma config_number:
  assumes "int8_ok n" and "env k = itoa n"
  shows "getEnvInt env k d = n" and "getEnvInt64 env k d = n"
proof -
  have "itoa n \<noteq> ''''" by (simp add: itoa_def)
  then show "getEnvInt env k d = n" "getEnvInt64 env k d = n"
    using parse_itoa[OF assms(1)] assms(2) by (simp_all add: getEnvInt_def getEnvInt64_def Let_def)
qed

lemma main_start_Inr:
  "main_start env lib fs nc s = (Inr app, s') \<longleftrightarrow>
     (\<exists>db st. let cfg = fst (Load env) in Connect lib fs (fst (DSN cfg)) = Inr db \<and>
        NewMinIOStorage (nc (StorageEndpoint cfg) (StorageAccessKey cfg) (StorageSecretKey cfg) (StorageUseSSL cfg))
          (StorageBucket cfg) (PresignedURLMinutes cfg) s = (Inr st, s') \<and>
        app = \<lparr>app_config = cfg, app_database = db, app_storage = st,
                app_limiter = NewRateLimiter (RateLimitUploadsPerMinute cfg) minute,
                app_auth = \<lparr>jwtSecret = JWTSecret cfg, jwtExpiryHours = JWTExpiryHours cfg, defaultQuota = DefaultQuotaBytes cfg\<rparr>,
                app_worker = \<lparr>sc_RedisAddr = RedisAddr cfg, sc_RedisPassword = RedisPassword cfg, sc_Concurrency = WorkerConcurrency cfg\<rparr>,
                app_watchdog = main_watchdog (ProcessingTimeoutMinutes cfg), app_addr = '':'' @ Port cfg\<rparr>)"
  by (auto simp: main_start_def Let_def split: sum.splits prod.splits)

text \<open>A limiter that lets nothing pass, behind the routes.\<close>

lemma zero_limit_route:
  assumes "limit \<le> 0" and "sv_limiter x = rl_final (NewRateLimiter limit window) evs"
    and "flexAuth E c x = (Next c', x')" and "GetUserID c' \<noteq> ''''"
  shows "resp_status (fst (route E POST_document c x)) = 429"
proof -
  have "sv_limiter x' = rl_final (NewRateLimiter limit window) evs"
    using assms(2,3) by (auto simp: flexAuth_def split: prod.splits)
  moreover obtain a rl where "Limit (env_clock E) c' (rl_final (NewRateLimiter limit window) evs) = (Abort a, rl)" "resp_status a = 429"
    using limit_zero_refuses[OF assms(1,4)] by blast
  ultimately show ?thesis using assms(3) by (simp add: route_def uploadLimiter_def)
qed

lemma other_routes_unlimited:
  assumes "e \<noteq> POST_document"
  shows "fst (route E e c (x\<lparr>sv_limiter := rl\<rparr>)) = fst (route E e c x)"
proof (cases "public e")
  case True
  then show ?thesis
    by (auto simp: public_def route_def health_def on_db_def set_db_def sv_db_def split: prod.splits)
next
  case False
  obtain out x' where f: "flexAuth E c x = (out, x')" by fastforce
  then have f': "flexAuth E c (x\<lparr>sv_limiter := rl\<rparr>) = (out, x'\<lparr>sv_limiter := rl\<rparr>)"
    by (auto simp: flexAuth_def split: prod.splits)
  have "fst (handler E e c' (x'\<lparr>sv_limiter := rl\<rparr>)) = fst (handler E e c' x')" for c'
    using assms by (cases e) (simp_all add: health_def on_db_def on_files_def on_docs_def on_removals_def
        sv_db_def case_prod_beta)
  with f f' assms False show ?thesis
    by (simp add: route_def chain_protected split: outcome.split)
qed

text \<open>C15: The server starts exactly when the database can be reached and migrated and the bucket
  is there or can be made; nothing touches the bucket before the migrations are done, and the
  message of the exit tells which of the two failed. What it is then built from are the
  numbers of the environment. With a limit of uploads per minute of zero or less, which the
  configuration's comment calls disabled, every upload of a document by an authenticated
  user is answered 429, on any history of requests, while no other route, and so no upload of
  a file, looks at the limiter at all; and the watchdog starts only for a timeout of at least
  two minutes: half of a smaller one is rounded to zero, its ticker panics, and with it the
  whole process.\<close>

theorem startup:
  assumes "int8_ok n" and "env ''RATE_LIMIT_UPLOADS_PER_MINUTE'' = itoa n"
    and "int8_ok quota" and "env ''DEFAULT_QUOTA_BYTES'' = itoa quota"
    and "\<bar>t\<bar> \<le> 100000000" and "env ''PROCESSING_TIMEOUT_MINUTES'' = itoa t"
    and cfg: "cfg = fst (Load env)"
    and bucket: "bucket = NewMinIOStorage (nc (StorageEndpoint cfg) (StorageAccessKey cfg) (StorageSecretKey cfg) (StorageUseSSL cfg))
          (StorageBucket cfg) (PresignedURLMinutes cfg) s"
    and run: "main_start env lib fs nc s = (r, s')"
  shows "(case Connect lib fs (fst (DSN cfg)) of
       Inl e \<Rightarrow> s' = s \<and> r = Inl (Fatal ''database'' e)
     | Inr db \<Rightarrow> s' = snd bucket \<and>
         (case fst bucket of Inl e \<Rightarrow> r = Inl (Fatal ''storage'' e)
          | Inr st \<Rightarrow> \<exists>app. r = Inr app \<and> app_database app = db \<and> app_storage app = st)) \<and>
    (\<forall>app. r = Inr app \<longrightarrow>
      defaultQuota (app_auth app) = quota \<and> rl_limit (app_limiter app) = n \<and> rl_window (app_limiter app) = minute \<and>
      (\<forall>(E :: ('s2, 'q) server_env) c c' x x' evs. n \<le> 0 \<and> sv_limiter x = rl_final (app_limiter app) evs \<and>
          flexAuth E c x = (Next c', x') \<and> GetUserID c' \<noteq> '''' \<longrightarrow>
        resp_status (fst (route E POST_document c x)) = 429) \<and>
      (\<forall>es db. (\<exists>db'. watchdog_Start (app_watchdog app) es db = Inr db') \<longleftrightarrow> 2 \<le> t)) \<and>
    (\<forall>(E :: ('s2, 'q) server_env) e c x rl. e \<noteq> POST_document \<longrightarrow>
      fst (route E e c (x\<lparr>sv_limiter := rl\<rparr>)) = fst (route E e c x))"
proof (intro conjI allI impI)
  show "case Connect lib fs (fst (DSN cfg)) of
       Inl e \<Rightarrow> s' = s \<and> r = Inl (Fatal ''database'' e)
     | Inr db \<Rightarrow> s' = snd bucket \<and>
         (case fst bucket of Inl e \<Rightarrow> r = Inl (Fatal ''storage'' e)
          | Inr st \<Rightarrow> \<exists>app. r = Inr app \<and> app_database app = db \<and> app_storage app = st)"
    using run unfolding bucket by (auto simp: main_start_def cfg Let_def split: sum.splits prod.splits)
next
  fix app
  assume "r = Inr app"
  with run have app: "app_limiter app = NewRateLimiter (RateLimitUploadsPerMinute cfg) minute"
      "defaultQuota (app_auth app) = DefaultQuotaBytes cfg" "app_watchdog app = main_watchdog (ProcessingTimeoutMinutes cfg)"
    by (auto simp: main_start_Inr cfg Let_def)
  have t: "int8_ok t" using assms(5) by (simp add: int8_ok_def abs_le_iff)
  have nums: "RateLimitUploadsPerMinute cfg = n" "DefaultQuotaBytes cfg = quota" "ProcessingTimeoutMinutes cfg = t"
    using config_number[where env = env and k = "''RATE_LIMIT_UPLOADS_PER_MINUTE''", OF assms(1,2)]
      config_number[where env = env and k = "''DEFAULT_QUOTA_BYTES''", OF assms(3,4)]
      config_number[where env = env and k = "''PROCESSING_TIMEOUT_MINUTES''", OF t assms(6)]
    by (simp_all add: cfg Load_def Let_def)
  show "defaultQuota (app_auth app) = quota" using app nums by simp
  show "rl_limit (app_limiter app) = n" "rl_window (app_limiter app) = minute" using app nums by (simp_all add: NewRateLimiter_def)
  show "resp_status (fst (route E POST_document c x)) = 429"
    if "n \<le> 0 \<and> sv_limiter x = rl_final (app_limiter app) evs \<and> flexAuth E c x = (Next c', x') \<and> GetUserID c' \<noteq> ''''"
    for E :: "('s2, 'q) server_env" and c c' x x' evs
    using that zero_limit_route unfolding app(1) nums by blast
  show "(\<exists>db'. watchdog_Start (app_watchdog app) es db = Inr db') \<longleftrightarrow> 2 \<le> t" for es db
    unfolding app(3) nums by (rule watchdog_starts[OF assms(5)])
next
  show "fst (route E e c (x\<lparr>sv_limiter := rl\<rparr>)) = fst (route E e c x)" if "e \<noteq> POST_document"
    for E :: "('s2, 'q) server_env" and e c x rl
    using that by (rule other_routes_unlimited)
qed

text \<open>A server with a limit of zero and a timeout of one minute.\<close>

definition bad_env :: env where
  "bad_env = (\<lambda>_. '''')(''RATE_LIMIT_UPLOADS_PER_MINUTE'' := ''0'', ''DEFAULT_QUOTA_BYTES'' := ''100'', ''PROCESSING_TIMEOUT_MINUTES'' := ''1'')"

definition demo_sql :: "nat sql_library" where
  "demo_sql = \<lparr>sqlx_Connect = (\<lambda>_. Inr 0), db_Exec = (\<lambda>_ n. (Inr (), n + 1))\<rparr>"

definition demo_fs :: embed_fs where
  "demo_fs = \<lparr>fs_ReadDir = (\<lambda>_. Inr [(''001_init.sql'', False), (''002_documents.sql'', False)]), fs_ReadFile = (\<lambda>_. Inr ''CREATE'')\<rparr>"

theorem startup_witness:
  "\<exists>app. main_start bad_env demo_sql demo_fs (\<lambda>_ _ _ _. Inr mock_client) (mock_with (\<lambda>_. None)) = (Inr app, mock_with (\<lambda>_. None)) \<and>
     app_database app = 2 \<and> app_addr app = '':8080'' \<and> defaultQuota (app_auth app) = 100 \<and>
     \<not> (\<exists>db'. watchdog_Start (app_watchdog app) [] empty_db = Inr db')"
proof -
  let ?run = "main_start bad_env demo_sql demo_fs (\<lambda>_ _ _ _. Inr mock_client) (mock_with (\<lambda>_. None))"
  have num: "itoa 0 = ''0''" "itoa 100 = ''100''" "itoa 1 = ''1''" by code_simp+
  obtain app where app: "?run = (Inr app, mock_with (\<lambda>_. None))" "app_database app = 2" "app_addr app = '':8080''"
    by (simp add: main_start_def Connect_def runMigrations_def demo_sql_def demo_fs_def NewMinIOStorage_def mock_client_def Let_def)
       (simp add: Load_def getEnv_def bad_env_def Let_def)
  with startup[OF _ _ _ _ _ _ refl refl app(1), of 0 100 1] num show ?thesis
    by (auto simp: bad_env_def int8_ok_def)
qed

end
