(* ===== verification/Spec2Isabelle.thy ===== *)
theory Spec2Isabelle
  imports MetadataClaims RateLimitClaims AuthClaims FileServiceClaims HandlerClaims Bootstrap
    DocumentClaims DocumentServiceClaims DocumentHandlerClaims TestDoubles ProcessorClaims Watchdog
    Pipeline SystemClaims ApiContract TransactionClaims WorkerServer Startup
begin

text \<open>
  A verification library of the document storage service: an HTTP server in Go over
  PostgreSQL, an S3 object store and a task queue.

  \<^bold>\<open>The program.\<close> Clients register, log in or use API keys (\<open>handlers/auth.go\<close>,
  \<open>handlers/apikeys.go\<close>, \<open>middleware/\<close>), upload files that are deduplicated by content
  (\<open>service/file_service.go\<close> over \<open>storage/metadata.go\<close>), and upload PDFs
  (\<open>service/document_service.go\<close> over \<open>storage/document_store.go\<close>). A PDF's task goes
  through the queue to a worker (\<open>worker/processor.go\<close>), which extracts every page with at
  most five goroutines at a time, stores and records the pages, and enqueues webhooks. A
  watchdog (\<open>worker/watchdog.go\<close>) fails documents that stay too long in the state
  processing. \<open>main.go\<close> puts these together. Database, bucket, queue, limiter and the
  object keys that background goroutines have still to remove are the shared state.

  \<^bold>\<open>How it is modelled.\<close> Go functions are HOL functions with the state passed explicitly;
  a Go error is the left of a sum (\<open>go_error\<close>, theory \<open>Prelude\<close>, with the wrapping of
  \<open>fmt.Errorf\<close> and \<open>errors.Is\<close>), a panic is an error of its own. \<open>int64\<close> arithmetic that
  can wrap is the signed value of a 64-bit word; the columns of the database have the
  ranges of their SQL types. A statement of SQL is a function on the rows of its table, with
  the schema's constraints, and what the program does not control is a parameter: the record
  \<open>pg\<close> gives a statement its clock, generated id, the choice of a \<open>LIMIT 1\<close> and whether it
  fails, so that every failure path of the code is a branch of the model.

  \<^bold>\<open>The theories and what they model.\<close>
  \<^item> \<open>Prelude\<close>: errors, 64-bit integers, updates and deletions of rows; \<open>GoLib\<close>: the functions
    of \<open>strings\<close>, \<open>strconv\<close>, \<open>path\<close> and \<open>hex\<close> in use; \<open>Sha256\<close>: SHA-256 and HMAC;
    \<open>Json\<close>, \<open>JsonText\<close>: values, the encoders of the structs' field tags, and the text that is
    signed; \<open>Gin\<close>: request, response, middleware and handler.
  \<^item> \<open>Schema\<close>: the rows (\<open>storage/types.go\<close>, \<open>storage/document_types.go\<close>), the database with
    its constraints (\<open>db/migrations\<close>), statements and transactions.
  \<^item> \<open>MetadataStore\<close>: every method of \<open>storage/metadata.go\<close>; \<open>MetadataEffects\<close>: what each does
    to the database, with the lemmas that the statements refine these effects;
    \<open>MetadataProps\<close>, \<open>MetadataClaims\<close>: constraints, exact usage, quotas, one object per content,
    atomicity, and where the reference counts go wrong.
  \<^item> \<open>Transactions\<close>: the transactions \<open>Save\<close>, \<open>Delete\<close> and \<open>CreateDocument\<close> one statement at a
    time, any number of sessions interleaved at PostgreSQL's level READ COMMITTED with its row locks (\<open>txn_step\<close>,
    \<open>run_turns\<close>); \<open>TransactionSerial\<close>: a session alone is the serial transaction;
    \<open>TransactionProps\<close>: what every interleaving keeps; \<open>TransactionRaces\<close>, \<open>TransactionClaims\<close>:
    the accounts are safe, uploads never deadlock, and the interleavings in which the locks
    do not suffice. The locale \<open>database_law\<close> is what an invariant of the database has to keep
    under commits; \<open>Concurrency\<close> interprets it for the whole database and lets sessions arrive
    at any time among all other writes of the program (\<open>server_step\<close>).
  \<^item> \<open>RateLimit\<close>, \<open>RateLimitClaims\<close>: \<open>middleware/ratelimit.go\<close>, its in-place pruning loop, the
    refinement of the limiter that keeps the whole history, bounds per window.
  \<^item> \<open>Auth\<close>, \<open>ApiKeyStore\<close>, \<open>AuthClaims\<close>: \<open>middleware/auth.go\<close>, \<open>middleware/apikey.go\<close>,
    \<open>storage/apikey_store.go\<close>: exactly who passes, and the life of a key. The locale
    \<open>key_lookup\<close> is what the middleware relies on.
  \<^item> \<open>ObjectStore\<close>: the interface \<open>Storage\<close> as the locale \<open>object_storage\<close>, the adapter
    \<open>storage/minio.go\<close> over any client that keeps the S3 laws, and \<open>MockStorage\<close>.
  \<^item> \<open>FileService\<close>, \<open>FileServiceClaims\<close>: the pipeline of uploads with its rollback, deletion,
    lookups and URLs, proved once in the locale \<open>file_service\<close> over \<open>metadata_repository\<close> and
    \<open>object_storage\<close>, interpreted on PostgreSQL and the stores.
  \<^item> \<open>DocumentStore\<close>, \<open>DocumentProps\<close>, \<open>DocumentClaims\<close>: \<open>storage/document_store.go\<close>, the invariant
    of the whole database under every write of the program (\<open>store_step\<close>).
  \<^item> \<open>DocumentService\<close>, \<open>DocumentServiceClaims\<close>: \<open>service/document_service.go\<close>, with the locales
    \<open>document_repository\<close> and \<open>document_service\<close>.
  \<^item> \<open>Processor\<close>: \<open>worker/processor.go\<close> and \<open>worker/tasks.go\<close>; each page goroutine is a state
    machine of one call per step, \<open>ex_step\<close> interleaves them. \<open>ProcessorProps\<close>: the
    interleavings end, never get stuck and are the executable schedules of \<open>run_jobs\<close>;
    \<open>ProcessorLive\<close>: no goroutine fails while everything works; \<open>ProcessorClaims\<close>; \<open>Pipeline\<close>: from
    the upload to the document that is ready; \<open>Watchdog\<close>: \<open>worker/watchdog.go\<close>.
  \<^item> \<open>WorkerServer\<close>: \<open>worker/worker.go\<close>, the configuration of the server, the routing of tasks
    and the attempts at them (\<open>serve_step\<close>), with the queue library as the record \<open>asynq_lib\<close>;
    the lexicographic measure of \<open>serve_decreases\<close> shows that the server comes to rest.
  \<^item> \<open>FileHandlers\<close>, \<open>AuthHandlers\<close>, \<open>DocumentHandlers\<close>, \<open>HandlerClaims\<close>, \<open>DocumentHandlerClaims\<close>:
    \<open>handlers/\<close>, the status and body of every answer.
  \<^item> \<open>Config\<close>, \<open>Bootstrap\<close>: \<open>config/config.go\<close> and \<open>db/db.go\<close>; \<open>Startup\<close>: the start of
    \<open>main.go\<close>, what it builds from the environment, and which failures end the process.
  \<^item> \<open>Routes\<close>, \<open>System\<close>, \<open>SystemClaims\<close>, \<open>ApiContract\<close>: the routes of \<open>main.go\<close>; the system as a
    step relation in which each request, task and tick runs to its end before the next starts
    (\<open>system_step\<close>), whose runs are among those of \<open>server_step\<close>; its invariant, authentication and
    separation of users; and the fields that no route answers with.
  \<^item> \<open>TestDoubles\<close>: \<open>testutil/testutil.go\<close>, as instances of the same locales as the production
    stores.

  \<^bold>\<open>Bounds and termination.\<close> No definition needs fuel. The page goroutines of \<open>n\<close> pages make at
  most \<open>7 n\<close> moves: every move lowers the sum of the ranks of the goroutines' positions, which is
  the measure of \<open>run_jobs\<close>. Loops over rows and over the stamps of the limiter recurse on lists
  or count up to a length.

  \<^bold>\<open>Parameters.\<close> The JWT and bcrypt libraries, JSON and form binding, the S3 client, the queue
  library, the PDF library, the file system, the network, random bytes and the database server. What a property
  needs of them is a named hypothesis, and each such property has a witness with concrete
  functions in their place.

  \<^bold>\<open>Overlapping requests.\<close> A handler, a task and a tick are functions on the whole state, so in
  \<open>system_step\<close> they do not overlap, although \<open>main.go\<close> serves them concurrently. On the database
  overlap is modelled by \<open>server_step\<close>: whatever handlers run at the same time, what they do to
  the database is an interleaving of statements of \<open>Save\<close>, \<open>Delete\<close> and \<open>CreateDocument\<close> and of
  single-statement writes, with any arguments, and \<open>concurrent_server\<close> holds of all of these.
  One object per content, reference counts and the presence of objects are proved for
  operations one after another only; \<open>first_uploads_not_deduplicated\<close>,
  \<open>upload_joins_deleted_object\<close> and \<open>overlapping_upload_lost\<close> show how overlap breaks them.

  \<^bold>\<open>Not modelled.\<close> The interleaving of calls to the object store and the queue by different
  requests (but for the pages of one document, and the cases just named); the text of JSON
  requests and task payloads: payloads are JSON values, so what \<open>json.Marshal\<close> does to strings
  that are not UTF-8 is left out, and keys are compared exactly; the float division of
  \<open>used_pct\<close>; failing writes to the client; cancellation of contexts; the matching of paths by
  the web framework; log lines; the SQL of the migrations (its constraints are in \<open>Schema\<close>) and
  the sizes of connection pools; signals and the time limit of the shutdown.
\<close>

end
